theory Spec2Isabelle
  imports Complex_Main
begin

section \<open>Data model\<close>

text \<open>
  The records follow \<^verbatim>\<open>server/src/models/trade.ts\<close> and
  \<^verbatim>\<open>server/src/services/analytics.ts\<close>. A TypeScript \<^verbatim>\<open>number\<close> that carries money
  or a ratio is a finite IEEE double and is modelled by the rational it denotes
  (\<^typ>\<open>rat\<close>); the sums, products and quotients of the aggregator round their results to
  doubles as the source does (section \<open>IEEE doubles\<close> below). NaN and the infinities are
  not modelled. Counters are natural numbers (a double counts exactly up to \<open>2\<^sup>5\<^sup>3\<close>),
  instants are integers (milliseconds since the epoch), a nullable field is an
  \<^typ>\<open>'a option\<close>. String unions become datatypes.
  The amounts of a trade record are the doubles that \<^verbatim>\<open>normalizeTradeRow\<close> makes of the
  \<^verbatim>\<open>NUMERIC(12,2)\<close> columns with \<^verbatim>\<open>Number\<close>: an amount of 1.01 is the double nearest to
  it, \<open>binary64 (101 / 100)\<close>.
\<close>

datatype OptionType = Call | Put

datatype Position = Long | Short

datatype TradeStatus = Open | Closed | Rolled

datatype StrategyKey = Single | VerticalSpread | IronCondor | Other

record OptionLegRecord =
  legId :: string
  legType :: OptionType
  position :: Position
  strike :: rat
  expiry :: string
  quantity :: int
  price :: "rat option"

record TradeRecord =
  tradeId :: string
  userId :: string
  symbol :: string
  tradeStrategy :: "string option"
  status :: TradeStatus
  openedAt :: string
  closedAt :: "string option"
  netCredit :: "rat option"
  netDebit :: "rat option"
  tradeNotes :: "string option"
  createdAt :: string
  updatedAt :: string
  legs :: "OptionLegRecord list"

section \<open>Strategy classifier\<close>

text \<open>
  \<^verbatim>\<open>classifyStrategy\<close> of \<^verbatim>\<open>services/analytics.ts\<close>, branch by branch. The JavaScript
  \<^verbatim>\<open>Set\<close> of expiries is the set of the list, its \<^verbatim>\<open>size\<close> the cardinality;
  \<^verbatim>\<open>includes\<close> is list membership and \<^verbatim>\<open>some\<close> is \<^const>\<open>list_ex\<close>. The destructuring
  \<^verbatim>\<open>[first, second] = legs\<close> is only reached with exactly two legs.
\<close>

definition classifyStrategy :: "TradeRecord \<Rightarrow> StrategyKey" where
  "classifyStrategy trade =
     (let ls = legs trade in
      if length ls = 0 then Other
      else if length ls = 1 then Single
      else if length ls = 2 then
        (let first = ls ! 0; second = ls ! 1 in
         if expiry first = expiry second \<and> legType first = legType second
         then VerticalSpread else Other)
      else if length ls = 4 \<and>
        (let expiries = set (map expiry ls);
             positions = map position ls;
             hasLongAndShort = (Long \<in> set positions \<and> Short \<in> set positions);
             hasBothTypes = (list_ex (\<lambda>leg. legType leg = Call) ls
                             \<and> list_ex (\<lambda>leg. legType leg = Put) ls)
         in card expiries = 1 \<and> hasLongAndShort \<and> hasBothTypes)
      then IronCondor
      else Other)"

section \<open>IEEE doubles\<close>

text \<open>
  The result of an arithmetic operation on two doubles is the exact result rounded to the
  nearest double, and to the one with the even significand when two are equally near.
  \<open>binary64 x\<close> is that double for a rational \<open>x\<close>: with \<open>2\<^sup>e \<le> \<bar>x\<bar> < 2\<^sup>e\<^sup>+\<^sup>1\<close> the
  doubles around \<open>x\<close> are the multiples of \<open>2\<^sup>e\<^sup>-\<^sup>5\<^sup>2\<close> (the significand has 53 bits), and
  \<open>x\<close> goes to the nearest multiple. The exponent is not bounded in the model: it agrees
  with IEEE 754 wherever the magnitude of the rounded result is zero or lies between
  \<open>2\<^sup>-\<^sup>1\<^sup>0\<^sup>2\<^sup>2\<close> and \<open>2\<^sup>1\<^sup>0\<^sup>2\<^sup>4\<close>.
\<close>

text \<open>The number of binary digits of a positive integer.\<close>

function bitLength :: "int \<Rightarrow> nat" where
  "bitLength n = (if n \<le> 0 then 0 else Suc (bitLength (n div 2)))"
  by pat_completeness auto
termination by (relation "measure nat") auto

declare bitLength.simps [simp del]

text \<open>The exponent \<open>e\<close> with \<open>2\<^sup>e \<le> x < 2\<^sup>e\<^sup>+\<^sup>1\<close>, for \<open>x > 0\<close>.\<close>

definition floorLog2 :: "rat \<Rightarrow> int" where
  "floorLog2 x =
     (if 1 \<le> x then int (bitLength \<lfloor>x\<rfloor>) - 1
      else - int (bitLength (\<lceil>1 / x\<rceil> - 1)))"

definition pow2 :: "int \<Rightarrow> rat" where
  "pow2 e = (if 0 \<le> e then 2 ^ nat e else 1 / 2 ^ nat (- e))"

definition roundHalfEven :: "rat \<Rightarrow> int" where
  "roundHalfEven y =
     (let f = \<lfloor>y\<rfloor>; d = y - of_int f
      in if d < 1 / 2 then f
         else if 1 / 2 < d then f + 1
         else if even f then f else f + 1)"

definition binary64 :: "rat \<Rightarrow> rat" where
  "binary64 x =
     (if x = 0 then 0
      else let ulp = pow2 (floorLog2 \<bar>x\<bar> - 52)
           in of_int (roundHalfEven (x / ulp)) * ulp)"

text \<open>The operators \<^verbatim>\<open>+\<close>, \<^verbatim>\<open>-\<close>, \<^verbatim>\<open>*\<close> and \<^verbatim>\<open>/\<close> on numbers.\<close>

definition fadd :: "rat \<Rightarrow> rat \<Rightarrow> rat" where
  "fadd a b = binary64 (a + b)"

definition fsub :: "rat \<Rightarrow> rat \<Rightarrow> rat" where
  "fsub a b = binary64 (a - b)"

definition fmul :: "rat \<Rightarrow> rat \<Rightarrow> rat" where
  "fmul a b = binary64 (a * b)"

definition fdiv :: "rat \<Rightarrow> rat \<Rightarrow> rat" where
  "fdiv a b = binary64 (a / b)"

section \<open>JavaScript primitives used by the aggregator\<close>

text \<open>
  \<^verbatim>\<open>Number(x.toFixed(2))\<close>: \<^verbatim>\<open>toFixed\<close> works on the exact value of the double \<open>x\<close>. It
  takes the sign off, picks the integer \<open>n\<close> with \<open>n / 100\<close> nearest to the magnitude (the
  larger \<open>n\<close> on a tie) and puts the sign back, so it rounds half away from zero. (For
  magnitudes of \<open>10\<^sup>2\<^sup>1\<close> and more \<^verbatim>\<open>toFixed\<close> prints the number itself; every double
  that large is an integer, so rounding to two decimals is the identity there too, and the
  model rounds uniformly.) \<^verbatim>\<open>Number\<close> reads the two-decimal numeral back as the double
  nearest to it, which the JSON of the response and of the \<^verbatim>\<open>snapshot\<close> column prints as
  the same two-decimal numeral again; the model keeps the value \<open>n / 100\<close> of that numeral.
  \<^verbatim>\<open>Math.round\<close> rounds half up.
\<close>

definition toFixed2 :: "rat \<Rightarrow> rat" where
  "toFixed2 x =
     (if x < 0 then - (of_int \<lfloor>(- x) * 100 + 1 / 2\<rfloor> / 100)
      else of_int \<lfloor>x * 100 + 1 / 2\<rfloor> / 100)"

definition mathRound :: "rat \<Rightarrow> int" where
  "mathRound x = \<lfloor>x + 1 / 2\<rfloor>"

text \<open>\<^verbatim>\<open>Number(v ?? 0)\<close> on a nullable numeric field (a number is left as it is).\<close>

definition numberOrZero :: "rat option \<Rightarrow> rat" where
  "numberOrZero v = (case v of None \<Rightarrow> 0 | Some n \<Rightarrow> n)"

text \<open>
  A JavaScript \<^verbatim>\<open>Map\<close> keeps its keys in insertion order: \<^verbatim>\<open>set\<close> on a key already
  present replaces the value where the key stands, on a new key it appends.
\<close>

definition mapGet :: "('k \<times> 'v) list \<Rightarrow> 'k \<Rightarrow> 'v option" where
  "mapGet m k = map_of m k"

fun mapSet :: "('k \<times> 'v) list \<Rightarrow> 'k \<Rightarrow> 'v \<Rightarrow> ('k \<times> 'v) list" where
  "mapSet [] k v = [(k, v)]"
| "mapSet ((k', v') # m) k v =
     (if k' = k then (k, v) # m else (k', v') # mapSet m k v)"

text \<open>
  \<^verbatim>\<open>Array.prototype.sort\<close> with a comparator. The comparator's result is a number or
  NaN (\<^const>\<open>None\<close>); the sort reads NaN as \<open>+0\<close>. The sort is stable. It is modelled as
  a stable insertion sort; with a consistent comparator every stable sort gives this
  result (with an inconsistent one ECMAScript leaves the order to the engine).
\<close>

definition sortCompare :: "('a \<Rightarrow> 'a \<Rightarrow> int option) \<Rightarrow> 'a \<Rightarrow> 'a \<Rightarrow> int" where
  "sortCompare comparefn x y = (case comparefn x y of None \<Rightarrow> 0 | Some v \<Rightarrow> v)"

fun insertBy :: "('a \<Rightarrow> 'a \<Rightarrow> int option) \<Rightarrow> 'a \<Rightarrow> 'a list \<Rightarrow> 'a list" where
  "insertBy comparefn x [] = [x]"
| "insertBy comparefn x (y # ys) =
     (if sortCompare comparefn x y \<le> 0 then x # y # ys
      else y # insertBy comparefn x ys)"

definition jsSort :: "('a \<Rightarrow> 'a \<Rightarrow> int option) \<Rightarrow> 'a list \<Rightarrow> 'a list" where
  "jsSort comparefn xs = foldr (insertBy comparefn) xs []"

section \<open>Metric aggregator\<close>

text \<open>
  \<^verbatim>\<open>new Date(s).getTime()\<close> is a parameter \<open>getTime\<close> of the model: it gives the
  milliseconds of a date string, or \<^const>\<open>None\<close> for NaN (an invalid date). Every
  theorem below holds for every such function.
  The quotient of \<^verbatim>\<open>daysBetween\<close> is the exact one: rounding it to a double before
  \<^verbatim>\<open>Math.round\<close>, as the source does, gives the same number of days for instants less
  than \<open>2\<^sup>5\<^sup>2\<close> milliseconds apart (lemma \<open>daysBetween_quotient\<close>).
\<close>

definition daysBetween :: "(string \<Rightarrow> int option) \<Rightarrow> string \<Rightarrow> string \<Rightarrow> int" where
  "daysBetween getTime startStr endStr =
     (case (getTime startStr, getTime endStr) of
        (Some startMs, Some endMs) \<Rightarrow>
          (let diff = max 0 (endMs - startMs)
           in mathRound (of_int diff / (1000 * 60 * 60 * 24)))
      | _ \<Rightarrow> 0)"

definition bucketHoldingPeriod :: "int \<Rightarrow> string" where
  "bucketHoldingPeriod days =
     (if days \<le> 3 then ''0-3d''
      else if days \<le> 7 then ''4-7d''
      else if days \<le> 30 then ''8-30d''
      else ''31d+'')"

text \<open>
  \<^verbatim>\<open>credit - debit\<close> in \<^verbatim>\<open>tradePnl\<close> is the exact difference: it has nothing to round
  when one of the two amounts is null or zero, and \<^verbatim>\<open>createTrade\<close> and \<^verbatim>\<open>updateTrade\<close> of
  \<^verbatim>\<open>models/trade.ts\<close> write one of the two columns as null in every row.
\<close>

definition tradePnl :: "TradeRecord \<Rightarrow> rat" where
  "tradePnl trade =
     (let credit = numberOrZero (netCredit trade);
          debit = numberOrZero (netDebit trade)
      in credit - debit)"

definition tradeBasis :: "TradeRecord \<Rightarrow> rat" where
  "tradeBasis trade =
     (let credit = \<bar>numberOrZero (netCredit trade)\<bar>;
          debit = \<bar>numberOrZero (netDebit trade)\<bar>;
          basis = (if debit > 0 then debit else credit)
      in if basis = 0 then 1 else basis)"

record StrategyMetric =
  strategy :: StrategyKey
  total :: nat
  wins :: nat
  losses :: nat
  strategyAveragePnl :: rat

record EquityPoint =
  date :: string
  cumulativePnl :: rat

record HoldingBucket =
  bucket :: string
  count :: nat

record SnapshotTotals =
  winRate :: rat
  averagePnl :: rat
  averagePnlPct :: rat
  expectancy :: rat
  averageHoldDays :: rat
  closedTrades :: nat

record AnalyticsSnapshot =
  generatedAt :: int
  totals :: SnapshotTotals
  strategyBreakdown :: "StrategyMetric list"
  equityCurve :: "EquityPoint list"
  holdingPeriods :: "HoldingBucket list"

text \<open>The accumulators of the aggregation loop: the local \<^verbatim>\<open>totals\<close> object, the
  entries of \<^verbatim>\<open>strategyMap\<close>, and the loop state as a whole.\<close>

record RunningTotals =
  accWins :: nat
  accLosses :: nat
  accPnlSum :: rat
  accPnlPctSum :: rat
  accHoldSum :: rat
  accWinPnlSum :: rat
  accLossPnlSum :: rat

record StrategyStats =
  statTotal :: nat
  statWins :: nat
  statLosses :: nat
  statPnlSum :: rat

record LoopState =
  runningTotals :: RunningTotals
  strategyMap :: "(StrategyKey \<times> StrategyStats) list"
  holdingBuckets :: "(string \<times> nat) list"

text \<open>\<^verbatim>\<open>Boolean(trade.closedAt)\<close>: null and the empty string are falsy.\<close>

definition isClosed :: "TradeRecord \<Rightarrow> bool" where
  "isClosed trade = (case closedAt trade of None \<Rightarrow> False | Some s \<Rightarrow> s \<noteq> [])"

text \<open>\<^verbatim>\<open>trade.closedAt ?? trade.openedAt\<close>.\<close>

definition closedOrOpened :: "TradeRecord \<Rightarrow> string" where
  "closedOrOpened trade = (case closedAt trade of None \<Rightarrow> openedAt trade | Some s \<Rightarrow> s)"

text \<open>The comparator of \<^verbatim>\<open>sortedClosed\<close>: a difference of two \<^verbatim>\<open>getTime()\<close> values,
  NaN when either date is invalid.\<close>

definition compareByDate :: "(string \<Rightarrow> int option) \<Rightarrow> TradeRecord \<Rightarrow> TradeRecord \<Rightarrow> int option" where
  "compareByDate getTime a b =
     (let aDate = closedOrOpened a; bDate = closedOrOpened b
      in case (getTime aDate, getTime bDate) of
           (Some x, Some y) \<Rightarrow> Some (x - y)
         | _ \<Rightarrow> None)"

text \<open>The first loop (over \<^verbatim>\<open>sortedClosed\<close>): the running \<^verbatim>\<open>cumulative\<close> is the
  first argument, the points pushed onto \<^verbatim>\<open>equityBase\<close> are the result.\<close>

fun equityLoop :: "rat \<Rightarrow> TradeRecord list \<Rightarrow> EquityPoint list" where
  "equityLoop cumulative [] = []"
| "equityLoop cumulative (trade # rest) =
     (let pnl = tradePnl trade;
          cumulative' = fadd cumulative pnl
      in \<lparr>date = closedOrOpened trade, cumulativePnl = toFixed2 cumulative'\<rparr>
           # equityLoop cumulative' rest)"

text \<open>The body of the second loop (over \<^verbatim>\<open>closedTrades\<close>).\<close>

definition aggregateTrade :: "(string \<Rightarrow> int option) \<Rightarrow> LoopState \<Rightarrow> TradeRecord \<Rightarrow> LoopState" where
  "aggregateTrade getTime st trade =
     (let pnl = tradePnl trade;
          basis = tradeBasis trade;
          pnlPct = fmul (fdiv pnl basis) 100;
          holdDays = daysBetween getTime (openedAt trade) (closedOrOpened trade);
          bucketLabel = bucketHoldingPeriod holdDays;
          buckets' = mapSet (holdingBuckets st) bucketLabel
            ((case mapGet (holdingBuckets st) bucketLabel of None \<Rightarrow> 0 | Some n \<Rightarrow> n) + 1);
          t0 = runningTotals st;
          t1 = t0\<lparr>accPnlSum := fadd (accPnlSum t0) pnl,
                  accPnlPctSum := fadd (accPnlPctSum t0) pnlPct,
                  accHoldSum := fadd (accHoldSum t0) (of_int holdDays)\<rparr>;
          key = classifyStrategy trade;
          c0 = (case mapGet (strategyMap st) key of
                  None \<Rightarrow> \<lparr>statTotal = 0, statWins = 0, statLosses = 0, statPnlSum = 0\<rparr>
                | Some cur \<Rightarrow> cur);
          c1 = c0\<lparr>statTotal := statTotal c0 + 1, statPnlSum := fadd (statPnlSum c0) pnl\<rparr>;
          t2 = (if pnl > 0
                then t1\<lparr>accWins := accWins t1 + 1, accWinPnlSum := fadd (accWinPnlSum t1) pnl\<rparr>
                else if pnl < 0
                then t1\<lparr>accLosses := accLosses t1 + 1,
                        accLossPnlSum := fadd (accLossPnlSum t1) \<bar>pnl\<bar>\<rparr>
                else t1);
          c2 = (if pnl > 0 then c1\<lparr>statWins := statWins c1 + 1\<rparr>
                else if pnl < 0 then c1\<lparr>statLosses := statLosses c1 + 1\<rparr>
                else c1\<lparr>statTotal := statTotal c1 + 0\<rparr>)
      in \<lparr>runningTotals = t2,
          strategyMap = mapSet (strategyMap st) key c2,
          holdingBuckets = buckets'\<rparr>)"

definition initialState :: LoopState where
  "initialState =
     \<lparr>runningTotals = \<lparr>accWins = 0, accLosses = 0, accPnlSum = 0, accPnlPctSum = 0,
                        accHoldSum = 0, accWinPnlSum = 0, accLossPnlSum = 0\<rparr>,
      strategyMap = [],
      holdingBuckets = []\<rparr>"

definition toMetric :: "StrategyKey \<times> StrategyStats \<Rightarrow> StrategyMetric" where
  "toMetric entry =
     (case entry of (key, stats) \<Rightarrow>
        \<lparr>strategy = key,
         total = statTotal stats,
         wins = statWins stats,
         losses = statLosses stats,
         strategyAveragePnl =
           (if statTotal stats \<noteq> 0
            then toFixed2 (fdiv (statPnlSum stats) (of_nat (statTotal stats))) else 0)\<rparr>)"

definition compareByTotal :: "StrategyMetric \<Rightarrow> StrategyMetric \<Rightarrow> int option" where
  "compareByTotal a b = Some (int (total b) - int (total a))"

definition bucketLabels :: "string list" where
  "bucketLabels = [''0-3d'', ''4-7d'', ''8-30d'', ''31d+'']"

text \<open>
  The body of \<^verbatim>\<open>calculateAnalyticsSnapshot\<close> after the read of the trade history:
  \<open>now\<close> is the clock read by \<^verbatim>\<open>new Date()\<close> for \<^verbatim>\<open>generatedAt\<close>.
\<close>

definition snapshotOfTrades :: "(string \<Rightarrow> int option) \<Rightarrow> int \<Rightarrow> TradeRecord list \<Rightarrow> AnalyticsSnapshot" where
  "snapshotOfTrades getTime now trades =
     (let closedList = filter isClosed trades;
          sortedClosed = jsSort (compareByDate getTime) closedList;
          equityBase = equityLoop 0 sortedClosed;
          st = foldl (aggregateTrade getTime) initialState closedList;
          tot = runningTotals st;
          closedCount = length closedList;
          winRateF = (if closedCount \<noteq> 0 then fdiv (of_nat (accWins tot)) (of_nat closedCount) else 0);
          avgPnl = (if closedCount \<noteq> 0 then fdiv (accPnlSum tot) (of_nat closedCount) else 0);
          avgPnlPct = (if closedCount \<noteq> 0 then fdiv (accPnlPctSum tot) (of_nat closedCount) else 0);
          avgHoldDays = (if closedCount \<noteq> 0 then fdiv (accHoldSum tot) (of_nat closedCount) else 0);
          avgWin = (if accWins tot \<noteq> 0 then fdiv (accWinPnlSum tot) (of_nat (accWins tot)) else 0);
          avgLoss = (if accLosses tot \<noteq> 0 then fdiv (accLossPnlSum tot) (of_nat (accLosses tot)) else 0);
          expectancyF = fsub (fmul avgWin winRateF) (fmul avgLoss (fsub 1 winRateF));
          breakdown = jsSort compareByTotal (map toMetric (strategyMap st));
          periods = map (\<lambda>b. \<lparr>bucket = b,
                        count = (case mapGet (holdingBuckets st) b of None \<Rightarrow> 0 | Some n \<Rightarrow> n)\<rparr>)
                      bucketLabels
      in \<lparr>generatedAt = now,
          totals = \<lparr>winRate = toFixed2 (fmul winRateF 100),
                    averagePnl = toFixed2 avgPnl,
                    averagePnlPct = toFixed2 avgPnlPct,
                    expectancy = toFixed2 expectancyF,
                    averageHoldDays = toFixed2 avgHoldDays,
                    closedTrades = closedCount\<rparr>,
          strategyBreakdown = breakdown,
          equityCurve = equityBase,
          holdingPeriods = periods\<rparr>)"

section \<open>Snapshot store and trade repository\<close>

text \<open>
  The database behind \<^verbatim>\<open>pool.query\<close>. A query either is rejected (the promise
  rejects and the \<^verbatim>\<open>await\<close> throws) or answers; which queries are rejected is the
  field \<open>rejects\<close>. \<open>tradeRows\<close> gives the rows of the \<^verbatim>\<open>listTrades\<close> query of a user
  in the order of its \<^verbatim>\<open>ORDER BY\<close>, already normalised to trade records. A report
  date is a day number, a timestamp is in milliseconds. The \<^verbatim>\<open>snapshot\<close> column gives back
  the snapshot that was written (the JSON round trip is taken as the identity).
\<close>

datatype query =
  SelectUsers
  | SelectTrades string
  | SelectLatestSummary string string
  | UpsertSummary string string int

datatype error = QueryRejected query

record StoredAnalyticsSnapshot =
  storedUserId :: string
  label :: string
  reportDate :: int
  calculatedAt :: int
  snapshot :: AnalyticsSnapshot

record database =
  users :: "string list"
  tradeRows :: "string \<Rightarrow> TradeRecord list"
  analytics_summaries :: "StoredAnalyticsSnapshot list"
  rejects :: "query \<Rightarrow> bool"

definition DEFAULT_LABEL :: string where
  "DEFAULT_LABEL = ''portfolio''"

definition ONE_DAY_MS :: int where
  "ONE_DAY_MS = 24 * 60 * 60 * 1000"

text \<open>The calendar day (as a day number) that a \<^verbatim>\<open>Date\<close> bound to a \<^verbatim>\<open>DATE\<close>
  column is stored as.\<close>

definition dateOfInstant :: "int \<Rightarrow> int" where
  "dateOfInstant ms = ms div ONE_DAY_MS"

definition listTrades :: "database \<Rightarrow> string \<Rightarrow> error + TradeRecord list" where
  "listTrades db uid =
     (if rejects db (SelectTrades uid) then Inl (QueryRejected (SelectTrades uid))
      else Inr (tradeRows db uid))"

definition calculateAnalyticsSnapshot ::
    "(string \<Rightarrow> int option) \<Rightarrow> int \<Rightarrow> database \<Rightarrow> string \<Rightarrow> error + AnalyticsSnapshot" where
  "calculateAnalyticsSnapshot getTime now db uid =
     (case listTrades db uid of
        Inl e \<Rightarrow> Inl e
      | Inr trades \<Rightarrow> Inr (snapshotOfTrades getTime now trades))"

definition sameKey :: "string \<Rightarrow> string \<Rightarrow> int \<Rightarrow> StoredAnalyticsSnapshot \<Rightarrow> bool" where
  "sameKey uid lbl day row =
     (storedUserId row = uid \<and> label row = lbl \<and> reportDate row = day)"

text \<open>
  \<^verbatim>\<open>INSERT ... ON CONFLICT (user_id, label, report_date) DO UPDATE SET snapshot,
  calculated_at ... RETURNING\<close>: the row of the key is overwritten where it stands, or a
  new row is added; the row as stored is returned. \<open>now\<close> is the clock at the call.
\<close>

definition upsertAnalyticsSnapshot ::
    "int \<Rightarrow> database \<Rightarrow> string \<Rightarrow> AnalyticsSnapshot \<Rightarrow> string \<Rightarrow> int
      \<Rightarrow> (error + StoredAnalyticsSnapshot) \<times> database" where
  "upsertAnalyticsSnapshot now db uid snap lbl day =
     (if rejects db (UpsertSummary uid lbl day)
      then (Inl (QueryRejected (UpsertSummary uid lbl day)), db)
      else
        (let row = \<lparr>storedUserId = uid, label = lbl, reportDate = day,
                      calculatedAt = now, snapshot = snap\<rparr>;
             rows = analytics_summaries db;
             rows' = (if list_ex (sameKey uid lbl day) rows
                      then map (\<lambda>r. if sameKey uid lbl day r
                                    then r\<lparr>snapshot := snap, calculatedAt := now\<rparr> else r) rows
                      else rows @ [row])
         in (Inr row, db\<lparr>analytics_summaries := rows'\<rparr>)))"

text \<open>\<^verbatim>\<open>ORDER BY report_date DESC, calculated_at DESC LIMIT 1\<close> over the rows of the
  user and label: the first row that no other is newer than. (By the table's unique key
  two such rows never share a report date, so the order leaves no tie.)\<close>

definition newer :: "StoredAnalyticsSnapshot \<Rightarrow> StoredAnalyticsSnapshot \<Rightarrow> bool" where
  "newer r s =
     (reportDate r > reportDate s
      \<or> (reportDate r = reportDate s \<and> calculatedAt r > calculatedAt s))"

fun latestRow :: "StoredAnalyticsSnapshot option \<Rightarrow> StoredAnalyticsSnapshot list
    \<Rightarrow> StoredAnalyticsSnapshot option" where
  "latestRow best [] = best"
| "latestRow best (r # rs) =
     (case best of
        None \<Rightarrow> latestRow (Some r) rs
      | Some b \<Rightarrow> latestRow (if newer r b then Some r else Some b) rs)"

definition getLatestAnalyticsSnapshot ::
    "database \<Rightarrow> string \<Rightarrow> string \<Rightarrow> error + StoredAnalyticsSnapshot option" where
  "getLatestAnalyticsSnapshot db uid lbl =
     (if rejects db (SelectLatestSummary uid lbl)
      then Inl (QueryRejected (SelectLatestSummary uid lbl))
      else Inr (latestRow None
             (filter (\<lambda>r. storedUserId r = uid \<and> label r = lbl) (analytics_summaries db))))"

section \<open>Snapshot service: the routes and the scheduled task\<close>

record SummaryResponse =
  data :: AnalyticsSnapshot
  responseReportDate :: int
  responseCalculatedAt :: int
  refreshed :: bool

text \<open>
  \<^verbatim>\<open>calculateAnalyticsSnapshot\<close>, then \<^verbatim>\<open>upsertAnalyticsSnapshot(userId, snapshot)\<close> with
  its default label and default report date, then the response with
  \<^verbatim>\<open>refreshed: true\<close>: the statements shared by the second half of
  \<^verbatim>\<open>GET /summary\<close> and by \<^verbatim>\<open>POST /recalculate\<close>. One clock value \<open>now\<close> stands for
  the clock reads of one request.
\<close>

definition recalculate ::
    "(string \<Rightarrow> int option) \<Rightarrow> int \<Rightarrow> database \<Rightarrow> string
      \<Rightarrow> (error + SummaryResponse) \<times> database" where
  "recalculate getTime now db uid =
     (case calculateAnalyticsSnapshot getTime now db uid of
        Inl e \<Rightarrow> (Inl e, db)
      | Inr snap \<Rightarrow>
          (case upsertAnalyticsSnapshot now db uid snap DEFAULT_LABEL (dateOfInstant now) of
             (Inl e, db') \<Rightarrow> (Inl e, db')
           | (Inr stored, db') \<Rightarrow>
               (Inr \<lparr>data = snapshot stored,
                     responseReportDate = reportDate stored,
                     responseCalculatedAt = calculatedAt stored,
                     refreshed = True\<rparr>, db')))"

definition getSummary ::
    "(string \<Rightarrow> int option) \<Rightarrow> int \<Rightarrow> database \<Rightarrow> string
      \<Rightarrow> (error + SummaryResponse) \<times> database" where
  "getSummary getTime now db uid =
     (case getLatestAnalyticsSnapshot db uid DEFAULT_LABEL of
        Inl e \<Rightarrow> (Inl e, db)
      | Inr existing \<Rightarrow>
          (let shouldRecompute =
                 (case existing of
                    None \<Rightarrow> True
                  | Some ex \<Rightarrow> now - calculatedAt ex > ONE_DAY_MS)
           in case existing of
                Some ex \<Rightarrow>
                  if \<not> shouldRecompute
                  then (Inr \<lparr>data = snapshot ex,
                             responseReportDate = reportDate ex,
                             responseCalculatedAt = calculatedAt ex,
                             refreshed = False\<rparr>, db)
                  else recalculate getTime now db uid
              | None \<Rightarrow> recalculate getTime now db uid))"

text \<open>\<^verbatim>\<open>tasks/analytics.ts\<close>.\<close>

definition recalculateAnalyticsForUser ::
    "(string \<Rightarrow> int option) \<Rightarrow> int \<Rightarrow> database \<Rightarrow> string \<Rightarrow> (error + unit) \<times> database" where
  "recalculateAnalyticsForUser getTime now db uid =
     (case calculateAnalyticsSnapshot getTime now db uid of
        Inl e \<Rightarrow> (Inl e, db)
      | Inr snap \<Rightarrow>
          (case upsertAnalyticsSnapshot now db uid snap DEFAULT_LABEL (dateOfInstant now) of
             (Inl e, db') \<Rightarrow> (Inl e, db')
           | (Inr stored, db') \<Rightarrow> (Inr (), db')))"

text \<open>The \<^verbatim>\<open>for ... of result.rows\<close> loop: an exception thrown by the body leaves the
  loop and the function.\<close>

fun recalculateRows ::
    "(string \<Rightarrow> int option) \<Rightarrow> int \<Rightarrow> string list \<Rightarrow> database \<Rightarrow> (error + unit) \<times> database" where
  "recalculateRows getTime now [] db = (Inr (), db)"
| "recalculateRows getTime now (uid # rest) db =
     (case recalculateAnalyticsForUser getTime now db uid of
        (Inl e, db') \<Rightarrow> (Inl e, db')
      | (Inr u, db') \<Rightarrow> recalculateRows getTime now rest db')"

definition recalculateAnalyticsForAllUsers ::
    "(string \<Rightarrow> int option) \<Rightarrow> int \<Rightarrow> database \<Rightarrow> (error + unit) \<times> database" where
  "recalculateAnalyticsForAllUsers getTime now db =
     (if rejects db SelectUsers then (Inl (QueryRejected SelectUsers), db)
      else recalculateRows getTime now (users db) db)"

text \<open>The callback of \<^verbatim>\<open>cron.schedule\<close> in \<^verbatim>\<open>index.ts\<close>: the one
  \<^verbatim>\<open>try\<close>/\<^verbatim>\<open>catch\<close> around the whole batch; \<^verbatim>\<open>console.error\<close> appends to the log.\<close>

definition cronCallback ::
    "(string \<Rightarrow> int option) \<Rightarrow> int \<Rightarrow> database \<times> (string \<times> error) list
      \<Rightarrow> database \<times> (string \<times> error) list" where
  "cronCallback getTime now state =
     (case state of (db, logged) \<Rightarrow>
        (case recalculateAnalyticsForAllUsers getTime now db of
           (Inl e, db') \<Rightarrow> (db', logged @ [(''Analytics cron failed'', e)])
         | (Inr u, db') \<Rightarrow> (db', logged)))"

section \<open>Notation for the statements\<close>

text \<open>The holding days of a trade as the aggregation loop computes them, the archetype's
  entry of \<^verbatim>\<open>strategyMap\<close> with the loop's default for a key not yet seen, and a
  counter of \<^verbatim>\<open>holdingBuckets\<close> with \<^verbatim>\<open>?? 0\<close>.\<close>

abbreviation holdDaysOf :: "(string \<Rightarrow> int option) \<Rightarrow> TradeRecord \<Rightarrow> int" where
  "holdDaysOf getTime trade \<equiv> daysBetween getTime (openedAt trade) (closedOrOpened trade)"

text \<open>The percentage return of a trade as the aggregation loop computes it
  (\<^verbatim>\<open>(pnl / basis) * 100\<close>), and the sum of a list of numbers as a loop \<^verbatim>\<open>sum += x\<close> from
  \<^verbatim>\<open>0\<close> computes it.\<close>

abbreviation pnlPctOf :: "TradeRecord \<Rightarrow> rat" where
  "pnlPctOf trade \<equiv> fmul (fdiv (tradePnl trade) (tradeBasis trade)) 100"

abbreviation floatSum :: "rat list \<Rightarrow> rat" where
  "floatSum xs \<equiv> foldl fadd 0 xs"

abbreviation statsOrZero :: "(StrategyKey \<times> StrategyStats) list \<Rightarrow> StrategyKey \<Rightarrow> StrategyStats" where
  "statsOrZero m k \<equiv>
     (case mapGet m k of
        None \<Rightarrow> \<lparr>statTotal = 0, statWins = 0, statLosses = 0, statPnlSum = 0\<rparr>
      | Some cur \<Rightarrow> cur)"

abbreviation countOrZero :: "(string \<times> nat) list \<Rightarrow> string \<Rightarrow> nat" where
  "countOrZero m b \<equiv> (case mapGet m b of None \<Rightarrow> 0 | Some n \<Rightarrow> n)"

text \<open>The row that a recomputation for a user at \<open>now\<close> writes to the store, and
  whether the two queries of such a recomputation are both answered.\<close>

abbreviation recomputedRow ::
    "(string \<Rightarrow> int option) \<Rightarrow> int \<Rightarrow> database \<Rightarrow> string \<Rightarrow> StoredAnalyticsSnapshot" where
  "recomputedRow getTime now db uid \<equiv>
     \<lparr>storedUserId = uid, label = DEFAULT_LABEL, reportDate = dateOfInstant now,
      calculatedAt = now, snapshot = snapshotOfTrades getTime now (tradeRows db uid)\<rparr>"

abbreviation recomputeAnswered :: "int \<Rightarrow> database \<Rightarrow> string \<Rightarrow> bool" where
  "recomputeAnswered now db uid \<equiv>
     (\<not> rejects db (SelectTrades uid)
      \<and> \<not> rejects db (UpsertSummary uid DEFAULT_LABEL (dateOfInstant now)))"

section \<open>Concrete inputs\<close>

text \<open>
  One instance of \<open>getTime\<close>, used to evaluate the model on concrete histories: the
  date-only form \<^verbatim>\<open>YYYY-MM-DD\<close> of the ECMAScript date-time string format, which is what
  the trade repository selects (\<^verbatim>\<open>to_char(..., 'YYYY-MM-DD')\<close>), read as midnight UTC; NaN
  on any other string.
\<close>

definition digitValue :: "char \<Rightarrow> int option" where
  "digitValue c =
     (let n = (of_char c :: nat) in if 48 \<le> n \<and> n \<le> 57 then Some (int n - 48) else None)"

fun digitsValue :: "int \<Rightarrow> string \<Rightarrow> int option" where
  "digitsValue acc [] = Some acc"
| "digitsValue acc (c # cs) =
     (case digitValue c of None \<Rightarrow> None | Some d \<Rightarrow> digitsValue (acc * 10 + d) cs)"

definition daysInMonth :: "int \<Rightarrow> int \<Rightarrow> int" where
  "daysInMonth y m =
     (if m = 2 then (if y mod 4 = 0 \<and> (y mod 100 \<noteq> 0 \<or> y mod 400 = 0) then 29 else 28)
      else if m = 4 \<or> m = 6 \<or> m = 9 \<or> m = 11 then 30 else 31)"

definition daysFromCivil :: "int \<Rightarrow> int \<Rightarrow> int \<Rightarrow> int" where
  "daysFromCivil y m d =
     (let y' = (if m \<le> 2 then y - 1 else y);
          era = y' div 400;
          yoe = y' - era * 400;
          mp = (m + 9) mod 12;
          doy = (153 * mp + 2) div 5 + d - 1;
          doe = yoe * 365 + yoe div 4 - yoe div 100 + doy
      in era * 146097 + doe - 719468)"

definition isoDateTime :: "string \<Rightarrow> int option" where
  "isoDateTime s =
     (if length s = 10 \<and> s ! 4 = CHR ''-'' \<and> s ! 7 = CHR ''-'' then
        (case (digitsValue 0 (take 4 s), digitsValue 0 (take 2 (drop 5 s)),
               digitsValue 0 (drop 8 s)) of
           (Some y, Some m, Some d) \<Rightarrow>
             (if 1 \<le> m \<and> m \<le> 12 \<and> 1 \<le> d \<and> d \<le> daysInMonth y m
              then Some (daysFromCivil y m d * 86400000) else None)
         | _ \<Rightarrow> None)
      else None)"

definition mkLeg :: "OptionType \<Rightarrow> Position \<Rightarrow> rat \<Rightarrow> string \<Rightarrow> OptionLegRecord" where
  "mkLeg ty pos k e =
     \<lparr>legId = [], legType = ty, position = pos, strike = k, expiry = e,
      quantity = 1, price = None\<rparr>"

definition mkTrade ::
    "string \<Rightarrow> string option \<Rightarrow> rat option \<Rightarrow> rat option \<Rightarrow> OptionLegRecord list \<Rightarrow> TradeRecord" where
  "mkTrade ot ct credit debit ls =
     \<lparr>tradeId = [], userId = [], symbol = [], tradeStrategy = None, status = Open,
      openedAt = ot, closedAt = ct, netCredit = credit, netDebit = debit,
      tradeNotes = None, createdAt = [], updatedAt = [], legs = ls\<rparr>"

definition legsNone :: TradeRecord where
  "legsNone = mkTrade ''2024-01-01'' None None None []"

definition legsOne :: TradeRecord where
  "legsOne = mkTrade ''2024-01-01'' None (Some 250) None [mkLeg Put Short 95 ''2024-02-16'']"

definition legsTwoLongCalls :: TradeRecord where
  "legsTwoLongCalls = mkTrade ''2024-01-01'' None None (Some 120)
     [mkLeg Call Long 100 ''2024-02-16'', mkLeg Call Long 110 ''2024-02-16'']"

definition legsThree :: TradeRecord where
  "legsThree = mkTrade ''2024-01-01'' None None (Some 120)
     [mkLeg Call Long 100 ''2024-02-16'', mkLeg Call Short 110 ''2024-02-16'',
      mkLeg Call Long 120 ''2024-02-16'']"

definition legsCondor :: TradeRecord where
  "legsCondor = mkTrade ''2024-01-01'' None (Some 80) None
     [mkLeg Call Long 120 ''2024-02-16'', mkLeg Call Short 110 ''2024-02-16'',
      mkLeg Put Long 80 ''2024-02-16'', mkLeg Put Short 90 ''2024-02-16'']"

definition legsAllLong :: TradeRecord where
  "legsAllLong = mkTrade ''2024-01-01'' None None (Some 80)
     [mkLeg Call Long 120 ''2024-02-16'', mkLeg Call Long 110 ''2024-02-16'',
      mkLeg Put Long 80 ''2024-02-16'', mkLeg Put Long 90 ''2024-02-16'']"




definition nineDayTrade :: TradeRecord where
  "nineDayTrade = mkTrade ''2024-01-01'' (Some ''2024-01-10'') (Some 250) None
     [mkLeg Put Short 95 ''2024-02-16'']"

definition badDateTrade :: TradeRecord where
  "badDateTrade = mkTrade ''not a date'' (Some ''2024-01-10'') None (Some 40)
     [mkLeg Call Long 100 ''2024-02-16'']"

definition openTrade :: TradeRecord where
  "openTrade = mkTrade ''2024-01-01'' None None (Some 40)
     [mkLeg Call Long 100 ''2024-02-16'']"

definition winTrade :: TradeRecord where
  "winTrade = mkTrade ''2024-01-01'' (Some ''2024-01-10'') (Some 300) None
     [mkLeg Put Short 95 ''2024-02-16'']"

definition lossTrade :: TradeRecord where
  "lossTrade = mkTrade ''2024-01-01'' (Some ''2024-01-05'') None (Some 300)
     [mkLeg Call Long 100 ''2024-02-16'']"

definition lateLossTrade :: TradeRecord where
  "lateLossTrade = mkTrade ''2024-01-01'' (Some ''2024-03-15'') None (Some 300) []"

definition stillOpenTrade :: TradeRecord where
  "stillOpenTrade = mkTrade ''2024-01-02'' None (Some 55) None
     [mkLeg Put Short 90 ''2024-02-16'']"

definition sampleHistory :: "TradeRecord list" where
  "sampleHistory = [winTrade, lossTrade, stillOpenTrade, lateLossTrade]"

definition plus100 :: TradeRecord where
  "plus100 = mkTrade ''2024-01-01'' (Some ''2024-01-10'') (Some 100) None
     [mkLeg Put Short 95 ''2024-02-16'']"

definition minus40 :: TradeRecord where
  "minus40 = mkTrade ''2024-01-01'' (Some ''2024-01-10'') None (Some 40)
     [mkLeg Call Long 100 ''2024-02-16'']"

definition storedRow :: StoredAnalyticsSnapshot where
  "storedRow =
     \<lparr>storedUserId = ''u1'', label = ''portfolio'', reportDate = 19723,
      calculatedAt = 1704067200000,
      snapshot = snapshotOfTrades isoDateTime 1704067200000 sampleHistory\<rparr>"

definition sampleDb :: database where
  "sampleDb =
     \<lparr>users = [''u1'', ''u2''],
      tradeRows = (\<lambda>u. if u = ''u1'' then sampleHistory else []),
      analytics_summaries = [storedRow],
      rejects = (\<lambda>q. False)\<rparr>"

definition failingDb :: database where
  "failingDb =
     \<lparr>users = [''u1'', ''u2'', ''u3''],
      tradeRows = (\<lambda>u. if u = ''u1'' then sampleHistory else []),
      analytics_summaries = [],
      rejects = (\<lambda>q. q = SelectTrades ''u2'')\<rparr>"

definition creditOne :: TradeRecord where
  "creditOne = mkTrade ''2024-01-01'' (Some ''2024-01-05'') (Some 1) None []"

definition creditCents :: TradeRecord where
  "creditCents = mkTrade ''2024-01-01'' (Some ''2024-01-10'') (Some (binary64 (101 / 100))) None []"




definition manyTrades :: "TradeRecord list" where
  "manyTrades = replicate 23 plus100 @ replicate 137 minus40"

section \<open>The totals in the words of the specification\<close>

text \<open>
  The two totals as the specification words them, over the profits of the closed trades
  and in exact arithmetic: the win rate is \<open>wins / closedCount \<times> 100\<close> rounded to two
  decimals; the expectancy is \<open>avgWin \<times> winRateFraction - avgLoss \<times> (1 - winRateFraction)\<close>
  rounded to two decimals, with \<open>winRateFraction\<close> the win rate over 100.
\<close>

definition specWinRate :: "rat list \<Rightarrow> rat" where
  "specWinRate pnls =
     (if length pnls = 0 then 0
      else toFixed2 (of_nat (length (filter (\<lambda>p. 0 < p) pnls)) / of_nat (length pnls) * 100))"

definition specExpectancy :: "rat list \<Rightarrow> rat" where
  "specExpectancy pnls =
     (let gains = filter (\<lambda>p. 0 < p) pnls;
          deficits = filter (\<lambda>p. p < 0) pnls;
          avgWin = (if gains = [] then 0 else sum_list gains / of_nat (length gains));
          avgLoss = (if deficits = [] then 0
                     else sum_list (map abs deficits) / of_nat (length deficits));
          winRateFraction = specWinRate pnls / 100
      in toFixed2 (avgWin * winRateFraction - avgLoss * (1 - winRateFraction)))"

section \<open>Rounding to doubles\<close>

lemma bitLength_pos: "0 < n \<Longrightarrow> 0 < bitLength n"
  by (subst bitLength.simps) simp

lemma bitLength_bounds:
  "0 < n \<Longrightarrow> 2 ^ (bitLength n - 1) \<le> n \<and> n < 2 ^ bitLength n"
proof (induction n rule: bitLength.induct)
  case (1 n)
  show ?case
  proof (cases "n = 1")
    case True
    have "bitLength 1 = 1"
      by (subst bitLength.simps, simp, subst bitLength.simps, simp)
    with True show ?thesis by simp
  next
    case False
    with 1(2) have pos: "0 < n div 2" by linarith
    from 1(1) [OF _ pos] 1(2)
    have ih: "2 ^ (bitLength (n div 2) - 1) \<le> n div 2" "n div 2 < 2 ^ bitLength (n div 2)"
      by simp_all
    have bl: "bitLength n = Suc (bitLength (n div 2))"
      using 1(2) by (subst bitLength.simps) simp
    obtain k where k: "bitLength (n div 2) = Suc k"
      using bitLength_pos [OF pos] by (cases "bitLength (n div 2)") simp_all
    have "2 * 2 ^ k \<le> 2 * (n div 2)" using ih(1) k by simp
    also have "\<dots> \<le> n" by linarith
    finally have lo: "(2::int) ^ (bitLength n - 1) \<le> n" by (simp add: bl k)
    have "n div 2 + 1 \<le> 2 ^ bitLength (n div 2)" using ih(2) by linarith
    then have "2 * (n div 2) + 2 \<le> 2 * 2 ^ bitLength (n div 2)" by linarith
    moreover have "n < 2 * (n div 2) + 2" by linarith
    ultimately have hi: "n < 2 ^ bitLength n" by (simp add: bl)
    from lo hi show ?thesis ..
  qed
qed

lemma pow2_pos: "0 < pow2 e"
  by (simp add: pow2_def)

lemma pow2_Suc: "pow2 (e + 1) = 2 * pow2 e"
proof (cases "0 \<le> e")
  case True
  then show ?thesis by (simp add: pow2_def nat_add_distrib)
next
  case False
  then obtain k where k: "nat (- e) = Suc k" by (cases "nat (- e)") simp_all
  with False have "nat (- (e + 1)) = k" by linarith
  moreover have "0 \<le> e + 1 \<longleftrightarrow> k = 0" using k False by linarith
  ultimately show ?thesis using False k by (auto simp: pow2_def)
qed

lemma pow2_add: "pow2 (a + b) = pow2 a * pow2 b"
proof -
  have nn: "pow2 (a + int n) = pow2 a * 2 ^ n" for a n
  proof (induction n)
    case 0
    show ?case by simp
  next
    case (Suc n)
    have "a + int (Suc n) = (a + int n) + 1" by simp
    then have "pow2 (a + int (Suc n)) = pow2 ((a + int n) + 1)" by (rule arg_cong)
    then show ?case by (simp only: pow2_Suc Suc) simp
  qed
  show ?thesis
  proof (cases "0 \<le> b")
    case True
    then have "pow2 (a + b) = pow2 a * 2 ^ nat b" using nn [of a "nat b"] by simp
    with True show ?thesis by (simp add: pow2_def)
  next
    case False
    have "pow2 a = pow2 ((a + b) + int (nat (- b)))" using False by simp
    also have "\<dots> = pow2 (a + b) * 2 ^ nat (- b)" by (rule nn)
    finally show ?thesis using False by (simp add: pow2_def)
  qed
qed

lemma floorLog2_bounds:
  assumes "0 < x"
  shows "pow2 (floorLog2 x) \<le> x \<and> x < 2 * pow2 (floorLog2 x)"
proof (cases "1 \<le> x")
  case True
  define n where "n = \<lfloor>x\<rfloor>"
  have n1: "1 \<le> n" unfolding n_def using True by linarith
  then have npos: "0 < n" by simp
  from bitLength_bounds [OF npos]
  have b: "2 ^ (bitLength n - 1) \<le> n" "n < 2 ^ bitLength n" by simp_all
  obtain k where k: "bitLength n = Suc k"
    using bitLength_pos [OF npos] by (cases "bitLength n") simp_all
  have e: "floorLog2 x = int k" using True by (simp add: floorLog2_def n_def [symmetric] k)
  have "(2::rat) ^ k = of_int (2 ^ k)" by simp
  also have "\<dots> \<le> of_int n" using b(1) k by (simp only: of_int_le_iff) simp
  also have "\<dots> \<le> x" unfolding n_def by linarith
  finally have lo: "pow2 (floorLog2 x) \<le> x" by (simp add: e pow2_def)
  have "n + 1 \<le> 2 ^ Suc k" using b(2) k by simp
  then have "(of_int (n + 1) :: rat) \<le> of_int (2 ^ Suc k)" by (simp only: of_int_le_iff)
  moreover have "x < of_int (n + 1)" unfolding n_def by linarith
  ultimately have "x < 2 * 2 ^ k" by simp
  then have hi: "x < 2 * pow2 (floorLog2 x)" by (simp add: e pow2_def)
  from lo hi show ?thesis ..
next
  case False
  define y where "y = 1 / x"
  have y1: "1 < y" using False assms by (simp add: y_def)
  define m where "m = \<lceil>y\<rceil> - 1"
  have mpos: "0 < m" unfolding m_def using y1 by linarith
  from bitLength_bounds [OF mpos]
  have b: "2 ^ (bitLength m - 1) \<le> m" "m < 2 ^ bitLength m" by simp_all
  obtain k where k: "bitLength m = Suc k"
    using bitLength_pos [OF mpos] by (cases "bitLength m") simp_all
  have e: "floorLog2 x = - int (Suc k)"
    using False by (simp add: floorLog2_def y_def [symmetric] m_def [symmetric] k)
  have "m + 1 \<le> 2 ^ Suc k" using b(2) k by simp
  then have "(of_int (m + 1) :: rat) \<le> of_int (2 ^ Suc k)" by (simp only: of_int_le_iff)
  moreover have "y \<le> of_int (m + 1)" unfolding m_def by simp
  ultimately have yle: "y \<le> 2 ^ Suc k" by simp
  have "(2::rat) ^ k = of_int (2 ^ k)" by simp
  also have "\<dots> \<le> of_int m" using b(1) k by (simp only: of_int_le_iff) simp
  also have "\<dots> < y" unfolding m_def by linarith
  finally have ylt: "2 ^ k < y" .
  have x: "x = 1 / y" using assms by (simp add: y_def)
  have ypos: "0 < y" using y1 by simp
  have lo: "1 / 2 ^ Suc k \<le> x"
    unfolding x using yle ypos by (simp add: field_simps)
  have hi: "x < 1 / 2 ^ k"
    unfolding x using ylt ypos by (simp add: field_simps)
  have "nat (- (- int (Suc k))) = Suc k" by simp
  then have p: "pow2 (floorLog2 x) = 1 / 2 ^ Suc k"
    unfolding e pow2_def by (simp only: ) simp
  show ?thesis using lo hi unfolding p by simp
qed

lemma roundHalfEven_near: "\<bar>of_int (roundHalfEven y) - y\<bar> \<le> 1 / 2"
proof -
  have "of_int \<lfloor>y\<rfloor> \<le> y" "y < of_int \<lfloor>y\<rfloor> + 1" by linarith+
  then show ?thesis
    unfolding roundHalfEven_def Let_def by (simp split: if_splits)
qed

lemma binary64_near: "\<bar>binary64 x - x\<bar> \<le> \<bar>x\<bar> / 2 ^ 53"
proof (cases "x = 0")
  case True
  then show ?thesis by (simp add: binary64_def)
next
  case False
  define e where "e = floorLog2 \<bar>x\<bar>"
  define ulp where "ulp = pow2 (e - 52)"
  have ax: "0 < \<bar>x\<bar>" using False by simp
  from floorLog2_bounds [OF ax] have lo: "pow2 e \<le> \<bar>x\<bar>" by (simp add: e_def)
  have up: "0 < ulp" unfolding ulp_def by (rule pow2_pos)
  have "pow2 e = pow2 ((e - 52) + 52)" by simp
  also have "\<dots> = ulp * 2 ^ 52" unfolding ulp_def pow2_add by (simp add: pow2_def)
  finally have pe: "pow2 e = ulp * 2 ^ 52" .
  have b: "binary64 x = of_int (roundHalfEven (x / ulp)) * ulp"
    using False by (simp add: binary64_def Let_def ulp_def e_def)
  have "binary64 x - x = (of_int (roundHalfEven (x / ulp)) - x / ulp) * ulp"
    unfolding b using up by (simp add: field_simps)
  then have "\<bar>binary64 x - x\<bar> = \<bar>of_int (roundHalfEven (x / ulp)) - x / ulp\<bar> * ulp"
    using up by (simp add: abs_mult)
  also have "\<dots> \<le> 1 / 2 * ulp"
    using roundHalfEven_near [of "x / ulp"] up by (intro mult_right_mono) simp_all
  also have "\<dots> = pow2 e / 2 ^ 53" unfolding pe by simp
  also have "\<dots> \<le> \<bar>x\<bar> / 2 ^ 53" using lo by (simp add: divide_right_mono)
  finally show ?thesis .
qed

lemma fdiv_near: "\<bar>fdiv a b - a / b\<bar> \<le> \<bar>a / b\<bar> / 2 ^ 53"
  unfolding fdiv_def by (rule binary64_near)

text \<open>Evaluation on numerals.\<close>

lemma floor_rat_numeral_div [simp]:
  "\<lfloor>numeral a / numeral b :: rat\<rfloor> = numeral a div numeral b"
  using floor_divide_of_int_eq [of "numeral a" "numeral b", where ?'a = rat] by simp

lemma floor_rat_one_div [simp]:
  "\<lfloor>1 / numeral b :: rat\<rfloor> = 1 div numeral b"
  using floor_divide_of_int_eq [of 1 "numeral b", where ?'a = rat] by simp

lemma floor_rat_neg_numeral_div [simp]:
  "\<lfloor>- (numeral a / numeral b) :: rat\<rfloor> = - numeral a div numeral b"
  using floor_divide_of_int_eq [of "- numeral a" "numeral b", where ?'a = rat] by simp

lemma ceiling_rat_numeral_div [simp]:
  "\<lceil>numeral a / numeral b :: rat\<rceil> = - (- numeral a div numeral b)"
  unfolding ceiling_def by simp

lemma bitLength_numeral [simp]:
  "bitLength (numeral k) = Suc (bitLength (numeral k div 2))"
  by (subst bitLength.simps) simp

lemma bitLength_one [simp]: "bitLength 1 = 1"
  by (subst bitLength.simps, simp, subst bitLength.simps, simp)

lemma bitLength_zero [simp]: "bitLength 0 = 0"
  by (subst bitLength.simps) simp

lemmas binary64_eval = binary64_def floorLog2_def pow2_def roundHalfEven_def Let_def
  fadd_def fsub_def fmul_def fdiv_def

lemma pow2_ge_one: "0 \<le> e \<Longrightarrow> 1 \<le> pow2 e"
  by (simp add: pow2_def)

lemma pow2_mono: "a \<le> b \<Longrightarrow> pow2 a \<le> pow2 b"
proof -
  assume "a \<le> b"
  then have "1 \<le> pow2 (b - a)" by (intro pow2_ge_one) simp
  then have "pow2 a * 1 \<le> pow2 a * pow2 (b - a)"
    using pow2_pos [of a] by (intro mult_left_mono) simp_all
  also have "\<dots> = pow2 (a + (b - a))" by (simp only: pow2_add)
  finally show ?thesis by simp
qed

lemma roundHalfEven_of_int [simp]: "roundHalfEven (of_int k) = k"
  by (simp add: roundHalfEven_def)

text \<open>A number with a significand of at most 53 bits is a double.\<close>

lemma binary64_representable:
  assumes "\<bar>m\<bar> < 2 ^ 53"
  shows "binary64 (of_int m * pow2 e) = of_int m * pow2 e"
proof (cases "m = 0")
  case True
  then show ?thesis by (simp add: binary64_def)
next
  case False
  define x where "x = of_int m * pow2 e"
  define k where "k = floorLog2 \<bar>x\<bar>"
  have xne: "x \<noteq> 0" using False pow2_pos [of e] by (simp add: x_def)
  then have ax: "0 < \<bar>x\<bar>" by simp
  have "\<bar>x\<bar> = of_int \<bar>m\<bar> * pow2 e"
    using pow2_pos [of e] by (simp add: x_def abs_mult)
  also have "\<dots> < of_int (2 ^ 53) * pow2 e"
    using assms pow2_pos [of e] by (intro mult_strict_right_mono) (simp_all only: of_int_less_iff)
  also have "\<dots> = pow2 (53 + e)"
    by (simp add: pow2_add) (simp add: pow2_def)
  finally have up: "\<bar>x\<bar> < pow2 (53 + e)" .
  have "pow2 k \<le> \<bar>x\<bar>" using floorLog2_bounds [OF ax] by (simp add: k_def)
  with up have "pow2 k < pow2 (53 + e)" by linarith
  then have "\<not> 53 + e \<le> k" using pow2_mono [of "53 + e" k] by linarith
  then have ke: "0 \<le> e - (k - 52)" by linarith
  have "pow2 e = pow2 ((e - (k - 52)) + (k - 52))" by simp
  also have "\<dots> = pow2 (e - (k - 52)) * pow2 (k - 52)" by (simp only: pow2_add)
  also have "pow2 (e - (k - 52)) = of_int (2 ^ nat (e - (k - 52)))"
    using ke by (simp add: pow2_def)
  finally have pe: "pow2 e = of_int (2 ^ nat (e - (k - 52))) * pow2 (k - 52)" .
  have xj: "x = of_int (m * 2 ^ nat (e - (k - 52))) * pow2 (k - 52)"
    unfolding x_def by (subst pe) simp
  then have "x / pow2 (k - 52) = of_int (m * 2 ^ nat (e - (k - 52)))"
    using pow2_pos [of "k - 52"] by simp
  then have "roundHalfEven (x / pow2 (k - 52)) = m * 2 ^ nat (e - (k - 52))"
    by (simp only: roundHalfEven_of_int)
  then have "of_int (roundHalfEven (x / pow2 (k - 52))) * pow2 (k - 52) = x"
    using xj by simp
  then show ?thesis
    using xne by (simp add: binary64_def Let_def x_def [symmetric] k_def [symmetric])
qed

text \<open>
  \<^verbatim>\<open>daysBetween\<close> divides by the milliseconds of a day in doubles before
  \<^verbatim>\<open>Math.round\<close>; for two instants less than \<open>2\<^sup>5\<^sup>2\<close> milliseconds apart (some 140,000
  years) the rounded quotient gives the same number of days as the exact one.
\<close>

lemma daysBetween_quotient:
  assumes "0 \<le> d" "d < 2 ^ 52"
  shows "mathRound (fdiv (of_int d) (1000 * 60 * 60 * 24))
           = mathRound (of_int d / (1000 * 60 * 60 * 24))"
proof -
  define q :: rat where "q = of_int d / 86400000"
  define f where "f = fdiv (of_int d) 86400000"
  define k where "k = \<lfloor>q + 1 / 2\<rfloor>"
  have q0: "0 \<le> q" using assms(1) by (simp add: q_def)
  have fq: "\<bar>f - q\<bar> \<le> q / 2 ^ 53"
    using fdiv_near [of "of_int d" 86400000] q0 by (simp add: f_def q_def)
  have "(of_int d :: rat) < of_int (2 ^ 52)" using assms(2) by (simp only: of_int_less_iff)
  then have "q < 2 ^ 52 / 86400000" by (simp add: q_def divide_strict_right_mono)
  then have "q / 2 ^ 53 < (2 ^ 52 / 86400000) / 2 ^ 53" by (simp add: divide_strict_right_mono)
  also have "\<dots> = 1 / 172800000" by simp
  finally have small: "\<bar>f - q\<bar> < 1 / 172800000" using fq by linarith
  have k1: "of_int k \<le> q + 1 / 2" "q + 1 / 2 < of_int k + 1"
    unfolding k_def by linarith+
  have qm: "q + 1 / 2 = of_int (2 * d + 86400000) / 172800000"
    by (simp add: q_def field_simps)
  show ?thesis
  proof (cases "q + 1 / 2 = of_int k")
    case True
    then have "q = of_int (2 * k - 1) * pow2 (- 1)"
      by (simp add: pow2_def field_simps)
    moreover have "\<bar>2 * k - 1\<bar> < 2 ^ 53"
    proof -
      have "of_int k < (2 ^ 52 / 86400000 :: rat) + 1 / 2"
        using True \<open>q < 2 ^ 52 / 86400000\<close> by linarith
      also have "\<dots> < of_int (2 ^ 52)" by simp
      finally have "k < 2 ^ 52" by (simp only: of_int_less_iff)
      moreover have "0 \<le> of_int k - (1 / 2 :: rat)" using True q0 by linarith
      then have "(0 :: rat) < of_int k" by linarith
      then have "0 < k" by simp
      ultimately show ?thesis by simp
    qed
    ultimately have "binary64 q = q"
      using binary64_representable [of "2 * k - 1" "- 1"] by simp
    then have "f = q" by (simp add: f_def q_def fdiv_def)
    then have "mathRound f = mathRound q" by (rule arg_cong)
    then show ?thesis unfolding f_def q_def by simp
  next
    case False
    with k1 have lt: "of_int k < q + 1 / 2" by linarith
    have "of_int (k * 172800000) < (of_int (2 * d + 86400000) :: rat)"
      using lt unfolding qm by (simp add: field_simps)
    then have "k * 172800000 < 2 * d + 86400000" by (simp only: of_int_less_iff)
    then have "k * 172800000 + 1 \<le> 2 * d + 86400000" by linarith
    then have "(of_int (k * 172800000 + 1) :: rat) \<le> of_int (2 * d + 86400000)"
      by (simp only: of_int_le_iff)
    then have lo: "of_int k + 1 / 172800000 \<le> q + 1 / 2"
      unfolding qm by (simp add: field_simps)
    have "(of_int (2 * d + 86400000) :: rat) < of_int ((k + 1) * 172800000)"
      using k1(2) unfolding qm by (simp add: field_simps)
    then have "2 * d + 86400000 < (k + 1) * 172800000" by (simp only: of_int_less_iff)
    then have "2 * d + 86400000 \<le> (k + 1) * 172800000 - 1" by linarith
    then have "(of_int (2 * d + 86400000) :: rat) \<le> of_int ((k + 1) * 172800000 - 1)"
      by (simp only: of_int_le_iff)
    then have hi: "q + 1 / 2 \<le> of_int k + 1 - 1 / 172800000"
      unfolding qm by (simp add: field_simps)
    from lo hi small have "of_int k \<le> f + 1 / 2" "f + 1 / 2 < of_int k + 1"
      by linarith+
    then have "\<lfloor>f + 1 / 2\<rfloor> = k" by (simp only: floor_unique)
    then show ?thesis by (simp add: mathRound_def f_def q_def k_def)
  qed
qed

section \<open>Maps and the sort\<close>

lemma mapGet_mapSet:
  "mapGet (mapSet m k v) k' = (if k' = k then Some v else mapGet m k')"
  by (induction m) (auto simp: mapGet_def)

lemma keys_mapSet:
  "map fst (mapSet m k v) = (if k \<in> fst ` set m then map fst m else map fst m @ [k])"
  by (induction m) force+

lemma keys_set_mapSet: "fst ` set (mapSet m k v) = insert k (fst ` set m)"
proof -
  have "set (map fst (mapSet m k v))
          = set (if k \<in> fst ` set m then map fst m else map fst m @ [k])"
    by (simp only: keys_mapSet)
  also have "\<dots> = insert k (fst ` set m)"
    by auto
  finally show ?thesis by simp
qed

lemma distinct_keys_mapSet:
  "distinct (map fst m) \<Longrightarrow> distinct (map fst (mapSet m k v))"
  by (simp add: keys_mapSet)

lemma mapGet_Some_in: "mapGet m k = Some v \<Longrightarrow> (k, v) \<in> set m"
  by (simp add: mapGet_def map_of_SomeD)

lemma mapGet_distinct_in:
  "distinct (map fst m) \<Longrightarrow> (k, v) \<in> set m \<Longrightarrow> mapGet m k = Some v"
  by (simp add: mapGet_def)

lemma length_insertBy [simp]: "length (insertBy c x ys) = Suc (length ys)"
  by (induction ys) auto

lemma length_jsSort [simp]: "length (jsSort c xs) = length xs"
  by (induction xs) (auto simp: jsSort_def)

lemma jsSort_Cons: "jsSort c (x # xs) = insertBy c x (jsSort c xs)"
  by (simp add: jsSort_def)

lemma jsSort_Nil [simp]: "jsSort c [] = []"
  by (simp add: jsSort_def)



lemma set_insertBy [simp]: "set (insertBy c x ys) = insert x (set ys)"
  by (induction ys) auto

lemma set_jsSort [simp]: "set (jsSort c xs) = set xs"
  by (induction xs) (auto simp: jsSort_Cons)

lemma sum_list_insertBy:
  fixes f :: "'a \<Rightarrow> 'b::comm_monoid_add"
  shows "sum_list (map f (insertBy c x ys)) = f x + sum_list (map f ys)"
  by (induction ys) (auto simp: add.left_commute)

lemma sum_list_jsSort:
  fixes f :: "'a \<Rightarrow> 'b::comm_monoid_add"
  shows "sum_list (map f (jsSort c xs)) = sum_list (map f xs)"
  by (induction xs) (auto simp: jsSort_Cons sum_list_insertBy)

lemma distinct_map_insertBy:
  "distinct (map f (insertBy c x ys)) = (f x \<notin> f ` set ys \<and> distinct (map f ys))"
  by (induction ys) auto

lemma distinct_map_jsSort:
  "distinct (map f (jsSort c xs)) = distinct (map f xs)"
  by (induction xs) (auto simp: jsSort_Cons distinct_map_insertBy)



section \<open>The aggregation loop\<close>

lemma aggregateTrade_buckets:
  "holdingBuckets (aggregateTrade g st t)
     = mapSet (holdingBuckets st) (bucketHoldingPeriod (holdDaysOf g t))
         (countOrZero (holdingBuckets st) (bucketHoldingPeriod (holdDaysOf g t)) + 1)"
  by (simp add: aggregateTrade_def Let_def)

lemma aggregateTrade_strategyMap:
  "strategyMap (aggregateTrade g st t)
     = mapSet (strategyMap st) (classifyStrategy t)
         \<lparr>statTotal = statTotal (statsOrZero (strategyMap st) (classifyStrategy t)) + 1,
          statWins = statWins (statsOrZero (strategyMap st) (classifyStrategy t))
                     + (if tradePnl t > 0 then 1 else 0),
          statLosses = statLosses (statsOrZero (strategyMap st) (classifyStrategy t))
                     + (if tradePnl t < 0 then 1 else 0),
          statPnlSum = fadd (statPnlSum (statsOrZero (strategyMap st) (classifyStrategy t)))
                         (tradePnl t)\<rparr>"
proof (cases "mapGet (strategyMap st) (classifyStrategy t)")
  case None
  then show ?thesis by (simp add: aggregateTrade_def Let_def)
next
  case (Some c)
  then show ?thesis by (cases c) (simp add: aggregateTrade_def Let_def)
qed

lemma aggregateTrade_totals:
  "runningTotals (aggregateTrade g st t)
     = \<lparr>accWins = accWins (runningTotals st) + (if tradePnl t > 0 then 1 else 0),
        accLosses = accLosses (runningTotals st) + (if tradePnl t < 0 then 1 else 0),
        accPnlSum = fadd (accPnlSum (runningTotals st)) (tradePnl t),
        accPnlPctSum = fadd (accPnlPctSum (runningTotals st)) (pnlPctOf t),
        accHoldSum = fadd (accHoldSum (runningTotals st)) (of_int (holdDaysOf g t)),
        accWinPnlSum = (if tradePnl t > 0 then fadd (accWinPnlSum (runningTotals st)) (tradePnl t)
                        else accWinPnlSum (runningTotals st)),
        accLossPnlSum = (if tradePnl t < 0
                         then fadd (accLossPnlSum (runningTotals st)) \<bar>tradePnl t\<bar>
                         else accLossPnlSum (runningTotals st))\<rparr>"
  by (simp add: aggregateTrade_def Let_def)

lemma fold_buckets:
  "countOrZero (holdingBuckets (foldl (aggregateTrade g) st ts)) b
     = countOrZero (holdingBuckets st) b
       + length (filter (\<lambda>t. bucketHoldingPeriod (holdDaysOf g t) = b) ts)"
proof (induction ts arbitrary: st)
  case Nil
  show ?case by simp
next
  case (Cons t ts)
  show ?case
    by (simp add: Cons.IH aggregateTrade_buckets mapGet_mapSet)
qed

lemma fold_totals:
  "runningTotals (foldl (aggregateTrade g) st ts)
     = \<lparr>accWins = accWins (runningTotals st) + length (filter (\<lambda>t. tradePnl t > 0) ts),
        accLosses = accLosses (runningTotals st) + length (filter (\<lambda>t. tradePnl t < 0) ts),
        accPnlSum = foldl fadd (accPnlSum (runningTotals st)) (map tradePnl ts),
        accPnlPctSum = foldl fadd (accPnlPctSum (runningTotals st)) (map pnlPctOf ts),
        accHoldSum = foldl fadd (accHoldSum (runningTotals st))
                       (map (\<lambda>t. of_int (holdDaysOf g t)) ts),
        accWinPnlSum = foldl fadd (accWinPnlSum (runningTotals st))
                       (map tradePnl (filter (\<lambda>t. tradePnl t > 0) ts)),
        accLossPnlSum = foldl fadd (accLossPnlSum (runningTotals st))
                       (map (\<lambda>t. \<bar>tradePnl t\<bar>) (filter (\<lambda>t. tradePnl t < 0) ts))\<rparr>"
proof (induction ts arbitrary: st)
  case Nil
  show ?case by simp
next
  case (Cons t ts)
  show ?case
    by (simp add: Cons.IH aggregateTrade_totals)
qed

lemma fold_stats:
  "statsOrZero (strategyMap (foldl (aggregateTrade g) st ts)) k
     = \<lparr>statTotal = statTotal (statsOrZero (strategyMap st) k)
                     + length (filter (\<lambda>t. classifyStrategy t = k) ts),
        statWins = statWins (statsOrZero (strategyMap st) k)
                     + length (filter (\<lambda>t. classifyStrategy t = k \<and> tradePnl t > 0) ts),
        statLosses = statLosses (statsOrZero (strategyMap st) k)
                     + length (filter (\<lambda>t. classifyStrategy t = k \<and> tradePnl t < 0) ts),
        statPnlSum = foldl fadd (statPnlSum (statsOrZero (strategyMap st) k))
                       (map tradePnl (filter (\<lambda>t. classifyStrategy t = k) ts))\<rparr>"
proof (induction ts arbitrary: st)
  case Nil
  show ?case by (simp split: option.split)
next
  case (Cons t ts)
  show ?case
    by (simp add: Cons.IH aggregateTrade_strategyMap mapGet_mapSet)
qed

lemma fold_keys_set:
  "fst ` set (strategyMap (foldl (aggregateTrade g) st ts))
     = fst ` set (strategyMap st) \<union> classifyStrategy ` set ts"
proof (induction ts arbitrary: st)
  case Nil
  show ?case by simp
next
  case (Cons t ts)
  have "fst ` set (strategyMap (aggregateTrade g st t))
          = insert (classifyStrategy t) (fst ` set (strategyMap st))"
    unfolding aggregateTrade_strategyMap by (rule keys_set_mapSet)
  then show ?case
    by (simp add: Cons.IH)
qed

lemma fold_keys_distinct:
  "distinct (map fst (strategyMap st))
     \<Longrightarrow> distinct (map fst (strategyMap (foldl (aggregateTrade g) st ts)))"
proof (induction ts arbitrary: st)
  case Nil
  then show ?case by simp
next
  case (Cons t ts)
  have "distinct (map fst (strategyMap (aggregateTrade g st t)))"
    unfolding aggregateTrade_strategyMap by (rule distinct_keys_mapSet) (rule Cons.prems)
  then show ?case
    by (simp add: Cons.IH)
qed

section \<open>The fields of a snapshot\<close>

lemma initial_buckets: "countOrZero (holdingBuckets initialState) b = 0"
  by (simp add: initialState_def mapGet_def)

lemma initial_stats:
  "statsOrZero (strategyMap initialState) k
     = \<lparr>statTotal = 0, statWins = 0, statLosses = 0, statPnlSum = 0\<rparr>"
  by (simp add: initialState_def mapGet_def)

lemma initial_totals:
  "runningTotals initialState
     = \<lparr>accWins = 0, accLosses = 0, accPnlSum = 0, accPnlPctSum = 0,
        accHoldSum = 0, accWinPnlSum = 0, accLossPnlSum = 0\<rparr>"
  by (simp add: initialState_def)

lemma snapshot_holdingPeriods:
  "holdingPeriods (snapshotOfTrades g now trades)
     = map (\<lambda>b. \<lparr>bucket = b,
                  count = length (filter (\<lambda>t. bucketHoldingPeriod (holdDaysOf g t) = b)
                                    (filter isClosed trades))\<rparr>)
         bucketLabels"
  by (simp add: snapshotOfTrades_def Let_def fold_buckets initial_buckets)


lemma snapshot_strategyBreakdown:
  "strategyBreakdown (snapshotOfTrades g now trades)
     = jsSort compareByTotal
         (map toMetric (strategyMap (foldl (aggregateTrade g) initialState (filter isClosed trades))))"
  by (simp add: snapshotOfTrades_def Let_def)

lemma snapshot_closedTrades:
  "closedTrades (totals (snapshotOfTrades g now trades)) = length (filter isClosed trades)"
  by (simp add: snapshotOfTrades_def Let_def)

lemma snapshot_generatedAt: "generatedAt (snapshotOfTrades g now trades) = now"
  by (simp add: snapshotOfTrades_def Let_def)

lemma fold_totals_initial:
  "runningTotals (foldl (aggregateTrade g) initialState ts)
     = \<lparr>accWins = length (filter (\<lambda>t. tradePnl t > 0) ts),
        accLosses = length (filter (\<lambda>t. tradePnl t < 0) ts),
        accPnlSum = floatSum (map tradePnl ts),
        accPnlPctSum = floatSum (map pnlPctOf ts),
        accHoldSum = floatSum (map (\<lambda>t. of_int (holdDaysOf g t)) ts),
        accWinPnlSum = floatSum (map tradePnl (filter (\<lambda>t. tradePnl t > 0) ts)),
        accLossPnlSum = floatSum (map (\<lambda>t. \<bar>tradePnl t\<bar>) (filter (\<lambda>t. tradePnl t < 0) ts))\<rparr>"
  by (simp add: fold_totals initial_totals)

lemma snapshot_totals:
  "totals (snapshotOfTrades g now trades)
     = (let cl = filter isClosed trades;
            n = length cl;
            w = length (filter (\<lambda>t. tradePnl t > 0) cl);
            l = length (filter (\<lambda>t. tradePnl t < 0) cl);
            winRateF = (if n \<noteq> 0 then fdiv (of_nat w) (of_nat n) else 0);
            avgWin = (if w \<noteq> 0
                      then fdiv (floatSum (map tradePnl (filter (\<lambda>t. tradePnl t > 0) cl))) (of_nat w)
                      else 0);
            avgLoss = (if l \<noteq> 0
                       then fdiv (floatSum (map (\<lambda>t. \<bar>tradePnl t\<bar>)
                                                (filter (\<lambda>t. tradePnl t < 0) cl)))
                                 (of_nat l)
                       else 0)
        in \<lparr>winRate = toFixed2 (fmul winRateF 100),
            averagePnl = toFixed2 (if n \<noteq> 0 then fdiv (floatSum (map tradePnl cl)) (of_nat n) else 0),
            averagePnlPct = toFixed2 (if n \<noteq> 0
               then fdiv (floatSum (map pnlPctOf cl)) (of_nat n) else 0),
            expectancy = toFixed2 (fsub (fmul avgWin winRateF) (fmul avgLoss (fsub 1 winRateF))),
            averageHoldDays = toFixed2 (if n \<noteq> 0
               then fdiv (floatSum (map (\<lambda>t. of_int (holdDaysOf g t)) cl)) (of_nat n) else 0),
            closedTrades = n\<rparr>)"
  by (simp add: snapshotOfTrades_def Let_def fold_totals_initial initial_totals)

section \<open>Rounding to integers and to hundredths\<close>

lemma mathRound_near: "\<bar>of_int (mathRound x) - x\<bar> \<le> 1 / 2"
proof -
  have "of_int \<lfloor>x + 1 / 2\<rfloor> \<le> x + 1 / 2" "x + 1 / 2 < of_int \<lfloor>x + 1 / 2\<rfloor> + 1"
    by linarith+
  then show ?thesis
    unfolding mathRound_def by linarith
qed

lemma mathRound_of_int [simp]: "mathRound (of_int k) = k"
  unfolding mathRound_def by linarith

lemma mathRound_nonneg: "0 \<le> x \<Longrightarrow> 0 \<le> mathRound x"
  unfolding mathRound_def by linarith

lemma toFixed2_near: "\<bar>toFixed2 x - x\<bar> \<le> 1 / 200"
proof (cases "x < 0")
  case True
  have "of_int \<lfloor>(- x) * 100 + 1 / 2\<rfloor> \<le> (- x) * 100 + 1 / 2"
       "(- x) * 100 + 1 / 2 < of_int \<lfloor>(- x) * 100 + 1 / 2\<rfloor> + 1"
    by linarith+
  with True show ?thesis
    unfolding toFixed2_def by (simp add: field_simps abs_if)
next
  case False
  have "of_int \<lfloor>x * 100 + 1 / 2\<rfloor> \<le> x * 100 + 1 / 2"
       "x * 100 + 1 / 2 < of_int \<lfloor>x * 100 + 1 / 2\<rfloor> + 1"
    by linarith+
  with False show ?thesis
    unfolding toFixed2_def by (simp add: field_simps abs_if)
qed


lemma toFixed2_of_int [simp]: "toFixed2 (of_int k) = of_int k"
proof -
  have a: "\<lfloor>(of_int k :: rat) * 100 + 1 / 2\<rfloor> = k * 100"
    by linarith
  have b: "\<lfloor>- (of_int k :: rat) * 100 + 1 / 2\<rfloor> = - k * 100"
    by linarith
  show ?thesis
    unfolding toFixed2_def using a b by simp
qed

section \<open>Sums and quotients of doubles\<close>

lemma abs_sum_list_le: "\<bar>sum_list xs\<bar> \<le> sum_list (map abs xs)" for xs :: "rat list"
proof (induction xs)
  case Nil
  show ?case by simp
next
  case (Cons a xs)
  then show ?case by simp
qed

lemma sum_list_abs_nonneg: "0 \<le> sum_list (map abs xs)" for xs :: "rat list"
  by (induction xs) simp_all

lemma floatSum_snoc: "floatSum (xs @ [x]) = fadd (floatSum xs) x"
  by simp

lemma growth_ge_one: "1 \<le> (1 + 1 / 2 ^ 53 :: rat) ^ k"
  by (rule one_le_power) simp


lemma floatSum_error:
  "\<bar>floatSum xs - sum_list xs\<bar>
     \<le> ((1 + 1 / 2 ^ 53) ^ length xs - 1) * sum_list (map abs xs)"
proof (induction xs rule: rev_induct)
  case Nil
  show ?case by simp
next
  case (snoc x xs)
  define u :: rat where "u = 1 / 2 ^ 53"
  define c where "c = (1 + u) ^ length xs - 1"
  define A where "A = sum_list (map abs xs)"
  define s where "s = sum_list xs"
  define f where "f = floatSum xs"
  have u0: "0 \<le> u" by (simp add: u_def)
  have c0: "0 \<le> c" unfolding c_def u_def using growth_ge_one [of "length xs"] by simp
  have A0: "0 \<le> A" unfolding A_def by (rule sum_list_abs_nonneg)
  have sA: "\<bar>s\<bar> \<le> A" unfolding s_def A_def by (rule abs_sum_list_le)
  have ih: "\<bar>f - s\<bar> \<le> c * A"
    using snoc.IH by (simp add: f_def s_def c_def u_def A_def)
  have r: "\<bar>fadd f x - (f + x)\<bar> \<le> u * \<bar>f + x\<bar>"
    using binary64_near [of "f + x"] by (simp add: fadd_def u_def)
  have "\<bar>f + x\<bar> \<le> \<bar>f - s\<bar> + \<bar>s\<bar> + \<bar>x\<bar>" by linarith
  also have "\<dots> \<le> c * A + A + \<bar>x\<bar>" using ih sA by linarith
  finally have fx: "\<bar>f + x\<bar> \<le> c * A + A + \<bar>x\<bar>" .
  have "u * \<bar>f + x\<bar> \<le> u * (c * A + A + \<bar>x\<bar>)"
    using fx u0 by (rule mult_left_mono)
  with r have r': "\<bar>fadd f x - (f + x)\<bar> \<le> u * (c * A + A + \<bar>x\<bar>)" by linarith
  have "\<bar>fadd f x - (s + x)\<bar> \<le> \<bar>fadd f x - (f + x)\<bar> + \<bar>f - s\<bar>" by linarith
  also have "\<dots> \<le> u * (c * A + A + \<bar>x\<bar>) + c * A" using r' ih by linarith
  also have "\<dots> = ((1 + u) * c + u) * A + u * \<bar>x\<bar>" by (simp add: algebra_simps)
  also have "\<dots> \<le> ((1 + u) * c + u) * A + ((1 + u) * c + u) * \<bar>x\<bar>"
  proof -
    have "0 \<le> (1 + u) * c" using u0 c0 by simp
    then have "u \<le> (1 + u) * c + u" by simp
    then have "u * \<bar>x\<bar> \<le> ((1 + u) * c + u) * \<bar>x\<bar>" by (rule mult_right_mono) simp
    then show ?thesis by simp
  qed
  also have "\<dots> = ((1 + u) * c + u) * (A + \<bar>x\<bar>)" by (simp add: algebra_simps)
  also have "(1 + u) * c + u = (1 + u) ^ Suc (length xs) - 1"
    by (simp add: c_def algebra_simps)
  finally have "\<bar>fadd f x - (s + x)\<bar> \<le> ((1 + u) ^ Suc (length xs) - 1) * (A + \<bar>x\<bar>)" .
  then show ?case
    by (simp add: f_def s_def A_def u_def)
qed


lemma binary64_nonneg: "0 \<le> x \<Longrightarrow> 0 \<le> binary64 x"
proof -
  assume x: "0 \<le> x"
  have "x / 2 ^ 53 \<le> x" using x by (simp add: field_simps)
  moreover have "\<bar>binary64 x - x\<bar> \<le> x / 2 ^ 53"
    using binary64_near [of x] x by simp
  ultimately show ?thesis by linarith
qed

text \<open>The mean of a list of numbers computed in doubles (a loop of additions from 0,
  then a division by the count), against the exact mean.\<close>

lemma floatMean_error:
  fixes xs :: "rat list"
  assumes "xs \<noteq> []"
  shows "\<bar>fdiv (floatSum xs) (of_nat (length xs)) - sum_list xs / of_nat (length xs)\<bar>
           \<le> ((1 + 1 / 2 ^ 53) ^ Suc (length xs) - 1)
              * (sum_list (map abs xs) / of_nat (length xs))"
proof -
  define u :: rat where "u = 1 / 2 ^ 53"
  define n :: rat where "n = of_nat (length xs)"
  define f where "f = floatSum xs"
  define S where "S = sum_list xs"
  define A where "A = sum_list (map abs xs)"
  define c where "c = (1 + u) ^ length xs - 1"
  have npos: "0 < n" using assms by (simp add: n_def)
  have u0: "0 \<le> u" by (simp add: u_def)
  have fS: "\<bar>f - S\<bar> \<le> c * A"
    using floatSum_error [of xs] by (simp add: f_def S_def c_def u_def A_def)
  have SA: "\<bar>S\<bar> \<le> A" unfolding S_def A_def by (rule abs_sum_list_le)
  have fA: "\<bar>f\<bar> \<le> (1 + c) * A"
  proof -
    have "\<bar>f\<bar> \<le> \<bar>f - S\<bar> + \<bar>S\<bar>" by linarith
    also have "\<dots> \<le> c * A + A" using fS SA by linarith
    finally show ?thesis by (simp add: algebra_simps)
  qed
  have "\<bar>fdiv f n - f / n\<bar> \<le> u * (\<bar>f\<bar> / n)"
    using fdiv_near [of f n] npos by (simp add: u_def)
  also have "\<dots> \<le> u * ((1 + c) * A / n)"
    using fA u0 npos by (intro mult_left_mono divide_right_mono) simp_all
  finally have q: "\<bar>fdiv f n - f / n\<bar> \<le> u * ((1 + c) * A / n)" .
  have "\<bar>f / n - S / n\<bar> = \<bar>f - S\<bar> / n"
    using npos by (simp add: diff_divide_distrib [symmetric])
  also have "\<dots> \<le> c * A / n"
    using fS npos by (intro divide_right_mono) simp_all
  finally have d: "\<bar>f / n - S / n\<bar> \<le> c * A / n" .
  have "\<bar>fdiv f n - S / n\<bar> \<le> u * ((1 + c) * A / n) + c * A / n"
    using q d by linarith
  moreover have "u * ((1 + c) * A / n) + c * A / n = ((1 + u) ^ Suc (length xs) - 1) * (A / n)"
    by (simp add: c_def algebra_simps add_divide_distrib diff_divide_distrib)
  ultimately have "\<bar>fdiv f n - S / n\<bar> \<le> ((1 + u) ^ Suc (length xs) - 1) * (A / n)"
    by linarith
  then show ?thesis
    unfolding f_def n_def S_def A_def u_def .
qed


text \<open>How an error bound relative to a magnitude \<open>Z\<close> passes through a rounding and
  through a product.\<close>

lemma round_error:
  assumes "\<bar>x - y\<bar> \<le> g * Z" "\<bar>y\<bar> \<le> Z" "0 \<le> g"
  shows "\<bar>binary64 x - y\<bar> \<le> ((1 + g) * (1 + 1 / 2 ^ 53) - 1) * Z"
proof -
  define u :: rat where "u = 1 / 2 ^ 53"
  have u0: "0 \<le> u" by (simp add: u_def)
  have "\<bar>x\<bar> \<le> \<bar>x - y\<bar> + \<bar>y\<bar>" by linarith
  also have "\<dots> \<le> g * Z + Z" using assms by linarith
  finally have x: "\<bar>x\<bar> \<le> (1 + g) * Z" by (simp add: algebra_simps)
  have "\<bar>binary64 x - x\<bar> \<le> u * \<bar>x\<bar>"
    using binary64_near [of x] by (simp add: u_def)
  also have "\<dots> \<le> u * ((1 + g) * Z)"
    using x u0 by (rule mult_left_mono)
  finally have "\<bar>binary64 x - x\<bar> \<le> u * ((1 + g) * Z)" .
  with assms(1) have "\<bar>binary64 x - y\<bar> \<le> u * ((1 + g) * Z) + g * Z" by linarith
  moreover have "u * ((1 + g) * Z) + g * Z = ((1 + g) * (1 + u) - 1) * Z"
    by (simp add: algebra_simps)
  ultimately show ?thesis unfolding u_def by linarith
qed

lemma product_error:
  fixes x x' y y' g h X Y :: rat
  assumes "\<bar>x - x'\<bar> \<le> g * X" "\<bar>x'\<bar> \<le> X" "\<bar>y - y'\<bar> \<le> h * Y" "\<bar>y'\<bar> \<le> Y"
    and "0 \<le> g" "0 \<le> h"
  shows "\<bar>x * y - x' * y'\<bar> \<le> ((1 + g) * (1 + h) - 1) * (X * Y)"
    and "\<bar>x' * y'\<bar> \<le> X * Y"
proof -
  have X0: "0 \<le> X" using assms(2) by linarith
  have Y0: "0 \<le> Y" using assms(4) by linarith
  have "\<bar>y\<bar> \<le> \<bar>y - y'\<bar> + \<bar>y'\<bar>" by linarith
  also have "\<dots> \<le> h * Y + Y" using assms by linarith
  finally have y: "\<bar>y\<bar> \<le> (1 + h) * Y" by (simp add: algebra_simps)
  have gX: "0 \<le> g * X" using assms(5) X0 by simp
  have "x * y - x' * y' = (x - x') * y + x' * (y - y')" by (simp add: algebra_simps)
  then have "\<bar>x * y - x' * y'\<bar> \<le> \<bar>x - x'\<bar> * \<bar>y\<bar> + \<bar>x'\<bar> * \<bar>y - y'\<bar>"
    by (simp add: abs_mult [symmetric]) 
  also have "\<bar>x - x'\<bar> * \<bar>y\<bar> \<le> (g * X) * ((1 + h) * Y)"
    using assms(1) y gX by (intro mult_mono) simp_all
  also have "\<bar>x'\<bar> * \<bar>y - y'\<bar> \<le> X * (h * Y)"
    using assms(2,3) X0 by (intro mult_mono) simp_all
  finally have "\<bar>x * y - x' * y'\<bar> \<le> (g * X) * ((1 + h) * Y) + X * (h * Y)"
    by simp
  moreover have "(g * X) * ((1 + h) * Y) + X * (h * Y) = ((1 + g) * (1 + h) - 1) * (X * Y)"
    by (simp add: algebra_simps)
  ultimately show "\<bar>x * y - x' * y'\<bar> \<le> ((1 + g) * (1 + h) - 1) * (X * Y)" by linarith
  show "\<bar>x' * y'\<bar> \<le> X * Y"
    unfolding abs_mult using assms(2,4) by (intro mult_mono) simp_all
qed


text \<open>The expectancy computed in doubles from a mean gain \<open>a\<close>, a mean loss \<open>b\<close> and
  a win fraction \<open>f\<close> that carry errors of their own, against the exact expression.\<close>

lemma expectancy_error:
  fixes a a' b b' f f' :: rat
  assumes a: "\<bar>a - a'\<bar> \<le> ((1 + 1 / 2 ^ 53) ^ m - 1) * a'" "0 \<le> a'"
    and b: "\<bar>b - b'\<bar> \<le> ((1 + 1 / 2 ^ 53) ^ m - 1) * b'" "0 \<le> b'"
    and f: "\<bar>f - f'\<bar> \<le> 1 / 2 ^ 53 * f'" "0 \<le> f'" "f' \<le> 1"
  shows "\<bar>fsub (fmul a f) (fmul b (fsub 1 f)) - (a' * f' - b' * (1 - f'))\<bar>
           \<le> ((1 + 1 / 2 ^ 53) ^ (m + 4) - 1) * (a' + b')"
proof -
  define v :: rat where "v = 1 + 1 / 2 ^ 53"
  define G where "G = v ^ m"
  have v1: "1 \<le> v" by (simp add: v_def)
  have v0: "0 \<le> v - 1" using v1 by simp
  have G1: "1 \<le> G" unfolding G_def using v1 by (rule one_le_power)
  have G0: "0 \<le> G - 1" using G1 by simp
  have R: "\<bar>binary64 x - y\<bar> \<le> ((1 + g) * v - 1) * Z"
    if "\<bar>x - y\<bar> \<le> g * Z" "\<bar>y\<bar> \<le> Z" "0 \<le> g" for x y g Z
    unfolding v_def using that by (rule round_error)
  have fa: "\<bar>f - f'\<bar> \<le> (v - 1) * 1" "\<bar>f'\<bar> \<le> 1"
    using f by (simp_all add: v_def mult_left_le)
  have aa: "\<bar>a - a'\<bar> \<le> (G - 1) * a'" "\<bar>a'\<bar> \<le> a'"
    using a by (simp_all add: G_def v_def)
  have ba: "\<bar>b - b'\<bar> \<le> (G - 1) * b'" "\<bar>b'\<bar> \<le> b'"
    using b by (simp_all add: G_def v_def)
  have "\<bar>a * f - a' * f'\<bar> \<le> ((1 + (G - 1)) * (1 + (v - 1)) - 1) * (a' * 1)"
    by (rule product_error(1) [OF aa fa G0 v0])
  then have p1: "\<bar>a * f - a' * f'\<bar> \<le> (G * v - 1) * a'" by simp
  have p1m: "\<bar>a' * f'\<bar> \<le> a'"
    using product_error(2) [OF aa fa G0 v0] by simp
  have gv: "0 \<le> G * v - 1"
    using G1 v1 mult_mono [of 1 G 1 v] by simp
  have "\<bar>fmul a f - a' * f'\<bar> \<le> ((1 + (G * v - 1)) * v - 1) * a'"
    unfolding fmul_def by (rule R [OF p1 p1m gv])
  then have q1: "\<bar>fmul a f - a' * f'\<bar> \<le> (G * v ^ 2 - 1) * a'"
    by (simp add: power2_eq_square algebra_simps)
  have c1: "\<bar>(1 - f) - (1 - f')\<bar> \<le> (v - 1) * 1"
    using fa(1) by linarith
  have c2: "\<bar>1 - f'\<bar> \<le> 1"
    using f(2,3) by linarith
  have "\<bar>fsub 1 f - (1 - f')\<bar> \<le> ((1 + (v - 1)) * v - 1) * 1"
    unfolding fsub_def by (rule R [OF c1 c2 v0])
  then have "\<bar>fsub 1 f - (1 - f')\<bar> \<le> (v ^ 2 - 1) * 1"
    by (simp add: power2_eq_square)
  note t = this c2
  have vv: "0 \<le> v ^ 2 - 1"
    using one_le_power [OF v1, of 2] by simp
  have "\<bar>b * fsub 1 f - b' * (1 - f')\<bar> \<le> ((1 + (G - 1)) * (1 + (v ^ 2 - 1)) - 1) * (b' * 1)"
    by (rule product_error(1) [OF ba t G0 vv])
  then have p2: "\<bar>b * fsub 1 f - b' * (1 - f')\<bar> \<le> (G * v ^ 2 - 1) * b'" by simp
  have p2m: "\<bar>b' * (1 - f')\<bar> \<le> b'"
    using product_error(2) [OF ba t G0 vv] by simp
  have gvv: "0 \<le> G * v ^ 2 - 1"
    using G1 one_le_power [OF v1, of 2] mult_mono [of 1 G 1 "v ^ 2"] by simp
  have "\<bar>fmul b (fsub 1 f) - b' * (1 - f')\<bar> \<le> ((1 + (G * v ^ 2 - 1)) * v - 1) * b'"
    unfolding fmul_def by (rule R [OF p2 p2m gvv])
  then have q2: "\<bar>fmul b (fsub 1 f) - b' * (1 - f')\<bar> \<le> (G * v ^ 3 - 1) * b'"
    by (simp add: power3_eq_cube power2_eq_square algebra_simps)
  have "G * v ^ 2 \<le> G * v ^ 3"
    using G1 v1 by (intro mult_left_mono power_increasing) simp_all
  then have "(G * v ^ 2 - 1) * a' \<le> (G * v ^ 3 - 1) * a'"
    using a(2) by (intro mult_right_mono) simp_all
  with q1 have q1': "\<bar>fmul a f - a' * f'\<bar> \<le> (G * v ^ 3 - 1) * a'" by linarith
  have "\<bar>(fmul a f - fmul b (fsub 1 f)) - (a' * f' - b' * (1 - f'))\<bar>
      \<le> \<bar>fmul a f - a' * f'\<bar> + \<bar>fmul b (fsub 1 f) - b' * (1 - f')\<bar>"
    by linarith
  also have "\<dots> \<le> (G * v ^ 3 - 1) * a' + (G * v ^ 3 - 1) * b'"
    using q1' q2 by linarith
  finally have d: "\<bar>(fmul a f - fmul b (fsub 1 f)) - (a' * f' - b' * (1 - f'))\<bar>
      \<le> (G * v ^ 3 - 1) * (a' + b')"
    by (simp add: algebra_simps)
  have dm: "\<bar>a' * f' - b' * (1 - f')\<bar> \<le> a' + b'"
    using p1m p2m by linarith
  have gv3: "0 \<le> G * v ^ 3 - 1"
    using G1 one_le_power [OF v1, of 3] mult_mono [of 1 G 1 "v ^ 3"] by simp
  have "\<bar>fsub (fmul a f) (fmul b (fsub 1 f)) - (a' * f' - b' * (1 - f'))\<bar>
      \<le> ((1 + (G * v ^ 3 - 1)) * v - 1) * (a' + b')"
    unfolding fsub_def [of "fmul a f"] by (rule R [OF d dm gv3])
  moreover have "(1 + (G * v ^ 3 - 1)) * v - 1 = v ^ (m + 4) - 1"
    by (simp add: G_def power_add power3_eq_cube power4_eq_xxxx algebra_simps)
  ultimately show ?thesis
    unfolding v_def by simp
qed

section \<open>Evaluating the concrete date reader\<close>

lemma isoDateTime_examples:
  "isoDateTime ''2024-01-01'' = Some 1704067200000"
  "isoDateTime ''2024-01-10'' = Some (1704067200000 + 9 * 86400000)"
  "isoDateTime ''2024-01-05'' = Some (1704067200000 + 4 * 86400000)"
  "isoDateTime ''2024-03-15'' = Some (1704067200000 + 74 * 86400000)"
  "isoDateTime ''not a date'' = None"
  by (simp_all add: isoDateTime_def digitValue_def daysInMonth_def daysFromCivil_def)


section \<open>The snapshot store\<close>

lemma newer_irrefl: "\<not> newer r r"
  by (simp add: newer_def)

lemma newer_trans: "newer a b \<Longrightarrow> newer b c \<Longrightarrow> newer a c"
  unfolding newer_def by linarith

lemma not_newer_trans: "\<not> newer a b \<Longrightarrow> \<not> newer b c \<Longrightarrow> \<not> newer a c"
  unfolding newer_def by linarith

lemma latestRow_None: "(latestRow best rs = None) = (best = None \<and> rs = [])"
proof (induction rs arbitrary: best)
  case Nil
  show ?case by simp
next
  case (Cons r rs)
  show ?case
  proof (cases best)
    case None
    then show ?thesis by (simp add: Cons.IH)
  next
    case (Some b)
    then show ?thesis by (cases "newer r b") (simp_all add: Cons.IH)
  qed
qed

lemma latestRow_Some:
  "latestRow best rs = Some ex \<Longrightarrow>
     (ex \<in> set rs \<or> best = Some ex)
     \<and> (\<forall>r\<in>set rs. \<not> newer r ex)
     \<and> (\<forall>b. best = Some b \<longrightarrow> \<not> newer b ex)"
proof (induction rs arbitrary: best)
  case Nil
  then show ?case by (simp add: newer_irrefl)
next
  case (Cons r rs)
  show ?case
  proof (cases best)
    case None
    with Cons.prems have "latestRow (Some r) rs = Some ex" by simp
    from Cons.IH [OF this] have
      "ex \<in> set rs \<or> r = ex" "\<forall>r'\<in>set rs. \<not> newer r' ex" "\<not> newer r ex"
      by simp_all
    with None show ?thesis by auto
  next
    case (Some b)
    show ?thesis
    proof (cases "newer r b")
      case True
      with Some Cons.prems have "latestRow (Some r) rs = Some ex" by simp
      from Cons.IH [OF this] have ih:
        "ex \<in> set rs \<or> r = ex" "\<forall>r'\<in>set rs. \<not> newer r' ex" "\<not> newer r ex"
        by simp_all
      have "\<not> newer b ex"
        using True ih(3) newer_trans by blast
      with ih Some show ?thesis by auto
    next
      case False
      with Some Cons.prems have "latestRow (Some b) rs = Some ex" by simp
      from Cons.IH [OF this] have ih:
        "ex \<in> set rs \<or> b = ex" "\<forall>r'\<in>set rs. \<not> newer r' ex" "\<not> newer b ex"
        by simp_all
      have "\<not> newer r ex"
        using False ih(3) by (rule not_newer_trans)
      with ih Some show ?thesis by auto
    qed
  qed
qed

lemma getLatest_rejected:
  "rejects db (SelectLatestSummary uid lbl) \<Longrightarrow>
     getLatestAnalyticsSnapshot db uid lbl = Inl (QueryRejected (SelectLatestSummary uid lbl))"
  by (simp add: getLatestAnalyticsSnapshot_def)

lemma getLatest_None:
  "getLatestAnalyticsSnapshot db uid lbl = Inr None \<Longrightarrow>
     \<not> rejects db (SelectLatestSummary uid lbl)
     \<and> (\<forall>r\<in>set (analytics_summaries db). \<not> (storedUserId r = uid \<and> label r = lbl))"
  by (auto simp: getLatestAnalyticsSnapshot_def latestRow_None filter_empty_conv
      split: if_splits)

lemma getLatest_Some:
  assumes "getLatestAnalyticsSnapshot db uid lbl = Inr (Some ex)"
  shows "\<not> rejects db (SelectLatestSummary uid lbl)
     \<and> ex \<in> set (analytics_summaries db) \<and> storedUserId ex = uid \<and> label ex = lbl
     \<and> (\<forall>r\<in>set (analytics_summaries db).
           storedUserId r = uid \<and> label r = lbl \<longrightarrow> \<not> newer r ex)"
proof -
  from assms have nr: "\<not> rejects db (SelectLatestSummary uid lbl)"
    and l: "latestRow None
        (filter (\<lambda>r. storedUserId r = uid \<and> label r = lbl) (analytics_summaries db)) = Some ex"
    by (auto simp: getLatestAnalyticsSnapshot_def split: if_splits)
  from latestRow_Some [OF l] nr show ?thesis by auto
qed

lemma upsert_rejected:
  "rejects db (UpsertSummary uid lbl day) \<Longrightarrow>
     upsertAnalyticsSnapshot now db uid snap lbl day
       = (Inl (QueryRejected (UpsertSummary uid lbl day)), db)"
  by (simp add: upsertAnalyticsSnapshot_def)

lemma upsert_overwrite:
  "sameKey uid lbl day r \<Longrightarrow>
     r\<lparr>snapshot := snap, calculatedAt := now\<rparr>
       = \<lparr>storedUserId = uid, label = lbl, reportDate = day, calculatedAt = now, snapshot = snap\<rparr>"
  by (cases r) (simp add: sameKey_def)

lemma upsert_ok:
  fixes now snap
  assumes "\<not> rejects db (UpsertSummary uid lbl day)"
  defines "row \<equiv> \<lparr>storedUserId = uid, label = lbl, reportDate = day,
                    calculatedAt = now, snapshot = snap\<rparr>"
  defines "res \<equiv> upsertAnalyticsSnapshot now db uid snap lbl day"
  shows "fst res = Inr row"
    and "row \<in> set (analytics_summaries (snd res))"
    and "\<forall>r\<in>set (analytics_summaries (snd res)). sameKey uid lbl day r \<longrightarrow> r = row"
    and "filter (\<lambda>r. \<not> sameKey uid lbl day r) (analytics_summaries (snd res))
           = filter (\<lambda>r. \<not> sameKey uid lbl day r) (analytics_summaries db)"
    and "users (snd res) = users db"
    and "tradeRows (snd res) = tradeRows db"
    and "rejects (snd res) = rejects db"
proof -
  let ?rows = "analytics_summaries db"
  let ?rows' = "if list_ex (sameKey uid lbl day) ?rows
                then map (\<lambda>r. if sameKey uid lbl day r
                               then r\<lparr>snapshot := snap, calculatedAt := now\<rparr> else r) ?rows
                else ?rows @ [row]"
  have res: "res = (Inr row, db\<lparr>analytics_summaries := ?rows'\<rparr>)"
    using assms(1) by (simp add: res_def row_def upsertAnalyticsSnapshot_def Let_def)
  have k: "sameKey uid lbl day row"
    by (simp add: sameKey_def row_def)
  have m: "map (\<lambda>r. if sameKey uid lbl day r
                     then r\<lparr>snapshot := snap, calculatedAt := now\<rparr> else r) ?rows
         = map (\<lambda>r. if sameKey uid lbl day r then row else r) ?rows"
    by (rule map_cong) (simp_all add: upsert_overwrite row_def)
  show "fst res = Inr row" by (simp add: res)
  show "row \<in> set (analytics_summaries (snd res))"
    unfolding res by (auto simp: m list_ex_iff)
  show "\<forall>r\<in>set (analytics_summaries (snd res)). sameKey uid lbl day r \<longrightarrow> r = row"
    unfolding res by (auto simp: m list_ex_iff k)
  show "filter (\<lambda>r. \<not> sameKey uid lbl day r) (analytics_summaries (snd res))
           = filter (\<lambda>r. \<not> sameKey uid lbl day r) (analytics_summaries db)"
  proof -
    have "filter (\<lambda>r. \<not> sameKey uid lbl day r)
            (map (\<lambda>r. if sameKey uid lbl day r then row else r) rs)
          = filter (\<lambda>r. \<not> sameKey uid lbl day r) rs" for rs
      by (induction rs) (simp_all add: k)
    then show ?thesis
      unfolding res by (simp add: m k)
  qed
  show "users (snd res) = users db" by (simp add: res)
  show "tradeRows (snd res) = tradeRows db" by (simp add: res)
  show "rejects (snd res) = rejects db" by (simp add: res)
qed

section \<open>Recomputation\<close>

lemma calculate_ok:
  "\<not> rejects db (SelectTrades uid) \<Longrightarrow>
     calculateAnalyticsSnapshot g now db uid = Inr (snapshotOfTrades g now (tradeRows db uid))"
  by (simp add: calculateAnalyticsSnapshot_def listTrades_def)

lemma calculate_rejected:
  "rejects db (SelectTrades uid) \<Longrightarrow>
     calculateAnalyticsSnapshot g now db uid = Inl (QueryRejected (SelectTrades uid))"
  by (simp add: calculateAnalyticsSnapshot_def listTrades_def)

lemma recalculate_ok:
  assumes "\<not> rejects db (SelectTrades uid)"
      and "\<not> rejects db (UpsertSummary uid DEFAULT_LABEL (dateOfInstant now))"
  shows "recalculate g now db uid
     = (Inr \<lparr>data = snapshotOfTrades g now (tradeRows db uid),
             responseReportDate = dateOfInstant now,
             responseCalculatedAt = now,
             refreshed = True\<rparr>,
        snd (upsertAnalyticsSnapshot now db uid (snapshotOfTrades g now (tradeRows db uid))
               DEFAULT_LABEL (dateOfInstant now)))"
proof -
  obtain r d where u: "upsertAnalyticsSnapshot now db uid
      (snapshotOfTrades g now (tradeRows db uid)) DEFAULT_LABEL (dateOfInstant now) = (r, d)"
    by (cases "upsertAnalyticsSnapshot now db uid
      (snapshotOfTrades g now (tradeRows db uid)) DEFAULT_LABEL (dateOfInstant now)")
  from upsert_ok(1) [OF assms(2), of now "snapshotOfTrades g now (tradeRows db uid)"] u
  have r: "r = Inr \<lparr>storedUserId = uid, label = DEFAULT_LABEL, reportDate = dateOfInstant now,
                    calculatedAt = now, snapshot = snapshotOfTrades g now (tradeRows db uid)\<rparr>"
    by simp
  show ?thesis
    by (simp add: recalculate_def calculate_ok [OF assms(1)] u r)
qed

lemma recalculate_failed:
  assumes "rejects db (SelectTrades uid)
           \<or> rejects db (UpsertSummary uid DEFAULT_LABEL (dateOfInstant now))"
  shows "\<exists>e. recalculate g now db uid = (Inl e, db)"
proof (cases "rejects db (SelectTrades uid)")
  case True
  then show ?thesis by (simp add: recalculate_def calculate_rejected)
next
  case False
  with assms have "rejects db (UpsertSummary uid DEFAULT_LABEL (dateOfInstant now))" by simp
  then show ?thesis
    by (simp add: recalculate_def calculate_ok [OF False] upsert_rejected)
qed

lemma recalculate_Inr:
  assumes "recalculate g now db uid = (Inr resp, db')"
  shows "\<not> rejects db (SelectTrades uid)
       \<and> \<not> rejects db (UpsertSummary uid DEFAULT_LABEL (dateOfInstant now))"
  using assms recalculate_failed [of db uid now g] by auto

lemma recalculate_Inr_data:
  assumes "recalculate g now db uid = (Inr resp, db')"
  shows "data resp = snapshotOfTrades g now (tradeRows db uid)"
    and "tradeRows db' = tradeRows db"
    and "rejects db' = rejects db"
    and "users db' = users db"
proof -
  from recalculate_Inr [OF assms] have ok:
    "\<not> rejects db (SelectTrades uid)"
    "\<not> rejects db (UpsertSummary uid DEFAULT_LABEL (dateOfInstant now))"
    by simp_all
  note eq = recalculate_ok [OF ok, of g]
  note u = upsert_ok [OF ok(2), of now "snapshotOfTrades g now (tradeRows db uid)"]
  from eq assms have r: "resp = \<lparr>data = snapshotOfTrades g now (tradeRows db uid),
             responseReportDate = dateOfInstant now,
             responseCalculatedAt = now,
             refreshed = True\<rparr>"
    and d: "db' = snd (upsertAnalyticsSnapshot now db uid
               (snapshotOfTrades g now (tradeRows db uid)) DEFAULT_LABEL (dateOfInstant now))"
    by simp_all
  show "data resp = snapshotOfTrades g now (tradeRows db uid)" by (simp add: r)
  show "tradeRows db' = tradeRows db" unfolding d by (rule u(6))
  show "rejects db' = rejects db" unfolding d by (rule u(7))
  show "users db' = users db" unfolding d by (rule u(5))
qed

section \<open>The summary route\<close>

lemma getSummary_fresh:
  assumes "getLatestAnalyticsSnapshot db uid DEFAULT_LABEL = Inr (Some ex)"
      and "now - calculatedAt ex \<le> ONE_DAY_MS"
  shows "getSummary g now db uid
     = (Inr \<lparr>data = snapshot ex, responseReportDate = reportDate ex,
             responseCalculatedAt = calculatedAt ex, refreshed = False\<rparr>, db)"
  using assms by (simp add: getSummary_def)

lemma getSummary_stale:
  assumes "getLatestAnalyticsSnapshot db uid DEFAULT_LABEL = Inr (Some ex)"
      and "now - calculatedAt ex > ONE_DAY_MS"
  shows "getSummary g now db uid = recalculate g now db uid"
  using assms by (simp add: getSummary_def)

lemma getSummary_absent:
  assumes "getLatestAnalyticsSnapshot db uid DEFAULT_LABEL = Inr None"
  shows "getSummary g now db uid = recalculate g now db uid"
  using assms by (simp add: getSummary_def)

lemma getSummary_recompute:
  assumes "getLatestAnalyticsSnapshot db uid DEFAULT_LABEL = Inr None
           \<or> (\<exists>ex. getLatestAnalyticsSnapshot db uid DEFAULT_LABEL = Inr (Some ex)
                    \<and> now - calculatedAt ex > ONE_DAY_MS)"
  shows "getSummary g now db uid = recalculate g now db uid"
  using assms getSummary_stale getSummary_absent by blast


section \<open>Evaluating the sample history\<close>

lemma sampleHistory_closed:
  "filter isClosed sampleHistory = [winTrade, lossTrade, lateLossTrade]"
  by (simp add: sampleHistory_def isClosed_def winTrade_def lossTrade_def lateLossTrade_def
      stillOpenTrade_def mkTrade_def)

lemma sample_dates:
  "closedOrOpened winTrade = ''2024-01-10''"
  "closedOrOpened lossTrade = ''2024-01-05''"
  "closedOrOpened lateLossTrade = ''2024-03-15''"
  by (simp_all add: closedOrOpened_def winTrade_def lossTrade_def lateLossTrade_def mkTrade_def)

lemma sample_pnls:
  "tradePnl winTrade = 300" "tradePnl lossTrade = - 300" "tradePnl lateLossTrade = - 300"
  by (simp_all add: tradePnl_def numberOrZero_def winTrade_def lossTrade_def lateLossTrade_def
      mkTrade_def)

lemma sampleDb_latest:
  "getLatestAnalyticsSnapshot sampleDb ''u1'' DEFAULT_LABEL = Inr (Some storedRow)"
  "getLatestAnalyticsSnapshot sampleDb ''u2'' DEFAULT_LABEL = Inr None"
  by (simp_all add: getLatestAnalyticsSnapshot_def sampleDb_def storedRow_def DEFAULT_LABEL_def)






lemma pair_pnls: "map tradePnl (filter isClosed [plus100, minus40]) = [100, - 40]"
  by (simp add: isClosed_def tradePnl_def numberOrZero_def plus100_def minus40_def mkTrade_def)

lemma sample_pnl_list: "map tradePnl (filter isClosed sampleHistory) = [300, - 300, - 300]"
  unfolding sampleHistory_closed by (simp add: sample_pnls)

lemma open_pnls: "map tradePnl (filter isClosed [stillOpenTrade]) = []"
  by (simp add: isClosed_def stillOpenTrade_def mkTrade_def)

lemma centPair_pnls:
  "map tradePnl (filter isClosed [creditCents, creditOne])
     = [4548635623644201 / 4503599627370496, 1]"
  by (simp add: isClosed_def tradePnl_def numberOrZero_def creditCents_def creditOne_def
      mkTrade_def binary64_eval)

lemma manyTrades_pnls:
  "map tradePnl (filter isClosed manyTrades) = replicate 23 100 @ replicate 137 (- 40)"
  by (simp add: manyTrades_def isClosed_def tradePnl_def numberOrZero_def plus100_def
      minus40_def mkTrade_def)

lemma manyTrades_counts:
  "length (replicate 23 (100 :: rat) @ replicate 137 (- 40)) = 160"
  "length (filter (\<lambda>p. 0 < p) (replicate 23 (100 :: rat) @ replicate 137 (- 40))) = 23"
  by simp_all


section \<open>Properties of the strategy classifier\<close>

lemma card_one_iff_all_eq:
  assumes "xs \<noteq> []"
  shows "(card (set xs) = 1) = (\<forall>x\<in>set xs. x = hd xs)"
proof
  assume "card (set xs) = 1"
  then obtain a where a: "set xs = {a}"
    by (auto simp: card_1_singleton_iff)
  from assms have "hd xs \<in> set xs" by simp
  then have "hd xs \<in> {a}" unfolding a .
  then have "hd xs = a" by simp
  then show "\<forall>x\<in>set xs. x = hd xs" unfolding a by simp
next
  assume all: "\<forall>x\<in>set xs. x = hd xs"
  from assms have "hd xs \<in> set xs" by simp
  with all have "set xs = {hd xs}" by blast
  then have "card (set xs) = card {hd xs}" by (rule arg_cong)
  then show "card (set xs) = 1" by simp
qed

lemma classify_zero: "legs t = [] \<Longrightarrow> classifyStrategy t = Other"
  by (simp add: classifyStrategy_def)

lemma classify_one: "legs t = [a] \<Longrightarrow> classifyStrategy t = Single"
  by (simp add: classifyStrategy_def)

lemma classify_two:
  "legs t = [a, b] \<Longrightarrow> classifyStrategy t =
     (if expiry a = expiry b \<and> legType a = legType b then VerticalSpread else Other)"
  by (simp add: classifyStrategy_def)

lemma classify_four:
  assumes len: "length (legs t) = 4"
  shows "classifyStrategy t =
     (if (\<forall>l\<in>set (legs t). expiry l = expiry (hd (legs t)))
         \<and> (\<exists>l\<in>set (legs t). position l = Long) \<and> (\<exists>l\<in>set (legs t). position l = Short)
         \<and> (\<exists>l\<in>set (legs t). legType l = Call) \<and> (\<exists>l\<in>set (legs t). legType l = Put)
      then IronCondor else Other)"
proof -
  from len have ne: "map expiry (legs t) \<noteq> []" by auto
  have hd_eq: "hd (map expiry (legs t)) = expiry (hd (legs t))"
    using ne by (simp add: hd_map)
  have c: "(card (set (map expiry (legs t))) = 1)
        = (\<forall>l\<in>set (legs t). expiry l = expiry (hd (legs t)))"
    using card_one_iff_all_eq [OF ne] hd_eq by simp
  have unfold: "classifyStrategy t =
      (if card (set (map expiry (legs t))) = 1
          \<and> (Long \<in> set (map position (legs t)) \<and> Short \<in> set (map position (legs t)))
          \<and> (list_ex (\<lambda>leg. legType leg = Call) (legs t)
               \<and> list_ex (\<lambda>leg. legType leg = Put) (legs t))
       then IronCondor else Other)"
    using len by (simp add: classifyStrategy_def Let_def)
  have pos: "\<And>p. (p \<in> set (map position (legs t))) = (\<exists>l\<in>set (legs t). position l = p)"
    by auto
  show ?thesis
    unfolding unfold c pos list_ex_iff by simp
qed

lemma classify_else:
  "length (legs t) = 3 \<or> 5 \<le> length (legs t) \<Longrightarrow> classifyStrategy t = Other"
  by (auto simp: classifyStrategy_def Let_def)

text \<open>The classifier reads only the option type, the position and the expiry of each leg.\<close>

lemma classify_cong:
  assumes "map (\<lambda>l. (legType l, position l, expiry l)) (legs t')
         = map (\<lambda>l. (legType l, position l, expiry l)) (legs t)"
  shows "classifyStrategy t' = classifyStrategy t"
proof -
  define k where "k = (\<lambda>l::OptionLegRecord. (legType l, position l, expiry l))"
  define g where "g = (\<lambda>ks::(OptionType \<times> Position \<times> string) list.
     if length ks = 0 then Other
     else if length ks = 1 then Single
     else if length ks = 2 then
       (if snd (snd (ks ! 0)) = snd (snd (ks ! 1)) \<and> fst (ks ! 0) = fst (ks ! 1)
        then VerticalSpread else Other)
     else if length ks = 4 \<and> card (set (map (\<lambda>x. snd (snd x)) ks)) = 1
        \<and> Long \<in> set (map (\<lambda>x. fst (snd x)) ks) \<and> Short \<in> set (map (\<lambda>x. fst (snd x)) ks)
        \<and> list_ex (\<lambda>x. fst x = Call) ks \<and> list_ex (\<lambda>x. fst x = Put) ks
     then IronCondor else Other)"
  have "classifyStrategy u = g (map k (legs u))" for u
    unfolding classifyStrategy_def g_def k_def Let_def list_ex_iff
    by (simp add: comp_def)
  with assms show ?thesis
    unfolding k_def by simp
qed

text \<open>
  C2. The classifier is a total function of the leg list with values in the four
  archetypes: no leg gives \<open>Other\<close>; one leg gives \<open>Single\<close>; two legs give
  \<open>VerticalSpread\<close> exactly when they have the same expiry and the same option type
  (position and strike are not read); four legs give \<open>IronCondor\<close> exactly when all
  share one expiry and there is a long and a short leg and a call and a put; three legs
  or five and more give \<open>Other\<close>. Two trades whose legs agree in option type, position
  and expiry get the same archetype.
\<close>

theorem classifyStrategy_precedence:
  "(legs t = [] \<longrightarrow> classifyStrategy t = Other)
   \<and> (\<forall>a. legs t = [a] \<longrightarrow> classifyStrategy t = Single)
   \<and> (\<forall>a b. legs t = [a, b] \<longrightarrow> classifyStrategy t =
         (if expiry a = expiry b \<and> legType a = legType b then VerticalSpread else Other))
   \<and> (length (legs t) = 4 \<longrightarrow> classifyStrategy t =
         (if (\<forall>l\<in>set (legs t). expiry l = expiry (hd (legs t)))
             \<and> (\<exists>l\<in>set (legs t). position l = Long)
             \<and> (\<exists>l\<in>set (legs t). position l = Short)
             \<and> (\<exists>l\<in>set (legs t). legType l = Call)
             \<and> (\<exists>l\<in>set (legs t). legType l = Put)
          then IronCondor else Other))
   \<and> (length (legs t) = 3 \<or> 5 \<le> length (legs t) \<longrightarrow> classifyStrategy t = Other)
   \<and> (\<forall>t'. map (\<lambda>l. (legType l, position l, expiry l)) (legs t')
             = map (\<lambda>l. (legType l, position l, expiry l)) (legs t)
          \<longrightarrow> classifyStrategy t' = classifyStrategy t)
   \<and> classifyStrategy t \<in> {Single, VerticalSpread, IronCondor, Other}"
proof (intro conjI allI impI)
  show "classifyStrategy t \<in> {Single, VerticalSpread, IronCondor, Other}"
    by (cases "classifyStrategy t") simp_all
qed (fact classify_zero classify_one classify_two classify_four classify_else classify_cong)+

theorem classifyStrategy_precedence_witness:
  "classifyStrategy legsNone = Other
   \<and> classifyStrategy legsOne = Single
   \<and> classifyStrategy legsTwoLongCalls = VerticalSpread
   \<and> classifyStrategy legsThree = Other
   \<and> classifyStrategy legsCondor = IronCondor
   \<and> classifyStrategy legsAllLong = Other"
proof (intro conjI)
  show "classifyStrategy legsNone = Other"
    using classifyStrategy_precedence [of legsNone]
    by (simp add: legsNone_def mkTrade_def)
  show "classifyStrategy legsOne = Single"
    using classifyStrategy_precedence [of legsOne]
    by (simp add: legsOne_def mkTrade_def)
  show "classifyStrategy legsTwoLongCalls = VerticalSpread"
    using classifyStrategy_precedence [of legsTwoLongCalls]
    by (simp add: legsTwoLongCalls_def mkTrade_def mkLeg_def)
  show "classifyStrategy legsThree = Other"
    using classifyStrategy_precedence [of legsThree]
    by (simp add: legsThree_def mkTrade_def)
  show "classifyStrategy legsCondor = IronCondor"
    using classifyStrategy_precedence [of legsCondor]
    by (simp add: legsCondor_def mkTrade_def mkLeg_def)
  show "classifyStrategy legsAllLong = Other"
    using classifyStrategy_precedence [of legsAllLong]
    by (simp add: legsAllLong_def mkTrade_def mkLeg_def)
qed

section \<open>Per-trade profit and basis\<close>






section \<open>Holding days and holding-period buckets\<close>

lemma daysBetween_Some:
  "getTime a = Some s \<Longrightarrow> getTime b = Some e \<Longrightarrow>
     daysBetween getTime a b = mathRound (of_int (max 0 (e - s)) / 86400000)"
  by (simp add: daysBetween_def Let_def)

lemma daysBetween_None:
  "getTime a = None \<or> getTime b = None \<Longrightarrow> daysBetween getTime a b = 0"
  by (auto simp: daysBetween_def split: option.split)

lemma daysBetween_whole:
  assumes "getTime a = Some s" "getTime b = Some (s + k * 86400000)" "0 \<le> k"
  shows "daysBetween getTime a b = k"
proof -
  have "max 0 (k * 86400000) = k * 86400000"
    using assms(3) by simp
  then have "(of_int (max 0 (s + k * 86400000 - s)) :: rat) / 86400000 = of_int k"
    by simp
  then show ?thesis
    using daysBetween_Some [OF assms(1) assms(2)] by simp
qed

lemma daysBetween_nonneg: "0 \<le> daysBetween getTime a b"
  by (auto simp: daysBetween_def Let_def mathRound_nonneg split: option.split)

lemma bucketHoldingPeriod_iff:
  "(bucketHoldingPeriod d = ''0-3d'') = (d \<le> 3)"
  "(bucketHoldingPeriod d = ''4-7d'') = (3 < d \<and> d \<le> 7)"
  "(bucketHoldingPeriod d = ''8-30d'') = (7 < d \<and> d \<le> 30)"
  "(bucketHoldingPeriod d = ''31d+'') = (30 < d)"
  by (auto simp: bucketHoldingPeriod_def)

text \<open>
  C8. The holding days of a trade are computed from its opened date and its closed date
  (the opened date again when there is no closed date): the difference in milliseconds,
  floored at zero, divided by the length of a day and rounded to the nearest integer; a
  whole number of days apart gives that number, and an invalid date on either side gives
  0. The bucket is \<open>0-3d\<close> up to 3 days, \<open>4-7d\<close> up to 7, \<open>8-30d\<close> up to 30 and
  \<open>31d+\<close> above. The snapshot lists the four buckets in this order whatever the
  history, each with the number of closed trades that fall into it (0 when there is
  none).
\<close>

theorem holdDays_and_buckets:
  "(\<forall>s e. getTime (openedAt t) = Some s \<and> getTime (closedOrOpened t) = Some e \<longrightarrow>
        holdDaysOf getTime t = \<lfloor>of_int (max 0 (e - s)) / 86400000 + 1 / 2 :: rat\<rfloor>
        \<and> \<bar>of_int (holdDaysOf getTime t) - of_int (max 0 (e - s)) / 86400000 :: rat\<bar> \<le> 1 / 2)
   \<and> (\<forall>s k. getTime (openedAt t) = Some s \<and> getTime (closedOrOpened t) = Some (s + k * 86400000)
          \<and> 0 \<le> k \<longrightarrow> holdDaysOf getTime t = k)
   \<and> (getTime (openedAt t) = None \<or> getTime (closedOrOpened t) = None
        \<longrightarrow> holdDaysOf getTime t = 0)
   \<and> 0 \<le> holdDaysOf getTime t
   \<and> closedOrOpened t = (case closedAt t of None \<Rightarrow> openedAt t | Some c \<Rightarrow> c)
   \<and> (closedAt t = None \<longrightarrow> holdDaysOf getTime t = 0)
   \<and> (\<forall>d. (bucketHoldingPeriod d = ''0-3d'') = (d \<le> 3)
          \<and> (bucketHoldingPeriod d = ''4-7d'') = (3 < d \<and> d \<le> 7)
          \<and> (bucketHoldingPeriod d = ''8-30d'') = (7 < d \<and> d \<le> 30)
          \<and> (bucketHoldingPeriod d = ''31d+'') = (30 < d))
   \<and> map bucket (holdingPeriods (snapshotOfTrades getTime now trades))
       = [''0-3d'', ''4-7d'', ''8-30d'', ''31d+'']
   \<and> map count (holdingPeriods (snapshotOfTrades getTime now trades))
       = map (\<lambda>b. length (filter (\<lambda>t. bucketHoldingPeriod (holdDaysOf getTime t) = b)
                             (filter isClosed trades)))
           [''0-3d'', ''4-7d'', ''8-30d'', ''31d+'']"
proof (intro conjI allI impI)
  fix s e
  assume h: "getTime (openedAt t) = Some s \<and> getTime (closedOrOpened t) = Some e"
  then have d: "holdDaysOf getTime t = mathRound (of_int (max 0 (e - s)) / 86400000)"
    by (simp add: daysBetween_Some)
  then show "holdDaysOf getTime t = \<lfloor>of_int (max 0 (e - s)) / 86400000 + 1 / 2 :: rat\<rfloor>"
    by (simp add: mathRound_def)
  show "\<bar>of_int (holdDaysOf getTime t) - of_int (max 0 (e - s)) / 86400000 :: rat\<bar> \<le> 1 / 2"
    unfolding d by (rule mathRound_near)
next
  fix s k
  assume "getTime (openedAt t) = Some s \<and> getTime (closedOrOpened t) = Some (s + k * 86400000)
          \<and> 0 \<le> k"
  then show "holdDaysOf getTime t = k"
    by (simp add: daysBetween_whole)
next
  assume "getTime (openedAt t) = None \<or> getTime (closedOrOpened t) = None"
  then show "holdDaysOf getTime t = 0"
    by (rule daysBetween_None)
next
  show "0 \<le> holdDaysOf getTime t"
    by (rule daysBetween_nonneg)
  show "closedOrOpened t = (case closedAt t of None \<Rightarrow> openedAt t | Some c \<Rightarrow> c)"
    by (simp add: closedOrOpened_def)
next
  assume n: "closedAt t = None"
  then have same: "closedOrOpened t = openedAt t"
    by (simp add: closedOrOpened_def)
  show "holdDaysOf getTime t = 0"
  proof (cases "getTime (openedAt t)")
    case None
    then show ?thesis by (simp add: daysBetween_None)
  next
    case (Some s)
    then show ?thesis
      using daysBetween_whole [of getTime "openedAt t" s "openedAt t" 0] same by simp
  qed
next
  show "map bucket (holdingPeriods (snapshotOfTrades getTime now trades))
          = [''0-3d'', ''4-7d'', ''8-30d'', ''31d+'']"
    by (simp add: snapshot_holdingPeriods bucketLabels_def)
  show "map count (holdingPeriods (snapshotOfTrades getTime now trades))
       = map (\<lambda>b. length (filter (\<lambda>t. bucketHoldingPeriod (holdDaysOf getTime t) = b)
                             (filter isClosed trades)))
           [''0-3d'', ''4-7d'', ''8-30d'', ''31d+'']"
    by (simp add: snapshot_holdingPeriods bucketLabels_def)
qed (simp_all add: bucketHoldingPeriod_iff)

theorem holdDays_and_buckets_witness:
  "holdDaysOf isoDateTime nineDayTrade = 9
   \<and> bucketHoldingPeriod 9 = ''8-30d''
   \<and> holdDaysOf isoDateTime badDateTrade = 0
   \<and> holdDaysOf isoDateTime openTrade = 0
   \<and> map bucket (holdingPeriods (snapshotOfTrades isoDateTime 0 [nineDayTrade, badDateTrade, openTrade]))
       = [''0-3d'', ''4-7d'', ''8-30d'', ''31d+'']
   \<and> map count (holdingPeriods (snapshotOfTrades isoDateTime 0 [nineDayTrade, badDateTrade, openTrade]))
       = [1, 0, 1, 0]"
proof -
  note D = holdDays_and_buckets [of isoDateTime _ 0 "[]"]
  have nine: "holdDaysOf isoDateTime nineDayTrade = 9"
    using D [of nineDayTrade]
    by (simp add: nineDayTrade_def mkTrade_def closedOrOpened_def isoDateTime_examples)
  have bad: "holdDaysOf isoDateTime badDateTrade = 0"
    using D [of badDateTrade]
    by (simp add: badDateTrade_def mkTrade_def closedOrOpened_def isoDateTime_examples)
  have opn: "holdDaysOf isoDateTime openTrade = 0"
    using D [of openTrade]
    by (simp add: openTrade_def mkTrade_def closedOrOpened_def)
  have lab: "bucketHoldingPeriod 9 = ''8-30d''"
    using D [of nineDayTrade]
    by simp
  have cl: "filter isClosed [nineDayTrade, badDateTrade, openTrade] = [nineDayTrade, badDateTrade]"
    by (simp add: isClosed_def nineDayTrade_def badDateTrade_def openTrade_def mkTrade_def)
  note T = holdDays_and_buckets [of isoDateTime nineDayTrade 0 "[nineDayTrade, badDateTrade, openTrade]"]
  from T have b: "map bucket (holdingPeriods (snapshotOfTrades isoDateTime 0 [nineDayTrade, badDateTrade, openTrade]))
       = [''0-3d'', ''4-7d'', ''8-30d'', ''31d+'']"
    by blast
  from T have "map count (holdingPeriods (snapshotOfTrades isoDateTime 0 [nineDayTrade, badDateTrade, openTrade]))
       = map (\<lambda>b. length (filter (\<lambda>t. bucketHoldingPeriod (holdDaysOf isoDateTime t) = b)
                             (filter isClosed [nineDayTrade, badDateTrade, openTrade])))
           [''0-3d'', ''4-7d'', ''8-30d'', ''31d+'']"
    by blast
  then have c: "map count (holdingPeriods (snapshotOfTrades isoDateTime 0 [nineDayTrade, badDateTrade, openTrade]))
       = [1, 0, 1, 0]"
    unfolding cl by (simp add: nine bad bucketHoldingPeriod_def)
  from nine bad opn lab b c show ?thesis by simp
qed

section \<open>Every closed trade is counted once\<close>

lemma sum_statTotal_mapSet:
  "sum_list (map (\<lambda>e. statTotal (snd e)) (mapSet m k v)) + statTotal (statsOrZero m k)
     = sum_list (map (\<lambda>e. statTotal (snd e)) m) + statTotal v"
  by (induction m) (auto simp: mapGet_def)

lemma sum_statTotal_mapSet_Suc:
  assumes "statTotal v = statTotal (statsOrZero m k) + 1"
  shows "sum_list (map (\<lambda>e. statTotal (snd e)) (mapSet m k v))
           = sum_list (map (\<lambda>e. statTotal (snd e)) m) + 1"
  using sum_statTotal_mapSet [of m k v] assms by simp

lemma sum_statTotal_step:
  "sum_list (map (\<lambda>e. statTotal (snd e)) (strategyMap (aggregateTrade g st t)))
     = sum_list (map (\<lambda>e. statTotal (snd e)) (strategyMap st)) + 1"
  unfolding aggregateTrade_strategyMap
  by (rule sum_statTotal_mapSet_Suc) simp

lemma sum_statTotal_fold:
  "sum_list (map (\<lambda>e. statTotal (snd e)) (strategyMap (foldl (aggregateTrade g) st ts)))
     = sum_list (map (\<lambda>e. statTotal (snd e)) (strategyMap st)) + length ts"
  by (induction ts arbitrary: st) (simp_all add: sum_statTotal_step)

lemma total_toMetric: "total (toMetric e) = statTotal (snd e)"
  by (cases e) (simp add: toMetric_def)

lemma strategy_toMetric: "strategy (toMetric e) = fst e"
  by (cases e) (simp add: toMetric_def)

lemma sum_breakdown_total:
  "sum_list (map total (strategyBreakdown (snapshotOfTrades g now trades)))
     = length (filter isClosed trades)"
proof -
  have "sum_list (map total (strategyBreakdown (snapshotOfTrades g now trades)))
          = sum_list (map total (map toMetric
              (strategyMap (foldl (aggregateTrade g) initialState (filter isClosed trades)))))"
    unfolding snapshot_strategyBreakdown by (rule sum_list_jsSort)
  also have "\<dots> = sum_list (map (\<lambda>e. statTotal (snd e))
              (strategyMap (foldl (aggregateTrade g) initialState (filter isClosed trades))))"
    by (simp add: comp_def total_toMetric)
  also have "\<dots> = length (filter isClosed trades)"
    unfolding sum_statTotal_fold by (simp add: initialState_def)
  finally show ?thesis .
qed

lemma bucket_partition:
  "sum_list (map (\<lambda>b. length (filter (\<lambda>t. bucketHoldingPeriod (d t) = b) ts)) bucketLabels)
     = length ts"
  by (induction ts) (auto simp: bucketLabels_def bucketHoldingPeriod_def)

lemma sum_holdingPeriods_count:
  "sum_list (map count (holdingPeriods (snapshotOfTrades g now trades)))
     = length (filter isClosed trades)"
  unfolding snapshot_holdingPeriods
  using bucket_partition [of "holdDaysOf g" "filter isClosed trades"]
  by (simp add: comp_def)

lemma bucket_in_labels: "bucketHoldingPeriod d \<in> set bucketLabels"
  by (simp add: bucketLabels_def bucketHoldingPeriod_def)

lemma breakdown_strategies_distinct:
  "distinct (map strategy (strategyBreakdown (snapshotOfTrades g now trades)))"
proof -
  have "distinct (map fst
          (strategyMap (foldl (aggregateTrade g) initialState (filter isClosed trades))))"
    by (rule fold_keys_distinct) (simp add: initialState_def)
  then have "distinct (map strategy (map toMetric
          (strategyMap (foldl (aggregateTrade g) initialState (filter isClosed trades)))))"
    by (simp add: comp_def strategy_toMetric)
  then show ?thesis
    unfolding snapshot_strategyBreakdown by (simp only: distinct_map_jsSort)
qed

lemma breakdown_strategies_set:
  "strategy ` set (strategyBreakdown (snapshotOfTrades g now trades))
     = classifyStrategy ` set (filter isClosed trades)"
proof -
  have "strategy ` set (strategyBreakdown (snapshotOfTrades g now trades))
      = fst ` set (strategyMap (foldl (aggregateTrade g) initialState (filter isClosed trades)))"
    unfolding snapshot_strategyBreakdown
    by (simp add: image_image strategy_toMetric)
  also have "\<dots> = classifyStrategy ` set (filter isClosed trades)"
    unfolding fold_keys_set by (simp add: initialState_def)
  finally show ?thesis .
qed

lemma breakdown_entry:
  assumes "m \<in> set (strategyBreakdown (snapshotOfTrades g now trades))"
  shows "\<exists>c. m = toMetric (strategy m, c)
           \<and> c = statsOrZero
                   (strategyMap (foldl (aggregateTrade g) initialState (filter isClosed trades)))
                   (strategy m)"
proof -
  let ?sm = "strategyMap (foldl (aggregateTrade g) initialState (filter isClosed trades))"
  from assms obtain e where e: "e \<in> set ?sm" and m: "m = toMetric e"
    unfolding snapshot_strategyBreakdown by auto
  obtain k c where kc: "e = (k, c)" by (cases e)
  have k: "strategy m = k"
    by (simp add: m kc strategy_toMetric)
  have "distinct (map fst ?sm)"
    by (rule fold_keys_distinct) (simp add: initialState_def)
  then have "mapGet ?sm k = Some c"
    using e kc by (simp add: mapGet_distinct_in)
  then show ?thesis
    using m kc k by simp
qed

lemma breakdown_total:
  assumes "m \<in> set (strategyBreakdown (snapshotOfTrades g now trades))"
  shows "total m = length (filter (\<lambda>t. classifyStrategy t = strategy m) (filter isClosed trades))"
proof -
  from breakdown_entry [OF assms] obtain c where
    m: "m = toMetric (strategy m, c)" and
    c: "c = statsOrZero
              (strategyMap (foldl (aggregateTrade g) initialState (filter isClosed trades)))
              (strategy m)"
    by blast
  have "total m = statTotal c"
    by (subst m) (simp add: total_toMetric)
  also have "\<dots> = length (filter (\<lambda>t. classifyStrategy t = strategy m) (filter isClosed trades))"
    unfolding c fold_stats initial_stats by simp
  finally show ?thesis .
qed

text \<open>
  C6. In every snapshot the totals of the strategy groups add up to the number of closed
  trades, and so do the counts of the four holding-period buckets. The groups have
  pairwise different archetypes, every closed trade's archetype has a group, and a
  group's total is the number of closed trades of its archetype; the buckets have
  pairwise different labels, every closed trade's bucket is one of them, and a bucket's
  count is the number of closed trades that fall into it.
\<close>

theorem breakdown_and_buckets_partition:
  "sum_list (map total (strategyBreakdown (snapshotOfTrades getTime now trades)))
     = closedTrades (totals (snapshotOfTrades getTime now trades))
   \<and> sum_list (map count (holdingPeriods (snapshotOfTrades getTime now trades)))
     = closedTrades (totals (snapshotOfTrades getTime now trades))
   \<and> closedTrades (totals (snapshotOfTrades getTime now trades)) = length (filter isClosed trades)
   \<and> distinct (map strategy (strategyBreakdown (snapshotOfTrades getTime now trades)))
   \<and> (\<forall>t\<in>set trades. isClosed t \<longrightarrow>
         classifyStrategy t \<in> strategy ` set (strategyBreakdown (snapshotOfTrades getTime now trades)))
   \<and> (\<forall>m\<in>set (strategyBreakdown (snapshotOfTrades getTime now trades)).
         total m = length (filter (\<lambda>t. classifyStrategy t = strategy m) (filter isClosed trades)))
   \<and> distinct (map bucket (holdingPeriods (snapshotOfTrades getTime now trades)))
   \<and> (\<forall>t\<in>set trades. isClosed t \<longrightarrow>
         bucketHoldingPeriod (holdDaysOf getTime t)
           \<in> bucket ` set (holdingPeriods (snapshotOfTrades getTime now trades)))
   \<and> (\<forall>h\<in>set (holdingPeriods (snapshotOfTrades getTime now trades)).
         count h = length (filter (\<lambda>t. bucketHoldingPeriod (holdDaysOf getTime t) = bucket h)
                             (filter isClosed trades)))"
proof (intro conjI ballI impI)
  show "sum_list (map total (strategyBreakdown (snapshotOfTrades getTime now trades)))
     = closedTrades (totals (snapshotOfTrades getTime now trades))"
    by (simp only: sum_breakdown_total snapshot_closedTrades)
  show "sum_list (map count (holdingPeriods (snapshotOfTrades getTime now trades)))
     = closedTrades (totals (snapshotOfTrades getTime now trades))"
    by (simp only: sum_holdingPeriods_count snapshot_closedTrades)
  show "closedTrades (totals (snapshotOfTrades getTime now trades)) = length (filter isClosed trades)"
    by (rule snapshot_closedTrades)
  show "distinct (map strategy (strategyBreakdown (snapshotOfTrades getTime now trades)))"
    by (rule breakdown_strategies_distinct)
  show "distinct (map bucket (holdingPeriods (snapshotOfTrades getTime now trades)))"
    by (simp add: snapshot_holdingPeriods comp_def bucketLabels_def)
next
  fix t assume "t \<in> set trades" "isClosed t"
  then show "classifyStrategy t
      \<in> strategy ` set (strategyBreakdown (snapshotOfTrades getTime now trades))"
    unfolding breakdown_strategies_set by simp
next
  fix m assume "m \<in> set (strategyBreakdown (snapshotOfTrades getTime now trades))"
  then show "total m = length (filter (\<lambda>t. classifyStrategy t = strategy m) (filter isClosed trades))"
    by (rule breakdown_total)
next
  fix t assume "t \<in> set trades" "isClosed t"
  have "bucket ` set (holdingPeriods (snapshotOfTrades getTime now trades)) = set bucketLabels"
    by (simp add: snapshot_holdingPeriods image_image)
  then show "bucketHoldingPeriod (holdDaysOf getTime t)
           \<in> bucket ` set (holdingPeriods (snapshotOfTrades getTime now trades))"
    using bucket_in_labels by simp
next
  fix h assume "h \<in> set (holdingPeriods (snapshotOfTrades getTime now trades))"
  then show "count h = length (filter (\<lambda>t. bucketHoldingPeriod (holdDaysOf getTime t) = bucket h)
                             (filter isClosed trades))"
    unfolding snapshot_holdingPeriods by auto
qed

theorem breakdown_and_buckets_partition_witness:
  "sum_list (map total (strategyBreakdown (snapshotOfTrades isoDateTime 0 sampleHistory))) = 3
   \<and> sum_list (map count (holdingPeriods (snapshotOfTrades isoDateTime 0 sampleHistory))) = 3
   \<and> closedTrades (totals (snapshotOfTrades isoDateTime 0 sampleHistory)) = 3
   \<and> winTrade \<in> set sampleHistory \<and> isClosed winTrade
   \<and> Single \<in> strategy ` set (strategyBreakdown (snapshotOfTrades isoDateTime 0 sampleHistory))
   \<and> ''8-30d'' \<in> bucket ` set (holdingPeriods (snapshotOfTrades isoDateTime 0 sampleHistory))"
proof -
  note T = breakdown_and_buckets_partition [of isoDateTime 0 sampleHistory]
  have mem: "winTrade \<in> set sampleHistory"
    by (simp add: sampleHistory_def)
  have cl: "isClosed winTrade"
    by (simp add: isClosed_def winTrade_def mkTrade_def)
  have n: "closedTrades (totals (snapshotOfTrades isoDateTime 0 sampleHistory)) = 3"
    using T by (simp add: sampleHistory_closed)
  from T have "sum_list (map total (strategyBreakdown (snapshotOfTrades isoDateTime 0 sampleHistory)))
      = closedTrades (totals (snapshotOfTrades isoDateTime 0 sampleHistory))"
    by blast
  then have a: "sum_list (map total (strategyBreakdown (snapshotOfTrades isoDateTime 0 sampleHistory))) = 3"
    using n by simp
  from T have "sum_list (map count (holdingPeriods (snapshotOfTrades isoDateTime 0 sampleHistory)))
      = closedTrades (totals (snapshotOfTrades isoDateTime 0 sampleHistory))"
    by blast
  then have b: "sum_list (map count (holdingPeriods (snapshotOfTrades isoDateTime 0 sampleHistory))) = 3"
    using n by simp
  from T have "\<forall>t\<in>set sampleHistory. isClosed t \<longrightarrow>
      classifyStrategy t \<in> strategy ` set (strategyBreakdown (snapshotOfTrades isoDateTime 0 sampleHistory))"
    by blast
  with mem cl have "classifyStrategy winTrade
      \<in> strategy ` set (strategyBreakdown (snapshotOfTrades isoDateTime 0 sampleHistory))"
    by blast
  moreover have "classifyStrategy winTrade = Single"
    by (simp add: classifyStrategy_def winTrade_def mkTrade_def)
  ultimately have c: "Single
      \<in> strategy ` set (strategyBreakdown (snapshotOfTrades isoDateTime 0 sampleHistory))"
    by simp
  from T have "\<forall>t\<in>set sampleHistory. isClosed t \<longrightarrow>
      bucketHoldingPeriod (holdDaysOf isoDateTime t)
        \<in> bucket ` set (holdingPeriods (snapshotOfTrades isoDateTime 0 sampleHistory))"
    by blast
  with mem cl have "bucketHoldingPeriod (holdDaysOf isoDateTime winTrade)
      \<in> bucket ` set (holdingPeriods (snapshotOfTrades isoDateTime 0 sampleHistory))"
    by blast
  moreover have "holdDaysOf isoDateTime winTrade = 9"
    by (simp add: winTrade_def mkTrade_def closedOrOpened_def isoDateTime_examples
        daysBetween_def mathRound_def)
  moreover have "bucketHoldingPeriod 9 = ''8-30d''"
    by (simp add: bucketHoldingPeriod_def)
  ultimately have d: "''8-30d''
      \<in> bucket ` set (holdingPeriods (snapshotOfTrades isoDateTime 0 sampleHistory))"
    by simp
  from a b n mem cl c d show ?thesis by blast
qed

section \<open>Win rate and expectancy\<close>

lemma snapshot_totals_pnls:
  fixes getTime now trades
  defines "s \<equiv> snapshotOfTrades getTime now trades"
  defines "pnls \<equiv> map tradePnl (filter isClosed trades)"
  shows "closedTrades (totals s) = length pnls"
    and "winRate (totals s)
           = toFixed2 (fmul (if length pnls = 0 then 0
                             else fdiv (of_nat (length (filter (\<lambda>p. 0 < p) pnls)))
                                       (of_nat (length pnls))) 100)"
    and "averagePnl (totals s)
           = toFixed2 (if length pnls = 0 then 0 else fdiv (floatSum pnls) (of_nat (length pnls)))"
    and "expectancy (totals s)
           = toFixed2
               (fsub
                 (fmul (if filter (\<lambda>p. 0 < p) pnls = [] then 0
                        else fdiv (floatSum (filter (\<lambda>p. 0 < p) pnls))
                                  (of_nat (length (filter (\<lambda>p. 0 < p) pnls))))
                       (if length pnls = 0 then 0
                        else fdiv (of_nat (length (filter (\<lambda>p. 0 < p) pnls)))
                                  (of_nat (length pnls))))
                 (fmul (if filter (\<lambda>p. p < 0) pnls = [] then 0
                        else fdiv (floatSum (map abs (filter (\<lambda>p. p < 0) pnls)))
                                  (of_nat (length (filter (\<lambda>p. p < 0) pnls))))
                       (fsub 1 (if length pnls = 0 then 0
                                else fdiv (of_nat (length (filter (\<lambda>p. 0 < p) pnls)))
                                          (of_nat (length pnls))))))"
proof -
  have w: "filter (\<lambda>p. 0 < p) pnls = map tradePnl (filter (\<lambda>t. 0 < tradePnl t) (filter isClosed trades))"
    unfolding pnls_def by (simp add: filter_map comp_def)
  have l: "filter (\<lambda>p. p < 0) pnls = map tradePnl (filter (\<lambda>t. tradePnl t < 0) (filter isClosed trades))"
    unfolding pnls_def by (simp add: filter_map comp_def)
  have n: "length pnls = length (filter isClosed trades)"
    unfolding pnls_def by simp
  show "closedTrades (totals s) = length pnls"
    unfolding n s_def by (rule snapshot_closedTrades)
  show "winRate (totals s)
           = toFixed2 (fmul (if length pnls = 0 then 0
                             else fdiv (of_nat (length (filter (\<lambda>p. 0 < p) pnls)))
                                       (of_nat (length pnls))) 100)"
    unfolding w n s_def snapshot_totals Let_def by simp
  show "averagePnl (totals s)
           = toFixed2 (if length pnls = 0 then 0 else fdiv (floatSum pnls) (of_nat (length pnls)))"
    unfolding n s_def snapshot_totals Let_def by (simp add: pnls_def)
  show "expectancy (totals s)
           = toFixed2
               (fsub
                 (fmul (if filter (\<lambda>p. 0 < p) pnls = [] then 0
                        else fdiv (floatSum (filter (\<lambda>p. 0 < p) pnls))
                                  (of_nat (length (filter (\<lambda>p. 0 < p) pnls))))
                       (if length pnls = 0 then 0
                        else fdiv (of_nat (length (filter (\<lambda>p. 0 < p) pnls)))
                                  (of_nat (length pnls))))
                 (fmul (if filter (\<lambda>p. p < 0) pnls = [] then 0
                        else fdiv (floatSum (map abs (filter (\<lambda>p. p < 0) pnls)))
                                  (of_nat (length (filter (\<lambda>p. p < 0) pnls))))
                       (fsub 1 (if length pnls = 0 then 0
                                else fdiv (of_nat (length (filter (\<lambda>p. 0 < p) pnls)))
                                          (of_nat (length pnls))))))"
    unfolding w l n s_def snapshot_totals Let_def by (simp add: comp_def)
qed

text \<open>The percentage computed in doubles from a count of wins, against the exact
  percentage.\<close>

lemma percent_near:
  assumes "w \<le> n" "0 < n"
  shows "\<bar>fmul (fdiv (of_nat w) (of_nat n)) 100 - of_nat w / of_nat n * 100\<bar>
           \<le> 100 * ((1 + 1 / 2 ^ 53) ^ 2 - 1)"
proof -
  define u :: rat where "u = 1 / 2 ^ 53"
  define q :: rat where "q = of_nat w / of_nat n"
  define f where "f = fdiv (of_nat w) (of_nat n)"
  have u0: "0 \<le> u" by (simp add: u_def)
  have q0: "0 \<le> q" by (simp add: q_def)
  have q1: "q \<le> 1" using assms by (simp add: q_def)
  have fq: "\<bar>f - q\<bar> \<le> u * q"
    using fdiv_near [of "of_nat w" "of_nat n"] q0 by (simp add: f_def q_def u_def)
  have f0: "0 \<le> f"
    unfolding f_def fdiv_def using q0 by (intro binary64_nonneg) (simp add: q_def)
  have "\<bar>fmul f 100 - f * 100\<bar> \<le> \<bar>f * 100\<bar> / 2 ^ 53"
    unfolding fmul_def by (rule binary64_near)
  then have m: "\<bar>fmul f 100 - f * 100\<bar> \<le> u * (f * 100)"
    using f0 by (simp add: u_def)
  have "f \<le> q + u * q" using fq by linarith
  then have "u * (f * 100) \<le> u * ((q + u * q) * 100)"
    using u0 by (intro mult_left_mono) simp_all
  with m have m': "\<bar>fmul f 100 - f * 100\<bar> \<le> u * ((q + u * q) * 100)" by linarith
  have "\<bar>f * 100 - q * 100\<bar> \<le> u * q * 100" using fq by linarith
  with m' have "\<bar>fmul f 100 - q * 100\<bar> \<le> u * ((q + u * q) * 100) + u * q * 100"
    by linarith
  also have "\<dots> = 100 * ((1 + u) ^ 2 - 1) * q"
    by (simp add: power2_eq_square algebra_simps)
  also have "\<dots> \<le> 100 * ((1 + u) ^ 2 - 1) * 1"
  proof (rule mult_left_mono [OF q1])
    have "1 \<le> (1 + u) ^ 2" using u0 by (intro one_le_power) simp
    then show "0 \<le> 100 * ((1 + u) ^ 2 - 1)" by simp
  qed
  finally show ?thesis
    unfolding f_def q_def u_def by simp
qed


lemma sum_abs_positives:
  fixes xs :: "rat list"
  shows "sum_list (map abs (filter (\<lambda>p. 0 < p) xs)) = sum_list (filter (\<lambda>p. 0 < p) xs)"
  by (induction xs) auto

lemma growth_le:
  "j \<le> k \<Longrightarrow> ((1 + 1 / 2 ^ 53 :: rat) ^ j - 1) * x \<le> ((1 + 1 / 2 ^ 53) ^ k - 1) * x"
  if "0 \<le> x"
proof -
  assume "j \<le> k"
  then have "(1 + 1 / 2 ^ 53 :: rat) ^ j \<le> (1 + 1 / 2 ^ 53) ^ k"
    by (intro power_increasing) simp_all
  then show ?thesis using that by (intro mult_right_mono) simp_all
qed

text \<open>The mean of the gains and the mean magnitude of the losses, in doubles and
  exact.\<close>

lemma mean_gain_error:
  fixes xs :: "rat list"
  assumes "\<forall>x\<in>set xs. 0 \<le> x" "length xs \<le> n"
  shows "\<bar>(if xs = [] then 0 else fdiv (floatSum xs) (of_nat (length xs)))
          - (if xs = [] then 0 else sum_list xs / of_nat (length xs))\<bar>
           \<le> ((1 + 1 / 2 ^ 53) ^ (n + 1) - 1)
              * (if xs = [] then 0 else sum_list xs / of_nat (length xs))"
    and "0 \<le> (if xs = [] then 0 else sum_list xs / of_nat (length xs))"
proof -
  have nn: "0 \<le> sum_list xs" using assms(1) by (induction xs) auto
  have ab: "map abs xs = xs" using assms(1) by (induction xs) auto
  show m0: "0 \<le> (if xs = [] then 0 else sum_list xs / of_nat (length xs))"
    using nn by simp
  show "\<bar>(if xs = [] then 0 else fdiv (floatSum xs) (of_nat (length xs)))
          - (if xs = [] then 0 else sum_list xs / of_nat (length xs))\<bar>
           \<le> ((1 + 1 / 2 ^ 53) ^ (n + 1) - 1)
              * (if xs = [] then 0 else sum_list xs / of_nat (length xs))"
  proof (cases "xs = []")
    case True
    then show ?thesis by simp
  next
    case False
    have "\<bar>fdiv (floatSum xs) (of_nat (length xs)) - sum_list xs / of_nat (length xs)\<bar>
        \<le> ((1 + 1 / 2 ^ 53) ^ Suc (length xs) - 1) * (sum_list xs / of_nat (length xs))"
      using floatMean_error [OF False] by (simp only: ab)
    also have "\<dots> \<le> ((1 + 1 / 2 ^ 53) ^ (n + 1) - 1) * (sum_list xs / of_nat (length xs))"
      using assms(2) m0 False by (intro growth_le) simp_all
    finally show ?thesis using False by simp
  qed
qed

text \<open>
  C5. With \<open>pnls\<close> the profits of the closed trades, \<open>closedCount\<close> their number,
  \<open>gains\<close> the strictly positive and \<open>deficits\<close> the strictly negative ones, and every
  sum, quotient, product and difference rounded to a double as the source computes it:
  the win rate is \<open>wins / closedCount \<times> 100\<close> rounded to two decimals; the expectancy is
  \<open>avgWin \<times> winRateFraction - avgLoss \<times> (1 - winRateFraction)\<close> rounded to two decimals,
  where \<open>avgWin\<close> is the mean of \<open>gains\<close>, \<open>avgLoss\<close> the mean magnitude of \<open>deficits\<close>
  (each 0 on an empty subset) and \<open>winRateFraction\<close> is the quotient \<open>wins / closedCount\<close>
  itself, not the reported win rate over 100; the average profit is the mean of \<open>pnls\<close>
  rounded to two decimals. Rounded to two decimals means: the figure is
  \<open>\<lfloor>\<bar>x\<bar> \<times> 100 + 1/2\<rfloor> / 100\<close> with the sign of the double \<open>x\<close> it is taken from, a whole
  number of hundredths at most half a hundredth away from \<open>x\<close>. Without closed trades the
  three figures are 0. With closed trades each figure is as near to the same expression
  in exact arithmetic as the roundings allow, \<open>n\<close> being \<open>closedCount\<close>: the win rate
  is within \<open>1/200 + 100 \<times> ((1 + 2\<^sup>-\<^sup>5\<^sup>3)\<^sup>2 - 1)\<close> of the exact percentage; the average
  profit is within \<open>1/200 + ((1 + 2\<^sup>-\<^sup>5\<^sup>3)\<^sup>n\<^sup>+\<^sup>1 - 1) \<times> m\<close> of the exact mean, \<open>m\<close> the
  mean magnitude of \<open>pnls\<close>; the expectancy is within
  \<open>1/200 + ((1 + 2\<^sup>-\<^sup>5\<^sup>3)\<^sup>n\<^sup>+\<^sup>5 - 1) \<times> (avgWin + avgLoss)\<close> of the exact expression, with
  the exact means and the exact fraction. Profits \<open>+100\<close> and \<open>-40\<close> give win
  rate 50, average profit 30 and expectancy 30.
\<close>

theorem winRate_expectancy_formula:
  "(let pnls = map tradePnl (filter isClosed trades);
        closedCount = length pnls;
        gains = filter (\<lambda>p. 0 < p) pnls;
        deficits = filter (\<lambda>p. p < 0) pnls;
        winRateFraction =
          (if closedCount = 0 then 0 else fdiv (of_nat (length gains)) (of_nat closedCount));
        avgWin = (if gains = [] then 0 else fdiv (floatSum gains) (of_nat (length gains)));
        avgLoss = (if deficits = [] then 0
                   else fdiv (floatSum (map abs deficits)) (of_nat (length deficits)));
        percent = fmul winRateFraction 100;
        expected = fsub (fmul avgWin winRateFraction) (fmul avgLoss (fsub 1 winRateFraction));
        mean = (if closedCount = 0 then 0 else fdiv (floatSum pnls) (of_nat closedCount));
        exactFraction = of_nat (length gains) / of_nat closedCount;
        exactAvgWin = (if gains = [] then 0 else sum_list gains / of_nat (length gains));
        exactAvgLoss = (if deficits = [] then 0
                        else sum_list (map abs deficits) / of_nat (length deficits));
        hundredths = (\<lambda>x :: rat. if x < 0 then - \<lfloor>- x * 100 + 1 / 2\<rfloor> else \<lfloor>x * 100 + 1 / 2\<rfloor>);
        tot = totals (snapshotOfTrades getTime now trades)
    in closedTrades tot = closedCount
       \<and> winRate tot = of_int (hundredths percent) / 100
       \<and> \<bar>winRate tot - percent\<bar> \<le> 1 / 200
       \<and> expectancy tot = of_int (hundredths expected) / 100
       \<and> \<bar>expectancy tot - expected\<bar> \<le> 1 / 200
       \<and> averagePnl tot = of_int (hundredths mean) / 100
       \<and> \<bar>averagePnl tot - mean\<bar> \<le> 1 / 200
       \<and> (closedCount = 0 \<longrightarrow> winRate tot = 0 \<and> averagePnl tot = 0 \<and> expectancy tot = 0)
       \<and> (closedCount \<noteq> 0 \<longrightarrow>
            \<bar>winRate tot - exactFraction * 100\<bar> \<le> 1 / 200 + 100 * ((1 + 1 / 2 ^ 53) ^ 2 - 1)
            \<and> \<bar>averagePnl tot - sum_list pnls / of_nat closedCount\<bar>
                \<le> 1 / 200 + ((1 + 1 / 2 ^ 53) ^ (closedCount + 1) - 1)
                             * (sum_list (map abs pnls) / of_nat closedCount)
            \<and> \<bar>expectancy tot
                 - (exactAvgWin * exactFraction - exactAvgLoss * (1 - exactFraction))\<bar>
                \<le> 1 / 200 + ((1 + 1 / 2 ^ 53) ^ (closedCount + 5) - 1)
                             * (exactAvgWin + exactAvgLoss))
       \<and> (pnls = [100, - 40] \<longrightarrow>
            winRate tot = 50 \<and> averagePnl tot = 30 \<and> expectancy tot = 30))"
proof -
  define pnls where "pnls = map tradePnl (filter isClosed trades)"
  define closedCount where "closedCount = length pnls"
  define gains where "gains = filter (\<lambda>p. 0 < p) pnls"
  define deficits where "deficits = filter (\<lambda>p. p < 0) pnls"
  define winRateFraction where "winRateFraction =
          (if closedCount = 0 then 0 else fdiv (of_nat (length gains)) (of_nat closedCount))"
  define avgWin where "avgWin = (if gains = [] then 0 else fdiv (floatSum gains) (of_nat (length gains)))"
  define avgLoss where "avgLoss = (if deficits = [] then 0
                   else fdiv (floatSum (map abs deficits)) (of_nat (length deficits)))"
  define percent where "percent = fmul winRateFraction 100"
  define expected where
    "expected = fsub (fmul avgWin winRateFraction) (fmul avgLoss (fsub 1 winRateFraction))"
  define mean where "mean = (if closedCount = 0 then 0 else fdiv (floatSum pnls) (of_nat closedCount))"
  define exactFraction :: rat where "exactFraction = of_nat (length gains) / of_nat closedCount"
  define exactAvgWin where
    "exactAvgWin = (if gains = [] then 0 else sum_list gains / of_nat (length gains))"
  define exactAvgLoss where
    "exactAvgLoss = (if deficits = [] then 0
                     else sum_list (map abs deficits) / of_nat (length deficits))"
  define hundredths where
    "hundredths = (\<lambda>x :: rat. if x < 0 then - \<lfloor>- x * 100 + 1 / 2\<rfloor> else \<lfloor>x * 100 + 1 / 2\<rfloor>)"
  define tot where "tot = totals (snapshotOfTrades getTime now trades)"
  have round: "toFixed2 x = of_int (hundredths x) / 100" for x
    by (simp add: toFixed2_def hundredths_def)
  have n: "closedTrades tot = closedCount"
    unfolding tot_def closedCount_def pnls_def by (rule snapshot_totals_pnls(1))
  have w: "winRate tot = toFixed2 percent"
    unfolding tot_def percent_def winRateFraction_def closedCount_def gains_def pnls_def
    by (rule snapshot_totals_pnls(2))
  have a: "averagePnl tot = toFixed2 mean"
    unfolding tot_def mean_def closedCount_def pnls_def
    by (rule snapshot_totals_pnls(3))
  have e: "expectancy tot = toFixed2 expected"
    unfolding tot_def expected_def avgWin_def avgLoss_def winRateFraction_def closedCount_def
      gains_def deficits_def pnls_def
    by (rule snapshot_totals_pnls(4))
  have c2: "winRate tot = of_int (hundredths percent) / 100" unfolding w by (rule round)
  have c3: "\<bar>winRate tot - percent\<bar> \<le> 1 / 200" unfolding w by (rule toFixed2_near)
  have c4: "expectancy tot = of_int (hundredths expected) / 100" unfolding e by (rule round)
  have c5: "\<bar>expectancy tot - expected\<bar> \<le> 1 / 200" unfolding e by (rule toFixed2_near)
  have c6: "averagePnl tot = of_int (hundredths mean) / 100" unfolding a by (rule round)
  have c7: "\<bar>averagePnl tot - mean\<bar> \<le> 1 / 200" unfolding a by (rule toFixed2_near)
  have c8: "closedCount = 0 \<longrightarrow> winRate tot = 0 \<and> averagePnl tot = 0 \<and> expectancy tot = 0"
  proof
    assume z: "closedCount = 0"
    then have "pnls = []" by (simp add: closedCount_def)
    then have g: "gains = []" "deficits = []" by (simp_all add: gains_def deficits_def)
    have "winRate tot = 0"
      using z by (simp add: w percent_def winRateFraction_def fmul_def binary64_def toFixed2_def)
    moreover have "averagePnl tot = 0"
      using z by (simp add: a mean_def toFixed2_def)
    moreover have "expectancy tot = 0"
      using z g by (simp add: e expected_def avgWin_def avgLoss_def winRateFraction_def
          fmul_def fsub_def binary64_def toFixed2_def)
    ultimately show "winRate tot = 0 \<and> averagePnl tot = 0 \<and> expectancy tot = 0"
      by (intro conjI)
  qed
  have c9: "closedCount \<noteq> 0 \<longrightarrow>
            \<bar>winRate tot - exactFraction * 100\<bar> \<le> 1 / 200 + 100 * ((1 + 1 / 2 ^ 53) ^ 2 - 1)
            \<and> \<bar>averagePnl tot - sum_list pnls / of_nat closedCount\<bar>
                \<le> 1 / 200 + ((1 + 1 / 2 ^ 53) ^ (closedCount + 1) - 1)
                             * (sum_list (map abs pnls) / of_nat closedCount)
            \<and> \<bar>expectancy tot
                 - (exactAvgWin * exactFraction - exactAvgLoss * (1 - exactFraction))\<bar>
                \<le> 1 / 200 + ((1 + 1 / 2 ^ 53) ^ (closedCount + 5) - 1)
                             * (exactAvgWin + exactAvgLoss)"
  proof
    assume ne: "closedCount \<noteq> 0"
    then have pos: "0 < closedCount" by simp
    have pne: "pnls \<noteq> []" using ne by (auto simp: closedCount_def)
    have le: "length gains \<le> closedCount"
      unfolding gains_def closedCount_def by (rule length_filter_le)
    have le': "length deficits \<le> closedCount"
      unfolding deficits_def closedCount_def by (rule length_filter_le)
    have wf: "winRateFraction = fdiv (of_nat (length gains)) (of_nat closedCount)"
      using ne by (simp add: winRateFraction_def)
    have "\<bar>percent - exactFraction * 100\<bar> \<le> 100 * ((1 + 1 / 2 ^ 53) ^ 2 - 1)"
      unfolding percent_def wf exactFraction_def by (rule percent_near [OF le pos])
    with c3 have r1: "\<bar>winRate tot - exactFraction * 100\<bar>
        \<le> 1 / 200 + 100 * ((1 + 1 / 2 ^ 53) ^ 2 - 1)"
      by linarith
    have "\<bar>mean - sum_list pnls / of_nat closedCount\<bar>
        \<le> ((1 + 1 / 2 ^ 53) ^ (closedCount + 1) - 1)
           * (sum_list (map abs pnls) / of_nat closedCount)"
      using floatMean_error [OF pne] ne by (simp add: mean_def closedCount_def)
    with c7 have r2: "\<bar>averagePnl tot - sum_list pnls / of_nat closedCount\<bar>
                \<le> 1 / 200 + ((1 + 1 / 2 ^ 53) ^ (closedCount + 1) - 1)
                             * (sum_list (map abs pnls) / of_nat closedCount)"
      by linarith
    have gpos: "\<forall>x\<in>set gains. 0 \<le> x" by (auto simp: gains_def)
    have dpos: "\<forall>x\<in>set (map abs deficits). 0 \<le> x" by auto
    have dlen: "length (map abs deficits) \<le> closedCount" using le' by simp
    have dnil: "(map abs deficits = []) = (deficits = [])" by simp
    have aw: "\<bar>avgWin - exactAvgWin\<bar> \<le> ((1 + 1 / 2 ^ 53) ^ (closedCount + 1) - 1) * exactAvgWin"
      "0 \<le> exactAvgWin"
      unfolding avgWin_def exactAvgWin_def
      by (rule mean_gain_error [OF gpos le])+
    have al: "\<bar>avgLoss - exactAvgLoss\<bar> \<le> ((1 + 1 / 2 ^ 53) ^ (closedCount + 1) - 1) * exactAvgLoss"
      "0 \<le> exactAvgLoss"
      using mean_gain_error [OF dpos dlen]
      by (simp_all only: avgLoss_def exactAvgLoss_def dnil length_map)
    have f0: "0 \<le> exactFraction" by (simp add: exactFraction_def)
    have f1: "exactFraction \<le> 1" using le pos by (simp add: exactFraction_def)
    have ff: "\<bar>winRateFraction - exactFraction\<bar> \<le> 1 / 2 ^ 53 * exactFraction"
      using fdiv_near [of "of_nat (length gains)" "of_nat closedCount"] f0
      by (simp add: wf exactFraction_def)
    have "\<bar>expected - (exactAvgWin * exactFraction - exactAvgLoss * (1 - exactFraction))\<bar>
        \<le> ((1 + 1 / 2 ^ 53) ^ (closedCount + 1 + 4) - 1) * (exactAvgWin + exactAvgLoss)"
      unfolding expected_def by (rule expectancy_error [OF aw al ff f0 f1])
    then have "\<bar>expected - (exactAvgWin * exactFraction - exactAvgLoss * (1 - exactFraction))\<bar>
        \<le> ((1 + 1 / 2 ^ 53) ^ (closedCount + 5) - 1) * (exactAvgWin + exactAvgLoss)"
      by (simp only: add.assoc) simp
    with c5 have r3: "\<bar>expectancy tot
                 - (exactAvgWin * exactFraction - exactAvgLoss * (1 - exactFraction))\<bar>
                \<le> 1 / 200 + ((1 + 1 / 2 ^ 53) ^ (closedCount + 5) - 1)
                             * (exactAvgWin + exactAvgLoss)"
      by linarith
    from r1 r2 r3 show "\<bar>winRate tot - exactFraction * 100\<bar> \<le> 1 / 200 + 100 * ((1 + 1 / 2 ^ 53) ^ 2 - 1)
            \<and> \<bar>averagePnl tot - sum_list pnls / of_nat closedCount\<bar>
                \<le> 1 / 200 + ((1 + 1 / 2 ^ 53) ^ (closedCount + 1) - 1)
                             * (sum_list (map abs pnls) / of_nat closedCount)
            \<and> \<bar>expectancy tot
                 - (exactAvgWin * exactFraction - exactAvgLoss * (1 - exactFraction))\<bar>
                \<le> 1 / 200 + ((1 + 1 / 2 ^ 53) ^ (closedCount + 5) - 1)
                             * (exactAvgWin + exactAvgLoss)"
      by (intro conjI)
  qed
  have ex: "pnls = [100, - 40] \<longrightarrow>
            winRate tot = 50 \<and> averagePnl tot = 30 \<and> expectancy tot = 30"
  proof
    assume p: "pnls = [100, - 40]"
    have "winRate tot = 50"
      unfolding w percent_def winRateFraction_def closedCount_def gains_def p
      by (simp add: binary64_eval toFixed2_def)
    moreover have "averagePnl tot = 30"
      unfolding a mean_def closedCount_def p
      by (simp add: binary64_eval toFixed2_def)
    moreover have "expectancy tot = 30"
      unfolding e expected_def avgWin_def avgLoss_def winRateFraction_def closedCount_def
        gains_def deficits_def p
      by (simp add: binary64_eval toFixed2_def)
    ultimately show "winRate tot = 50 \<and> averagePnl tot = 30 \<and> expectancy tot = 30"
      by (intro conjI)
  qed
  have "closedTrades tot = closedCount
       \<and> winRate tot = of_int (hundredths percent) / 100
       \<and> \<bar>winRate tot - percent\<bar> \<le> 1 / 200
       \<and> expectancy tot = of_int (hundredths expected) / 100
       \<and> \<bar>expectancy tot - expected\<bar> \<le> 1 / 200
       \<and> averagePnl tot = of_int (hundredths mean) / 100
       \<and> \<bar>averagePnl tot - mean\<bar> \<le> 1 / 200
       \<and> (closedCount = 0 \<longrightarrow> winRate tot = 0 \<and> averagePnl tot = 0 \<and> expectancy tot = 0)
       \<and> (closedCount \<noteq> 0 \<longrightarrow>
            \<bar>winRate tot - exactFraction * 100\<bar> \<le> 1 / 200 + 100 * ((1 + 1 / 2 ^ 53) ^ 2 - 1)
            \<and> \<bar>averagePnl tot - sum_list pnls / of_nat closedCount\<bar>
                \<le> 1 / 200 + ((1 + 1 / 2 ^ 53) ^ (closedCount + 1) - 1)
                             * (sum_list (map abs pnls) / of_nat closedCount)
            \<and> \<bar>expectancy tot
                 - (exactAvgWin * exactFraction - exactAvgLoss * (1 - exactFraction))\<bar>
                \<le> 1 / 200 + ((1 + 1 / 2 ^ 53) ^ (closedCount + 5) - 1)
                             * (exactAvgWin + exactAvgLoss))
       \<and> (pnls = [100, - 40] \<longrightarrow>
            winRate tot = 50 \<and> averagePnl tot = 30 \<and> expectancy tot = 30)"
    by (intro conjI) (rule n, rule c2, rule c3, rule c4, rule c5, rule c6, rule c7, rule c8,
        rule c9, rule ex)
  then show ?thesis
    unfolding Let_def pnls_def closedCount_def gains_def deficits_def winRateFraction_def
      avgWin_def avgLoss_def percent_def expected_def mean_def exactFraction_def
      exactAvgWin_def exactAvgLoss_def hundredths_def tot_def .
qed

theorem winRate_expectancy_formula_witness:
  "map tradePnl (filter isClosed [plus100, minus40]) = [100, - 40]
   \<and> winRate (totals (snapshotOfTrades isoDateTime 0 [plus100, minus40])) = 50
   \<and> averagePnl (totals (snapshotOfTrades isoDateTime 0 [plus100, minus40])) = 30
   \<and> expectancy (totals (snapshotOfTrades isoDateTime 0 [plus100, minus40])) = 30
   \<and> closedTrades (totals (snapshotOfTrades isoDateTime 0 [stillOpenTrade])) = 0
   \<and> winRate (totals (snapshotOfTrades isoDateTime 0 [stillOpenTrade])) = 0
   \<and> averagePnl (totals (snapshotOfTrades isoDateTime 0 [stillOpenTrade])) = 0
   \<and> expectancy (totals (snapshotOfTrades isoDateTime 0 [stillOpenTrade])) = 0
   \<and> closedTrades (totals (snapshotOfTrades isoDateTime 0 sampleHistory)) = 3
   \<and> winRate (totals (snapshotOfTrades isoDateTime 0 sampleHistory)) = 3333 / 100
   \<and> \<bar>winRate (totals (snapshotOfTrades isoDateTime 0 sampleHistory)) - 1 / 3 * 100\<bar>
       \<le> 1 / 200 + 100 * ((1 + 1 / 2 ^ 53) ^ 2 - 1)
   \<and> averagePnl (totals (snapshotOfTrades isoDateTime 0 sampleHistory)) = - 100
   \<and> expectancy (totals (snapshotOfTrades isoDateTime 0 sampleHistory)) = - 100
   \<and> \<bar>expectancy (totals (snapshotOfTrades isoDateTime 0 sampleHistory))
        - (300 * (1 / 3) - 300 * (1 - 1 / 3))\<bar>
       \<le> 1 / 200 + ((1 + 1 / 2 ^ 53) ^ 8 - 1) * (300 + 300)
   \<and> averagePnl (totals (snapshotOfTrades isoDateTime 0 [creditCents, creditOne])) = 1
   \<and> winRate (totals (snapshotOfTrades isoDateTime 0 manyTrades)) = 1437 / 100"
proof -
  note P = winRate_expectancy_formula [of "[plus100, minus40]" isoDateTime 0,
      unfolded Let_def pair_pnls]
  note N = winRate_expectancy_formula [of "[stillOpenTrade]" isoDateTime 0,
      unfolded Let_def open_pnls]
  note S = winRate_expectancy_formula [of sampleHistory isoDateTime 0,
      unfolded Let_def sample_pnl_list]
  note C = winRate_expectancy_formula [of "[creditCents, creditOne]" isoDateTime 0,
      unfolded Let_def centPair_pnls]
  note M = winRate_expectancy_formula [of manyTrades isoDateTime 0,
      unfolded Let_def manyTrades_pnls]
  have p: "winRate (totals (snapshotOfTrades isoDateTime 0 [plus100, minus40])) = 50
     \<and> averagePnl (totals (snapshotOfTrades isoDateTime 0 [plus100, minus40])) = 30
     \<and> expectancy (totals (snapshotOfTrades isoDateTime 0 [plus100, minus40])) = 30"
    by (rule P [THEN conjunct2, THEN conjunct2, THEN conjunct2, THEN conjunct2, THEN conjunct2,
          THEN conjunct2, THEN conjunct2, THEN conjunct2, THEN conjunct2, THEN mp, OF refl])
  have n0: "closedTrades (totals (snapshotOfTrades isoDateTime 0 [stillOpenTrade])) = 0"
    using N [THEN conjunct1] by simp
  have "length ([] :: rat list) = 0" by simp
  then have n1: "winRate (totals (snapshotOfTrades isoDateTime 0 [stillOpenTrade])) = 0
     \<and> averagePnl (totals (snapshotOfTrades isoDateTime 0 [stillOpenTrade])) = 0
     \<and> expectancy (totals (snapshotOfTrades isoDateTime 0 [stillOpenTrade])) = 0"
    by (rule N [THEN conjunct2, THEN conjunct2, THEN conjunct2, THEN conjunct2, THEN conjunct2,
          THEN conjunct2, THEN conjunct2, THEN conjunct1, THEN mp])
  have s0: "closedTrades (totals (snapshotOfTrades isoDateTime 0 sampleHistory)) = 3"
    using S [THEN conjunct1] by simp
  have s1: "winRate (totals (snapshotOfTrades isoDateTime 0 sampleHistory)) = 3333 / 100"
    using S [THEN conjunct2, THEN conjunct1] by (simp add: binary64_eval)
  have ne: "length [300 :: rat, - 300, - 300] \<noteq> 0" by simp
  note B = S [THEN conjunct2, THEN conjunct2, THEN conjunct2, THEN conjunct2, THEN conjunct2,
      THEN conjunct2, THEN conjunct2, THEN conjunct2, THEN conjunct1, THEN mp, OF ne]
  have s2: "\<bar>winRate (totals (snapshotOfTrades isoDateTime 0 sampleHistory)) - 1 / 3 * 100\<bar>
       \<le> 1 / 200 + 100 * ((1 + 1 / 2 ^ 53) ^ 2 - 1)"
    using B [THEN conjunct1] by simp
  have s3: "expectancy (totals (snapshotOfTrades isoDateTime 0 sampleHistory)) = - 100"
    using S [THEN conjunct2, THEN conjunct2, THEN conjunct2, THEN conjunct1]
    by (simp add: binary64_eval)
  have s4: "averagePnl (totals (snapshotOfTrades isoDateTime 0 sampleHistory)) = - 100"
    using S [THEN conjunct2, THEN conjunct2, THEN conjunct2, THEN conjunct2, THEN conjunct2,
        THEN conjunct1]
    by (simp add: binary64_eval)
  have "\<bar>expectancy (totals (snapshotOfTrades isoDateTime 0 sampleHistory))
        - (300 / 1 * (1 / 3) - (300 + 300) / 2 * (1 - 1 / 3))\<bar>
       \<le> 1 / 200 + ((1 + 1 / 2 ^ 53) ^ (3 + 5) - 1) * (300 / 1 + (300 + 300) / 2)"
    using B [THEN conjunct2, THEN conjunct2] by simp
  then have s5: "\<bar>expectancy (totals (snapshotOfTrades isoDateTime 0 sampleHistory))
        - (300 * (1 / 3) - 300 * (1 - 1 / 3))\<bar>
       \<le> 1 / 200 + ((1 + 1 / 2 ^ 53) ^ 8 - 1) * (300 + 300)"
    by simp
  have c: "averagePnl (totals (snapshotOfTrades isoDateTime 0 [creditCents, creditOne])) = 1"
    using C [THEN conjunct2, THEN conjunct2, THEN conjunct2, THEN conjunct2, THEN conjunct2,
        THEN conjunct1] by (simp add: binary64_eval)
  have m: "winRate (totals (snapshotOfTrades isoDateTime 0 manyTrades)) = 1437 / 100"
    using M [THEN conjunct2, THEN conjunct1] by (simp add: binary64_eval)
  from pair_pnls p n0 n1 s0 s1 s2 s4 s3 s5 c m show ?thesis
    by (intro conjI) simp_all
qed

text \<open>
  The figures as the specification words them differ from the reported ones. On the
  sample history (one win in three closed trades, each of magnitude 300) the reported win
  rate is 33.33 and the reported expectancy is \<open>-100\<close>, whereas the formula evaluated
  with the reported win rate over 100, 0.3333, gives \<open>-100.02\<close>. With 23 wins in 160
  closed trades the exact percentage is 14.375, which rounds to 14.38; the quotient and the
  product computed in doubles give 14.374999999999998, reported as 14.37.
\<close>

theorem winRate_expectancy_counterexample:
  "winRate (totals (snapshotOfTrades isoDateTime 0 sampleHistory)) = 3333 / 100
   \<and> expectancy (totals (snapshotOfTrades isoDateTime 0 sampleHistory)) = - 100
   \<and> specExpectancy (map tradePnl (filter isClosed sampleHistory)) = - (5001 / 50)
   \<and> expectancy (totals (snapshotOfTrades isoDateTime 0 sampleHistory))
       \<noteq> specExpectancy (map tradePnl (filter isClosed sampleHistory))
   \<and> winRate (totals (snapshotOfTrades isoDateTime 0 manyTrades)) = 1437 / 100
   \<and> specWinRate (map tradePnl (filter isClosed manyTrades)) = 719 / 50
   \<and> winRate (totals (snapshotOfTrades isoDateTime 0 manyTrades))
       \<noteq> specWinRate (map tradePnl (filter isClosed manyTrades))"
proof -
  have w: "winRate (totals (snapshotOfTrades isoDateTime 0 sampleHistory)) = 3333 / 100"
    unfolding snapshot_totals_pnls sample_pnl_list
    by (simp add: binary64_eval toFixed2_def)
  have e: "expectancy (totals (snapshotOfTrades isoDateTime 0 sampleHistory)) = - 100"
    unfolding snapshot_totals_pnls sample_pnl_list
    by (simp add: binary64_eval toFixed2_def)
  have se: "specExpectancy (map tradePnl (filter isClosed sampleHistory)) = - (5001 / 50)"
    unfolding sample_pnl_list
    by (simp add: specExpectancy_def specWinRate_def Let_def toFixed2_def)
  have m: "winRate (totals (snapshotOfTrades isoDateTime 0 manyTrades)) = 1437 / 100"
    unfolding snapshot_totals_pnls manyTrades_pnls
    by (simp add: binary64_eval toFixed2_def)
  have sm: "specWinRate (map tradePnl (filter isClosed manyTrades)) = 719 / 50"
    unfolding manyTrades_pnls
    by (simp add: specWinRate_def toFixed2_def)
  from w e se m sm show ?thesis by simp
qed

section \<open>The equity curve\<close>

lemma length_equityLoop [simp]: "length (equityLoop c ts) = length ts"
  by (induction ts arbitrary: c) (simp_all add: Let_def)











section \<open>The cache policy of the summary route\<close>

text \<open>
  C3. When the latest stored snapshot of the user under the default label exists and its
  calculation timestamp is not older than 24 hours, \<open>getSummary\<close> answers that snapshot
  with its report date and timestamp, \<open>refreshed = false\<close>, and leaves the store as it
  is. When there is none, or the latest one is older than 24 hours, and the reads and
  the write of the recomputation are not rejected, it answers the snapshot computed now
  from the user's trade history with \<open>refreshed = true\<close>, and the store then holds that
  snapshot in the row of the key (user, default label, current date), the only row of
  that key, every row of another key being as before. The latest stored snapshot is a
  row of the user and label that no other such row is newer than.
\<close>

theorem getSummary_cache_policy:
  "(\<forall>ex. getLatestAnalyticsSnapshot db uid DEFAULT_LABEL = Inr (Some ex) \<longrightarrow>
        ex \<in> set (analytics_summaries db) \<and> storedUserId ex = uid \<and> label ex = DEFAULT_LABEL
        \<and> (\<forall>r\<in>set (analytics_summaries db).
              storedUserId r = uid \<and> label r = DEFAULT_LABEL \<longrightarrow> \<not> newer r ex))
   \<and> (getLatestAnalyticsSnapshot db uid DEFAULT_LABEL = Inr None \<longrightarrow>
        (\<forall>r\<in>set (analytics_summaries db). \<not> (storedUserId r = uid \<and> label r = DEFAULT_LABEL)))
   \<and> (\<forall>ex. getLatestAnalyticsSnapshot db uid DEFAULT_LABEL = Inr (Some ex)
          \<and> now - calculatedAt ex \<le> 24 * 60 * 60 * 1000 \<longrightarrow>
        getSummary getTime now db uid
          = (Inr \<lparr>data = snapshot ex, responseReportDate = reportDate ex,
                  responseCalculatedAt = calculatedAt ex, refreshed = False\<rparr>, db))
   \<and> ((getLatestAnalyticsSnapshot db uid DEFAULT_LABEL = Inr None
        \<or> (\<exists>ex. getLatestAnalyticsSnapshot db uid DEFAULT_LABEL = Inr (Some ex)
                 \<and> now - calculatedAt ex > 24 * 60 * 60 * 1000))
       \<and> \<not> rejects db (SelectTrades uid)
       \<and> \<not> rejects db (UpsertSummary uid DEFAULT_LABEL (dateOfInstant now)) \<longrightarrow>
        fst (getSummary getTime now db uid)
          = Inr \<lparr>data = snapshotOfTrades getTime now (tradeRows db uid),
                 responseReportDate = dateOfInstant now,
                 responseCalculatedAt = now, refreshed = True\<rparr>
        \<and> \<lparr>storedUserId = uid, label = DEFAULT_LABEL, reportDate = dateOfInstant now,
            calculatedAt = now, snapshot = snapshotOfTrades getTime now (tradeRows db uid)\<rparr>
           \<in> set (analytics_summaries (snd (getSummary getTime now db uid)))
        \<and> (\<forall>r\<in>set (analytics_summaries (snd (getSummary getTime now db uid))).
              sameKey uid DEFAULT_LABEL (dateOfInstant now) r \<longrightarrow>
              r = \<lparr>storedUserId = uid, label = DEFAULT_LABEL, reportDate = dateOfInstant now,
                    calculatedAt = now,
                    snapshot = snapshotOfTrades getTime now (tradeRows db uid)\<rparr>)
        \<and> filter (\<lambda>r. \<not> sameKey uid DEFAULT_LABEL (dateOfInstant now) r)
             (analytics_summaries (snd (getSummary getTime now db uid)))
           = filter (\<lambda>r. \<not> sameKey uid DEFAULT_LABEL (dateOfInstant now) r)
               (analytics_summaries db)
        \<and> tradeRows (snd (getSummary getTime now db uid)) = tradeRows db
        \<and> users (snd (getSummary getTime now db uid)) = users db)"
proof -
  have c1: "\<forall>ex. getLatestAnalyticsSnapshot db uid DEFAULT_LABEL = Inr (Some ex) \<longrightarrow>
        ex \<in> set (analytics_summaries db) \<and> storedUserId ex = uid \<and> label ex = DEFAULT_LABEL
        \<and> (\<forall>r\<in>set (analytics_summaries db).
              storedUserId r = uid \<and> label r = DEFAULT_LABEL \<longrightarrow> \<not> newer r ex)"
    using getLatest_Some by blast
  have c2: "getLatestAnalyticsSnapshot db uid DEFAULT_LABEL = Inr None \<longrightarrow>
        (\<forall>r\<in>set (analytics_summaries db). \<not> (storedUserId r = uid \<and> label r = DEFAULT_LABEL))"
    using getLatest_None by blast
  have c3: "\<forall>ex. getLatestAnalyticsSnapshot db uid DEFAULT_LABEL = Inr (Some ex)
          \<and> now - calculatedAt ex \<le> 24 * 60 * 60 * 1000 \<longrightarrow>
        getSummary getTime now db uid
          = (Inr \<lparr>data = snapshot ex, responseReportDate = reportDate ex,
                  responseCalculatedAt = calculatedAt ex, refreshed = False\<rparr>, db)"
    by (simp add: getSummary_fresh ONE_DAY_MS_def)
  have c4: "(getLatestAnalyticsSnapshot db uid DEFAULT_LABEL = Inr None
        \<or> (\<exists>ex. getLatestAnalyticsSnapshot db uid DEFAULT_LABEL = Inr (Some ex)
                 \<and> now - calculatedAt ex > 24 * 60 * 60 * 1000))
       \<and> \<not> rejects db (SelectTrades uid)
       \<and> \<not> rejects db (UpsertSummary uid DEFAULT_LABEL (dateOfInstant now)) \<longrightarrow>
        fst (getSummary getTime now db uid)
          = Inr \<lparr>data = snapshotOfTrades getTime now (tradeRows db uid),
                 responseReportDate = dateOfInstant now,
                 responseCalculatedAt = now, refreshed = True\<rparr>
        \<and> \<lparr>storedUserId = uid, label = DEFAULT_LABEL, reportDate = dateOfInstant now,
            calculatedAt = now, snapshot = snapshotOfTrades getTime now (tradeRows db uid)\<rparr>
           \<in> set (analytics_summaries (snd (getSummary getTime now db uid)))
        \<and> (\<forall>r\<in>set (analytics_summaries (snd (getSummary getTime now db uid))).
              sameKey uid DEFAULT_LABEL (dateOfInstant now) r \<longrightarrow>
              r = \<lparr>storedUserId = uid, label = DEFAULT_LABEL, reportDate = dateOfInstant now,
                    calculatedAt = now,
                    snapshot = snapshotOfTrades getTime now (tradeRows db uid)\<rparr>)
        \<and> filter (\<lambda>r. \<not> sameKey uid DEFAULT_LABEL (dateOfInstant now) r)
             (analytics_summaries (snd (getSummary getTime now db uid)))
           = filter (\<lambda>r. \<not> sameKey uid DEFAULT_LABEL (dateOfInstant now) r)
               (analytics_summaries db)
        \<and> tradeRows (snd (getSummary getTime now db uid)) = tradeRows db
        \<and> users (snd (getSummary getTime now db uid)) = users db"
  proof
    assume h: "(getLatestAnalyticsSnapshot db uid DEFAULT_LABEL = Inr None
        \<or> (\<exists>ex. getLatestAnalyticsSnapshot db uid DEFAULT_LABEL = Inr (Some ex)
                 \<and> now - calculatedAt ex > 24 * 60 * 60 * 1000))
       \<and> \<not> rejects db (SelectTrades uid)
       \<and> \<not> rejects db (UpsertSummary uid DEFAULT_LABEL (dateOfInstant now))"
    then have "getSummary getTime now db uid = recalculate getTime now db uid"
      by (intro getSummary_recompute) (simp add: ONE_DAY_MS_def)
    with h have eq: "getSummary getTime now db uid
       = (Inr \<lparr>data = snapshotOfTrades getTime now (tradeRows db uid),
               responseReportDate = dateOfInstant now,
               responseCalculatedAt = now,
               refreshed = True\<rparr>,
          snd (upsertAnalyticsSnapshot now db uid (snapshotOfTrades getTime now (tradeRows db uid))
                 DEFAULT_LABEL (dateOfInstant now)))"
      by (simp add: recalculate_ok)
    from h have w: "\<not> rejects db (UpsertSummary uid DEFAULT_LABEL (dateOfInstant now))"
      by simp
    note u = upsert_ok [OF w, of now "snapshotOfTrades getTime now (tradeRows db uid)"]
    show "fst (getSummary getTime now db uid)
          = Inr \<lparr>data = snapshotOfTrades getTime now (tradeRows db uid),
                 responseReportDate = dateOfInstant now,
                 responseCalculatedAt = now, refreshed = True\<rparr>
        \<and> \<lparr>storedUserId = uid, label = DEFAULT_LABEL, reportDate = dateOfInstant now,
            calculatedAt = now, snapshot = snapshotOfTrades getTime now (tradeRows db uid)\<rparr>
           \<in> set (analytics_summaries (snd (getSummary getTime now db uid)))
        \<and> (\<forall>r\<in>set (analytics_summaries (snd (getSummary getTime now db uid))).
              sameKey uid DEFAULT_LABEL (dateOfInstant now) r \<longrightarrow>
              r = \<lparr>storedUserId = uid, label = DEFAULT_LABEL, reportDate = dateOfInstant now,
                    calculatedAt = now,
                    snapshot = snapshotOfTrades getTime now (tradeRows db uid)\<rparr>)
        \<and> filter (\<lambda>r. \<not> sameKey uid DEFAULT_LABEL (dateOfInstant now) r)
             (analytics_summaries (snd (getSummary getTime now db uid)))
           = filter (\<lambda>r. \<not> sameKey uid DEFAULT_LABEL (dateOfInstant now) r)
               (analytics_summaries db)
        \<and> tradeRows (snd (getSummary getTime now db uid)) = tradeRows db
        \<and> users (snd (getSummary getTime now db uid)) = users db"
      unfolding eq snd_conv fst_conv
      using u(2) u(3) u(4) u(5) u(6) by simp
  qed
  show ?thesis
    by (intro conjI) (rule c1, rule c2, rule c3, rule c4)
qed

theorem getSummary_cache_policy_witness:
  "getLatestAnalyticsSnapshot sampleDb ''u1'' DEFAULT_LABEL = Inr (Some storedRow)
   \<and> getSummary isoDateTime (1704067200000 + 3600000) sampleDb ''u1''
       = (Inr \<lparr>data = snapshot storedRow, responseReportDate = 19723,
               responseCalculatedAt = 1704067200000, refreshed = False\<rparr>, sampleDb)
   \<and> fst (getSummary isoDateTime (1704067200000 + 2 * 86400000) sampleDb ''u1'')
       = Inr \<lparr>data = snapshotOfTrades isoDateTime (1704067200000 + 2 * 86400000) sampleHistory,
              responseReportDate = 19725,
              responseCalculatedAt = 1704067200000 + 2 * 86400000, refreshed = True\<rparr>
   \<and> getLatestAnalyticsSnapshot sampleDb ''u2'' DEFAULT_LABEL = Inr None
   \<and> fst (getSummary isoDateTime (1704067200000 + 3600000) sampleDb ''u2'')
       = Inr \<lparr>data = snapshotOfTrades isoDateTime (1704067200000 + 3600000) [],
              responseReportDate = 19723,
              responseCalculatedAt = 1704067200000 + 3600000, refreshed = True\<rparr>"
proof -
  have nr: "\<And>q. \<not> rejects sampleDb q"
    by (simp add: sampleDb_def)
  have rows: "tradeRows sampleDb ''u1'' = sampleHistory" "tradeRows sampleDb ''u2'' = []"
    by (simp_all add: sampleDb_def)
  have stored: "reportDate storedRow = 19723" "calculatedAt storedRow = 1704067200000"
    by (simp_all add: storedRow_def)
  have days: "dateOfInstant (1704067200000 + 2 * 86400000) = 19725"
      "dateOfInstant (1704067200000 + 3600000) = 19723"
    by (simp_all add: dateOfInstant_def ONE_DAY_MS_def)
  have fresh: "getLatestAnalyticsSnapshot sampleDb ''u1'' DEFAULT_LABEL = Inr (Some storedRow)
      \<and> (1704067200000 + 3600000) - calculatedAt storedRow \<le> 24 * 60 * 60 * 1000"
    by (simp add: sampleDb_latest stored)
  have a: "getSummary isoDateTime (1704067200000 + 3600000) sampleDb ''u1''
       = (Inr \<lparr>data = snapshot storedRow, responseReportDate = 19723,
               responseCalculatedAt = 1704067200000, refreshed = False\<rparr>, sampleDb)"
    using getSummary_cache_policy [where db = sampleDb and uid = "''u1''"
        and now = "1704067200000 + 3600000" and getTime = isoDateTime,
        THEN conjunct2, THEN conjunct2, THEN conjunct1, rule_format, OF fresh]
    by (simp only: stored)
  have stale: "(getLatestAnalyticsSnapshot sampleDb ''u1'' DEFAULT_LABEL = Inr None
        \<or> (\<exists>ex. getLatestAnalyticsSnapshot sampleDb ''u1'' DEFAULT_LABEL = Inr (Some ex)
                 \<and> (1704067200000 + 2 * 86400000) - calculatedAt ex > 24 * 60 * 60 * 1000))
       \<and> \<not> rejects sampleDb (SelectTrades ''u1'')
       \<and> \<not> rejects sampleDb (UpsertSummary ''u1'' DEFAULT_LABEL
              (dateOfInstant (1704067200000 + 2 * 86400000)))"
    by (simp add: sampleDb_latest stored nr)
  have b: "fst (getSummary isoDateTime (1704067200000 + 2 * 86400000) sampleDb ''u1'')
       = Inr \<lparr>data = snapshotOfTrades isoDateTime (1704067200000 + 2 * 86400000) sampleHistory,
              responseReportDate = 19725,
              responseCalculatedAt = 1704067200000 + 2 * 86400000, refreshed = True\<rparr>"
    using getSummary_cache_policy [where db = sampleDb and uid = "''u1''"
        and now = "1704067200000 + 2 * 86400000" and getTime = isoDateTime,
        THEN conjunct2, THEN conjunct2, THEN conjunct2, rule_format, OF stale, THEN conjunct1]
    by (simp only: rows days)
  have absent: "(getLatestAnalyticsSnapshot sampleDb ''u2'' DEFAULT_LABEL = Inr None
        \<or> (\<exists>ex. getLatestAnalyticsSnapshot sampleDb ''u2'' DEFAULT_LABEL = Inr (Some ex)
                 \<and> (1704067200000 + 3600000) - calculatedAt ex > 24 * 60 * 60 * 1000))
       \<and> \<not> rejects sampleDb (SelectTrades ''u2'')
       \<and> \<not> rejects sampleDb (UpsertSummary ''u2'' DEFAULT_LABEL
              (dateOfInstant (1704067200000 + 3600000)))"
    by (simp add: sampleDb_latest nr)
  have c: "fst (getSummary isoDateTime (1704067200000 + 3600000) sampleDb ''u2'')
       = Inr \<lparr>data = snapshotOfTrades isoDateTime (1704067200000 + 3600000) [],
              responseReportDate = 19723,
              responseCalculatedAt = 1704067200000 + 3600000, refreshed = True\<rparr>"
    using getSummary_cache_policy [where db = sampleDb and uid = "''u2''"
        and now = "1704067200000 + 3600000" and getTime = isoDateTime,
        THEN conjunct2, THEN conjunct2, THEN conjunct2, rule_format, OF absent, THEN conjunct1]
    by (simp only: rows days)
  from a b c sampleDb_latest show ?thesis
    by (intro conjI)
qed

section \<open>The boundary of the freshness window\<close>

lemma recalculate_refreshed:
  assumes "recalculate g now db uid = (Inr resp, db')"
  shows "refreshed resp"
proof -
  from recalculate_Inr [OF assms] have
    "\<not> rejects db (SelectTrades uid)"
    "\<not> rejects db (UpsertSummary uid DEFAULT_LABEL (dateOfInstant now))"
    by simp_all
  from recalculate_ok [OF this, of g] assms show ?thesis by auto
qed

text \<open>
  C10. The freshness window is 24 hours in milliseconds and the comparison is strict.
  With a latest stored snapshot whose calculation timestamp lies exactly 24 hours, or
  less, before the request, \<open>getSummary\<close> answers the stored snapshot with
  \<open>refreshed = false\<close> and leaves the store as it is; it goes on to recompute only when
  the age is more than 24 hours, and an answer has \<open>refreshed = true\<close> exactly then.
\<close>

theorem staleness_check_strict:
  "ONE_DAY_MS = 86400000
   \<and> (\<forall>ex. getLatestAnalyticsSnapshot db uid DEFAULT_LABEL = Inr (Some ex) \<longrightarrow>
         (now - calculatedAt ex = ONE_DAY_MS \<longrightarrow>
            getSummary getTime now db uid
              = (Inr \<lparr>data = snapshot ex, responseReportDate = reportDate ex,
                      responseCalculatedAt = calculatedAt ex, refreshed = False\<rparr>, db))
         \<and> (now - calculatedAt ex \<le> ONE_DAY_MS \<longrightarrow>
            getSummary getTime now db uid
              = (Inr \<lparr>data = snapshot ex, responseReportDate = reportDate ex,
                      responseCalculatedAt = calculatedAt ex, refreshed = False\<rparr>, db))
         \<and> (ONE_DAY_MS < now - calculatedAt ex \<longrightarrow>
            getSummary getTime now db uid = recalculate getTime now db uid)
         \<and> (\<forall>resp db'. getSummary getTime now db uid = (Inr resp, db') \<longrightarrow>
               refreshed resp = (ONE_DAY_MS < now - calculatedAt ex)))"
proof (intro conjI allI impI)
  show "ONE_DAY_MS = 86400000"
    by (simp add: ONE_DAY_MS_def)
next
  fix ex
  assume l: "getLatestAnalyticsSnapshot db uid DEFAULT_LABEL = Inr (Some ex)"
  {
    assume "now - calculatedAt ex = ONE_DAY_MS"
    then show "getSummary getTime now db uid
              = (Inr \<lparr>data = snapshot ex, responseReportDate = reportDate ex,
                      responseCalculatedAt = calculatedAt ex, refreshed = False\<rparr>, db)"
      using getSummary_fresh [OF l] by simp
  next
    assume "now - calculatedAt ex \<le> ONE_DAY_MS"
    then show "getSummary getTime now db uid
              = (Inr \<lparr>data = snapshot ex, responseReportDate = reportDate ex,
                      responseCalculatedAt = calculatedAt ex, refreshed = False\<rparr>, db)"
      by (rule getSummary_fresh [OF l])
  next
    assume "ONE_DAY_MS < now - calculatedAt ex"
    then show "getSummary getTime now db uid = recalculate getTime now db uid"
      by (rule getSummary_stale [OF l])
  next
    fix resp db'
    assume r: "getSummary getTime now db uid = (Inr resp, db')"
    show "refreshed resp = (ONE_DAY_MS < now - calculatedAt ex)"
    proof (cases "ONE_DAY_MS < now - calculatedAt ex")
      case True
      with r getSummary_stale [OF l, of now getTime]
      have "recalculate getTime now db uid = (Inr resp, db')" by simp
      then have "refreshed resp" by (rule recalculate_refreshed)
      with True show ?thesis by simp
    next
      case False
      then have "now - calculatedAt ex \<le> ONE_DAY_MS" by simp
      from getSummary_fresh [OF l this, of getTime] r have "\<not> refreshed resp" by auto
      with False show ?thesis by simp
    qed
  }
qed

theorem staleness_check_strict_witness:
  "getLatestAnalyticsSnapshot sampleDb ''u1'' DEFAULT_LABEL = Inr (Some storedRow)
   \<and> (1704067200000 + 86400000) - calculatedAt storedRow = ONE_DAY_MS
   \<and> getSummary isoDateTime (1704067200000 + 86400000) sampleDb ''u1''
       = (Inr \<lparr>data = snapshot storedRow, responseReportDate = reportDate storedRow,
               responseCalculatedAt = calculatedAt storedRow, refreshed = False\<rparr>, sampleDb)
   \<and> ONE_DAY_MS < (1704067200000 + 86400001) - calculatedAt storedRow
   \<and> getSummary isoDateTime (1704067200000 + 86400001) sampleDb ''u1''
       = recalculate isoDateTime (1704067200000 + 86400001) sampleDb ''u1''"
proof -
  have exact: "(1704067200000 + 86400000) - calculatedAt storedRow = ONE_DAY_MS"
    by (simp add: storedRow_def ONE_DAY_MS_def)
  have over: "ONE_DAY_MS < (1704067200000 + 86400001) - calculatedAt storedRow"
    by (simp add: storedRow_def ONE_DAY_MS_def)
  have a: "getSummary isoDateTime (1704067200000 + 86400000) sampleDb ''u1''
       = (Inr \<lparr>data = snapshot storedRow, responseReportDate = reportDate storedRow,
               responseCalculatedAt = calculatedAt storedRow, refreshed = False\<rparr>, sampleDb)"
    by (rule staleness_check_strict [where db = sampleDb and uid = "''u1''"
        and now = "1704067200000 + 86400000" and getTime = isoDateTime,
        THEN conjunct2, rule_format, OF sampleDb_latest(1), THEN conjunct1, rule_format,
        OF exact])
  have b: "getSummary isoDateTime (1704067200000 + 86400001) sampleDb ''u1''
       = recalculate isoDateTime (1704067200000 + 86400001) sampleDb ''u1''"
    by (rule staleness_check_strict [where db = sampleDb and uid = "''u1''"
        and now = "1704067200000 + 86400001" and getTime = isoDateTime,
        THEN conjunct2, rule_format, OF sampleDb_latest(1), THEN conjunct2, THEN conjunct2,
        THEN conjunct1, rule_format, OF over])
  from sampleDb_latest(1) exact a over b show ?thesis
    by (intro conjI)
qed

section \<open>Recomputation is deterministic in the trade history\<close>

lemma snapshotOfTrades_clock:
  "snapshotOfTrades g nowB trades = (snapshotOfTrades g nowA trades)\<lparr>generatedAt := nowB\<rparr>"
  by (simp add: snapshotOfTrades_def Let_def)

text \<open>
  C9. A snapshot depends on the clock only in \<open>generatedAt\<close>. Two recomputations for a
  user over the same trade history, at any two instants and whatever the snapshot store
  holds, answer snapshots with the same totals, strategy breakdown, equity curve and
  holding periods; in particular a forced recomputation followed by a second one, which
  runs on the store the first one wrote, has the trade history unchanged and gives the
  same content, and the second one succeeds when its write is not rejected.
\<close>

theorem recalculate_deterministic:
  "snapshotOfTrades getTime nowB trades
     = (snapshotOfTrades getTime nowA trades)\<lparr>generatedAt := nowB\<rparr>
   \<and> (\<forall>dbx r1 d1 r2 d2.
         tradeRows dbx uid = tradeRows db uid
         \<and> recalculate getTime nowA db uid = (Inr r1, d1)
         \<and> recalculate getTime nowB dbx uid = (Inr r2, d2) \<longrightarrow>
         totals (data r2) = totals (data r1)
         \<and> strategyBreakdown (data r2) = strategyBreakdown (data r1)
         \<and> equityCurve (data r2) = equityCurve (data r1)
         \<and> holdingPeriods (data r2) = holdingPeriods (data r1)
         \<and> data r2 = (data r1)\<lparr>generatedAt := nowB\<rparr>)
   \<and> (\<forall>r1 d1 r2 d2.
         recalculate getTime nowA db uid = (Inr r1, d1)
         \<and> recalculate getTime nowB d1 uid = (Inr r2, d2) \<longrightarrow>
         tradeRows d1 = tradeRows db
         \<and> totals (data r2) = totals (data r1)
         \<and> strategyBreakdown (data r2) = strategyBreakdown (data r1)
         \<and> equityCurve (data r2) = equityCurve (data r1)
         \<and> holdingPeriods (data r2) = holdingPeriods (data r1)
         \<and> data r2 = (data r1)\<lparr>generatedAt := nowB\<rparr>)
   \<and> (\<forall>r1 d1.
         recalculate getTime nowA db uid = (Inr r1, d1)
         \<and> \<not> rejects db (UpsertSummary uid DEFAULT_LABEL (dateOfInstant nowB)) \<longrightarrow>
         (\<exists>r2 d2. recalculate getTime nowB d1 uid = (Inr r2, d2)))"
proof -
  have c1: "snapshotOfTrades getTime nowB trades
     = (snapshotOfTrades getTime nowA trades)\<lparr>generatedAt := nowB\<rparr>"
    by (rule snapshotOfTrades_clock)
  have same: "totals (data r2) = totals (data r1)
         \<and> strategyBreakdown (data r2) = strategyBreakdown (data r1)
         \<and> equityCurve (data r2) = equityCurve (data r1)
         \<and> holdingPeriods (data r2) = holdingPeriods (data r1)
         \<and> data r2 = (data r1)\<lparr>generatedAt := nowB\<rparr>"
    if h: "tradeRows dbx uid = tradeRows db uid"
      "recalculate getTime nowA db uid = (Inr r1, d1)"
      "recalculate getTime nowB dbx uid = (Inr r2, d2)"
    for dbx r1 d1 r2 d2
  proof -
    have "data r1 = snapshotOfTrades getTime nowA (tradeRows db uid)"
      by (rule recalculate_Inr_data(1) [OF h(2)])
    moreover have "data r2 = snapshotOfTrades getTime nowB (tradeRows db uid)"
      using recalculate_Inr_data(1) [OF h(3)] h(1) by simp
    ultimately have "data r2 = (data r1)\<lparr>generatedAt := nowB\<rparr>"
      using snapshotOfTrades_clock [of getTime nowB "tradeRows db uid" nowA] by simp
    then show ?thesis
      by (cases "data r1") simp
  qed
  have c2: "\<forall>dbx r1 d1 r2 d2.
         tradeRows dbx uid = tradeRows db uid
         \<and> recalculate getTime nowA db uid = (Inr r1, d1)
         \<and> recalculate getTime nowB dbx uid = (Inr r2, d2) \<longrightarrow>
         totals (data r2) = totals (data r1)
         \<and> strategyBreakdown (data r2) = strategyBreakdown (data r1)
         \<and> equityCurve (data r2) = equityCurve (data r1)
         \<and> holdingPeriods (data r2) = holdingPeriods (data r1)
         \<and> data r2 = (data r1)\<lparr>generatedAt := nowB\<rparr>"
    using same by blast
  have c3: "\<forall>r1 d1 r2 d2.
         recalculate getTime nowA db uid = (Inr r1, d1)
         \<and> recalculate getTime nowB d1 uid = (Inr r2, d2) \<longrightarrow>
         tradeRows d1 = tradeRows db
         \<and> totals (data r2) = totals (data r1)
         \<and> strategyBreakdown (data r2) = strategyBreakdown (data r1)
         \<and> equityCurve (data r2) = equityCurve (data r1)
         \<and> holdingPeriods (data r2) = holdingPeriods (data r1)
         \<and> data r2 = (data r1)\<lparr>generatedAt := nowB\<rparr>"
  proof (intro allI impI)
    fix r1 d1 r2 d2
    assume h: "recalculate getTime nowA db uid = (Inr r1, d1)
         \<and> recalculate getTime nowB d1 uid = (Inr r2, d2)"
    then have t: "tradeRows d1 = tradeRows db"
      using recalculate_Inr_data(2) by blast
    then have "tradeRows d1 uid = tradeRows db uid" by simp
    from same [OF this] h t show "tradeRows d1 = tradeRows db
         \<and> totals (data r2) = totals (data r1)
         \<and> strategyBreakdown (data r2) = strategyBreakdown (data r1)
         \<and> equityCurve (data r2) = equityCurve (data r1)
         \<and> holdingPeriods (data r2) = holdingPeriods (data r1)
         \<and> data r2 = (data r1)\<lparr>generatedAt := nowB\<rparr>"
      by blast
  qed
  have c4: "\<forall>r1 d1.
         recalculate getTime nowA db uid = (Inr r1, d1)
         \<and> \<not> rejects db (UpsertSummary uid DEFAULT_LABEL (dateOfInstant nowB)) \<longrightarrow>
         (\<exists>r2 d2. recalculate getTime nowB d1 uid = (Inr r2, d2))"
  proof (intro allI impI)
    fix r1 d1
    assume h: "recalculate getTime nowA db uid = (Inr r1, d1)
         \<and> \<not> rejects db (UpsertSummary uid DEFAULT_LABEL (dateOfInstant nowB))"
    then have r: "rejects d1 = rejects db"
      using recalculate_Inr_data(3) by blast
    from h have "\<not> rejects db (SelectTrades uid)"
      using recalculate_Inr by blast
    with h r have "\<not> rejects d1 (SelectTrades uid)"
      "\<not> rejects d1 (UpsertSummary uid DEFAULT_LABEL (dateOfInstant nowB))"
      by simp_all
    from recalculate_ok [OF this, of getTime]
    show "\<exists>r2 d2. recalculate getTime nowB d1 uid = (Inr r2, d2)"
      by blast
  qed
  show ?thesis
    by (intro conjI) (rule c1, rule c2, rule c3, rule c4)
qed

theorem recalculate_deterministic_witness:
  "\<not> isl (fst (recalculate isoDateTime 1704070800000 sampleDb ''u1''))
   \<and> \<not> isl (fst (recalculate isoDateTime 1704070860000
          (snd (recalculate isoDateTime 1704070800000 sampleDb ''u1'')) ''u1''))
   \<and> totals (data (projr (fst (recalculate isoDateTime 1704070860000
          (snd (recalculate isoDateTime 1704070800000 sampleDb ''u1'')) ''u1''))))
       = totals (data (projr (fst (recalculate isoDateTime 1704070800000 sampleDb ''u1''))))
   \<and> strategyBreakdown (data (projr (fst (recalculate isoDateTime 1704070860000
          (snd (recalculate isoDateTime 1704070800000 sampleDb ''u1'')) ''u1''))))
       = strategyBreakdown (data (projr (fst (recalculate isoDateTime 1704070800000 sampleDb ''u1''))))
   \<and> equityCurve (data (projr (fst (recalculate isoDateTime 1704070860000
          (snd (recalculate isoDateTime 1704070800000 sampleDb ''u1'')) ''u1''))))
       = equityCurve (data (projr (fst (recalculate isoDateTime 1704070800000 sampleDb ''u1''))))
   \<and> holdingPeriods (data (projr (fst (recalculate isoDateTime 1704070860000
          (snd (recalculate isoDateTime 1704070800000 sampleDb ''u1'')) ''u1''))))
       = holdingPeriods (data (projr (fst (recalculate isoDateTime 1704070800000 sampleDb ''u1''))))
   \<and> generatedAt (data (projr (fst (recalculate isoDateTime 1704070800000 sampleDb ''u1''))))
       = 1704070800000
   \<and> generatedAt (data (projr (fst (recalculate isoDateTime 1704070860000
          (snd (recalculate isoDateTime 1704070800000 sampleDb ''u1'')) ''u1''))))
       = 1704070860000"
proof -
  note T = recalculate_deterministic [where getTime = isoDateTime and db = sampleDb
      and uid = "''u1''" and nowA = 1704070800000 and nowB = 1704070860000 and trades = "[]"]
  have nr: "\<And>q. \<not> rejects sampleDb q"
    by (simp add: sampleDb_def)
  from recalculate_ok [OF nr nr, where uid = "''u1''" and g = isoDateTime and now = 1704070800000]
  obtain r1 d1 where e1: "recalculate isoDateTime 1704070800000 sampleDb ''u1'' = (Inr r1, d1)"
    and g1: "generatedAt (data r1) = 1704070800000"
    by (simp add: snapshot_generatedAt)
  from T e1 nr have "\<exists>r2 d2. recalculate isoDateTime 1704070860000 d1 ''u1'' = (Inr r2, d2)"
    by blast
  then obtain r2 d2 where e2: "recalculate isoDateTime 1704070860000 d1 ''u1'' = (Inr r2, d2)"
    by blast
  from T e1 e2 have eq: "totals (data r2) = totals (data r1)
         \<and> strategyBreakdown (data r2) = strategyBreakdown (data r1)
         \<and> equityCurve (data r2) = equityCurve (data r1)
         \<and> holdingPeriods (data r2) = holdingPeriods (data r1)
         \<and> data r2 = (data r1)\<lparr>generatedAt := 1704070860000\<rparr>"
    by blast
  then have g2: "generatedAt (data r2) = 1704070860000"
    by simp
  from eq g1 g2 show ?thesis
    by (simp add: e1 e2)
qed

section \<open>The scheduled batch\<close>

lemma user_ok:
  assumes "recomputeAnswered now db uid"
  shows "recalculateAnalyticsForUser g now db uid
     = (Inr (), snd (upsertAnalyticsSnapshot now db uid
                      (snapshotOfTrades g now (tradeRows db uid))
                      DEFAULT_LABEL (dateOfInstant now)))"
proof -
  from assms have t: "\<not> rejects db (SelectTrades uid)"
    and w: "\<not> rejects db (UpsertSummary uid DEFAULT_LABEL (dateOfInstant now))"
    by simp_all
  obtain r d where u: "upsertAnalyticsSnapshot now db uid
      (snapshotOfTrades g now (tradeRows db uid)) DEFAULT_LABEL (dateOfInstant now) = (r, d)"
    by (cases "upsertAnalyticsSnapshot now db uid
      (snapshotOfTrades g now (tradeRows db uid)) DEFAULT_LABEL (dateOfInstant now)")
  from upsert_ok(1) [OF w, of now "snapshotOfTrades g now (tradeRows db uid)"] u
  have "r = Inr (recomputedRow g now db uid)" by simp
  then show ?thesis
    by (simp add: recalculateAnalyticsForUser_def calculate_ok [OF t] u)
qed

lemma user_failed:
  assumes "\<not> recomputeAnswered now db uid"
  shows "\<exists>e. recalculateAnalyticsForUser g now db uid = (Inl e, db)"
proof (cases "rejects db (SelectTrades uid)")
  case True
  then show ?thesis
    by (simp add: recalculateAnalyticsForUser_def calculate_rejected)
next
  case False
  with assms have "rejects db (UpsertSummary uid DEFAULT_LABEL (dateOfInstant now))" by simp
  then show ?thesis
    by (simp add: recalculateAnalyticsForUser_def calculate_ok [OF False] upsert_rejected)
qed

lemma user_step:
  fixes g
  assumes ok: "recomputeAnswered now db uid"
  defines "d \<equiv> snd (recalculateAnalyticsForUser g now db uid)"
  shows "fst (recalculateAnalyticsForUser g now db uid) = Inr ()"
    and "rejects d = rejects db"
    and "tradeRows d = tradeRows db"
    and "users d = users db"
    and "recomputedRow g now db uid \<in> set (analytics_summaries d)"
    and "\<And>r. r \<in> set (analytics_summaries db) \<Longrightarrow>
           r \<in> set (analytics_summaries d) \<or> sameKey uid DEFAULT_LABEL (dateOfInstant now) r"
    and "\<And>v. v \<noteq> uid \<Longrightarrow>
           filter (\<lambda>r. storedUserId r = v) (analytics_summaries d)
             = filter (\<lambda>r. storedUserId r = v) (analytics_summaries db)"
proof -
  from ok have w: "\<not> rejects db (UpsertSummary uid DEFAULT_LABEL (dateOfInstant now))"
    by simp
  note u = upsert_ok [OF w, of now "snapshotOfTrades g now (tradeRows db uid)"]
  have d: "d = snd (upsertAnalyticsSnapshot now db uid
                      (snapshotOfTrades g now (tradeRows db uid))
                      DEFAULT_LABEL (dateOfInstant now))"
    by (simp add: d_def user_ok [OF ok])
  show "fst (recalculateAnalyticsForUser g now db uid) = Inr ()"
    by (simp add: user_ok [OF ok])
  show "rejects d = rejects db" unfolding d by (rule u(7))
  show "tradeRows d = tradeRows db" unfolding d by (rule u(6))
  show "users d = users db" unfolding d by (rule u(5))
  show "recomputedRow g now db uid \<in> set (analytics_summaries d)"
    unfolding d by (rule u(2))
  have f: "filter (\<lambda>r. \<not> sameKey uid DEFAULT_LABEL (dateOfInstant now) r) (analytics_summaries d)
         = filter (\<lambda>r. \<not> sameKey uid DEFAULT_LABEL (dateOfInstant now) r) (analytics_summaries db)"
    unfolding d by (rule u(4))
  show "r \<in> set (analytics_summaries d) \<or> sameKey uid DEFAULT_LABEL (dateOfInstant now) r"
    if "r \<in> set (analytics_summaries db)" for r
  proof (cases "sameKey uid DEFAULT_LABEL (dateOfInstant now) r")
    case True
    then show ?thesis ..
  next
    case False
    with that have "r \<in> set (filter (\<lambda>r. \<not> sameKey uid DEFAULT_LABEL (dateOfInstant now) r)
        (analytics_summaries db))"
      by simp
    then have "r \<in> set (filter (\<lambda>r. \<not> sameKey uid DEFAULT_LABEL (dateOfInstant now) r)
        (analytics_summaries d))"
      by (simp only: f)
    then show ?thesis by simp
  qed
  show "filter (\<lambda>r. storedUserId r = v) (analytics_summaries d)
             = filter (\<lambda>r. storedUserId r = v) (analytics_summaries db)"
    if "v \<noteq> uid" for v
  proof -
    have "filter (\<lambda>r. storedUserId r = v) rs
        = filter (\<lambda>r. storedUserId r = v)
            (filter (\<lambda>r. \<not> sameKey uid DEFAULT_LABEL (dateOfInstant now) r) rs)" for rs
      using that by (induction rs) (auto simp: sameKey_def)
    from this [of "analytics_summaries d"] this [of "analytics_summaries db"] f
    show ?thesis by simp
  qed
qed

lemma rows_append:
  "recalculateRows g now (xs @ ys) db
     = (case recalculateRows g now xs db of
          (Inl e, d) \<Rightarrow> (Inl e, d)
        | (Inr u, d) \<Rightarrow> recalculateRows g now ys d)"
  by (induction xs arbitrary: db) (auto split: prod.splits sum.splits)

lemma rows_ok:
  assumes "\<forall>u\<in>set xs. recomputeAnswered now db u"
  shows "fst (recalculateRows g now xs db) = Inr ()
       \<and> rejects (snd (recalculateRows g now xs db)) = rejects db
       \<and> tradeRows (snd (recalculateRows g now xs db)) = tradeRows db
       \<and> users (snd (recalculateRows g now xs db)) = users db"
  using assms
proof (induction xs arbitrary: db)
  case Nil
  show ?case by simp
next
  case (Cons x xs)
  from Cons.prems have ok: "recomputeAnswered now db x" by simp
  obtain d where s: "recalculateAnalyticsForUser g now db x = (Inr (), d)"
    using user_ok [OF ok] by blast
  from user_step(2-4) [OF ok, of g] s have
    inv: "rejects d = rejects db" "tradeRows d = tradeRows db" "users d = users db"
    by simp_all
  from Cons.prems inv have "\<forall>u\<in>set xs. recomputeAnswered now d u" by simp
  from Cons.IH [OF this] inv show ?case
    by (simp add: s)
qed

lemma rows_untouched:
  assumes "\<forall>u\<in>set xs. recomputeAnswered now db u" and "v \<notin> set xs"
  shows "filter (\<lambda>r. storedUserId r = v) (analytics_summaries (snd (recalculateRows g now xs db)))
       = filter (\<lambda>r. storedUserId r = v) (analytics_summaries db)"
  using assms
proof (induction xs arbitrary: db)
  case Nil
  show ?case by simp
next
  case (Cons x xs)
  from Cons.prems have ok: "recomputeAnswered now db x" and ne: "v \<noteq> x" and nin: "v \<notin> set xs"
    by simp_all
  obtain d where s: "recalculateAnalyticsForUser g now db x = (Inr (), d)"
    using user_ok [OF ok] by blast
  from user_step(2) [OF ok, of g] s have inv: "rejects d = rejects db" by simp
  from user_step(7) [OF ok ne, of g] s have
    f: "filter (\<lambda>r. storedUserId r = v) (analytics_summaries d)
         = filter (\<lambda>r. storedUserId r = v) (analytics_summaries db)"
    by simp
  from Cons.prems inv have "\<forall>u\<in>set xs. recomputeAnswered now d u" by simp
  from Cons.IH [OF this nin] f show ?case
    by (simp add: s)
qed

lemma rows_preserved:
  assumes "\<forall>u\<in>set xs. recomputeAnswered now db u" and "r \<in> set (analytics_summaries db)"
  shows "r \<in> set (analytics_summaries (snd (recalculateRows g now xs db)))
       \<or> (\<exists>u\<in>set xs. sameKey u DEFAULT_LABEL (dateOfInstant now) r)"
  using assms
proof (induction xs arbitrary: db)
  case Nil
  then show ?case by simp
next
  case (Cons x xs)
  from Cons.prems have ok: "recomputeAnswered now db x" by simp
  obtain d where s: "recalculateAnalyticsForUser g now db x = (Inr (), d)"
    using user_ok [OF ok] by blast
  from user_step(2) [OF ok, of g] s have inv: "rejects d = rejects db" by simp
  from Cons.prems inv have oks: "\<forall>u\<in>set xs. recomputeAnswered now d u" by simp
  from user_step(6) [OF ok Cons.prems(2), of g] s
  have "r \<in> set (analytics_summaries d) \<or> sameKey x DEFAULT_LABEL (dateOfInstant now) r"
    by simp
  then show ?case
  proof
    assume "r \<in> set (analytics_summaries d)"
    from Cons.IH [OF oks this] show ?thesis
      by (auto simp: s)
  next
    assume "sameKey x DEFAULT_LABEL (dateOfInstant now) r"
    then show ?thesis by auto
  qed
qed

lemma rows_present:
  assumes "\<forall>u\<in>set xs. recomputeAnswered now db u" and "uid \<in> set xs"
  shows "recomputedRow g now db uid
           \<in> set (analytics_summaries (snd (recalculateRows g now xs db)))"
  using assms
proof (induction xs arbitrary: db)
  case Nil
  then show ?case by simp
next
  case (Cons x xs)
  from Cons.prems have ok: "recomputeAnswered now db x" by simp
  obtain d where s: "recalculateAnalyticsForUser g now db x = (Inr (), d)"
    using user_ok [OF ok] by blast
  from user_step(2,3) [OF ok, of g] s have
    inv: "rejects d = rejects db" "tradeRows d = tradeRows db"
    by simp_all
  from Cons.prems inv have oks: "\<forall>u\<in>set xs. recomputeAnswered now d u" by simp
  have fin: "snd (recalculateRows g now (x # xs) db) = snd (recalculateRows g now xs d)"
    by (simp add: s)
  show ?case
  proof (cases "uid \<in> set xs")
    case True
    from Cons.IH [OF oks True] show ?thesis
      by (simp only: fin inv)
  next
    case False
    with Cons.prems have e: "uid = x" by simp
    from user_step(5) [OF ok, of g] s
    have "recomputedRow g now db x \<in> set (analytics_summaries d)" by simp
    from rows_preserved [OF oks this, of g]
    have "recomputedRow g now db x \<in> set (analytics_summaries (snd (recalculateRows g now xs d)))
       \<or> (\<exists>u\<in>set xs. sameKey u DEFAULT_LABEL (dateOfInstant now) (recomputedRow g now db x))"
      .
    moreover have "\<not> (\<exists>u\<in>set xs. sameKey u DEFAULT_LABEL (dateOfInstant now)
        (recomputedRow g now db x))"
      using False e by (auto simp: sameKey_def)
    ultimately show ?thesis
      by (simp only: fin e) blast
  qed
qed

lemma rows_stop:
  assumes oks: "\<forall>u\<in>set before. recomputeAnswered now db u"
      and bad: "\<not> recomputeAnswered now db failing"
  shows "\<exists>e. recalculateRows g now (before @ failing # rest) db
                = (Inl e, snd (recalculateRows g now before db))"
proof -
  obtain d where d: "recalculateRows g now before db = (Inr (), d)"
    using rows_ok [OF oks, of g] by (cases "recalculateRows g now before db") auto
  from rows_ok [OF oks, of g] d have "rejects d = rejects db" by simp
  with bad have "\<not> recomputeAnswered now d failing" by simp
  from user_failed [OF this, of g] obtain e where
    "recalculateAnalyticsForUser g now d failing = (Inl e, d)" by blast
  then have "recalculateRows g now (before @ failing # rest) db = (Inl e, d)"
    by (simp add: rows_append d)
  with d show ?thesis by simp
qed

text \<open>
  C1, as the code has it. The batch has no handler of its own around a user's
  recomputation: the one \<^verbatim>\<open>try\<close>/\<^verbatim>\<open>catch\<close> is around the whole batch, in the scheduler's
  callback. When the recomputation of a user fails (its trade read or its upsert is
  rejected) and those of all users before it are answered, the batch ends with that
  error, the callback logs it once, the users before the failing one have their
  snapshot of this run in the store, and the rows of every other user, the failing one
  and all users after it included, are as they were before the run. When no
  recomputation fails, every user has the snapshot of this run in the store and nothing
  is logged.
\<close>

theorem batch_stops_at_first_failure:
  "(\<not> rejects db SelectUsers \<and> users db = before @ failing # rest
    \<and> (\<forall>u\<in>set before. recomputeAnswered now db u)
    \<and> \<not> recomputeAnswered now db failing \<longrightarrow>
      (\<exists>e. recalculateAnalyticsForAllUsers getTime now db
               = (Inl e, snd (recalculateRows getTime now before db))
           \<and> cronCallback getTime now (db, logged)
               = (snd (recalculateRows getTime now before db),
                  logged @ [(''Analytics cron failed'', e)]))
      \<and> (\<forall>u\<in>set before. recomputedRow getTime now db u
            \<in> set (analytics_summaries (snd (recalculateAnalyticsForAllUsers getTime now db))))
      \<and> (\<forall>u. u \<notin> set before \<longrightarrow>
            filter (\<lambda>r. storedUserId r = u)
              (analytics_summaries (snd (recalculateAnalyticsForAllUsers getTime now db)))
            = filter (\<lambda>r. storedUserId r = u) (analytics_summaries db)))
   \<and> (\<not> rejects db SelectUsers \<and> (\<forall>u\<in>set (users db). recomputeAnswered now db u) \<longrightarrow>
      fst (recalculateAnalyticsForAllUsers getTime now db) = Inr ()
      \<and> (\<forall>u\<in>set (users db). recomputedRow getTime now db u
            \<in> set (analytics_summaries (snd (recalculateAnalyticsForAllUsers getTime now db))))
      \<and> cronCallback getTime now (db, logged)
          = (snd (recalculateAnalyticsForAllUsers getTime now db), logged))"
proof (rule conjI)
  show "\<not> rejects db SelectUsers \<and> users db = before @ failing # rest
    \<and> (\<forall>u\<in>set before. recomputeAnswered now db u)
    \<and> \<not> recomputeAnswered now db failing \<longrightarrow>
      (\<exists>e. recalculateAnalyticsForAllUsers getTime now db
               = (Inl e, snd (recalculateRows getTime now before db))
           \<and> cronCallback getTime now (db, logged)
               = (snd (recalculateRows getTime now before db),
                  logged @ [(''Analytics cron failed'', e)]))
      \<and> (\<forall>u\<in>set before. recomputedRow getTime now db u
            \<in> set (analytics_summaries (snd (recalculateAnalyticsForAllUsers getTime now db))))
      \<and> (\<forall>u. u \<notin> set before \<longrightarrow>
            filter (\<lambda>r. storedUserId r = u)
              (analytics_summaries (snd (recalculateAnalyticsForAllUsers getTime now db)))
            = filter (\<lambda>r. storedUserId r = u) (analytics_summaries db))"
  proof
    assume h: "\<not> rejects db SelectUsers \<and> users db = before @ failing # rest
      \<and> (\<forall>u\<in>set before. recomputeAnswered now db u)
      \<and> \<not> recomputeAnswered now db failing"
    then have oks: "\<forall>u\<in>set before. recomputeAnswered now db u"
      and bad: "\<not> recomputeAnswered now db failing"
      by blast+
    from h have all: "recalculateAnalyticsForAllUsers getTime now db
        = recalculateRows getTime now (before @ failing # rest) db"
      by (simp add: recalculateAnalyticsForAllUsers_def)
    from rows_stop [OF oks bad, of getTime rest] obtain e where
      e: "recalculateAnalyticsForAllUsers getTime now db
            = (Inl e, snd (recalculateRows getTime now before db))"
      unfolding all by blast
    then have final: "snd (recalculateAnalyticsForAllUsers getTime now db)
        = snd (recalculateRows getTime now before db)"
      by simp
    have a: "\<exists>e. recalculateAnalyticsForAllUsers getTime now db
               = (Inl e, snd (recalculateRows getTime now before db))
           \<and> cronCallback getTime now (db, logged)
               = (snd (recalculateRows getTime now before db),
                  logged @ [(''Analytics cron failed'', e)])"
      using e by (simp add: cronCallback_def)
    have b: "\<forall>u\<in>set before. recomputedRow getTime now db u
            \<in> set (analytics_summaries (snd (recalculateAnalyticsForAllUsers getTime now db)))"
      unfolding final using rows_present [OF oks] by blast
    have c: "\<forall>u. u \<notin> set before \<longrightarrow>
            filter (\<lambda>r. storedUserId r = u)
              (analytics_summaries (snd (recalculateAnalyticsForAllUsers getTime now db)))
            = filter (\<lambda>r. storedUserId r = u) (analytics_summaries db)"
      unfolding final using rows_untouched [OF oks] by blast
    from a b c show "(\<exists>e. recalculateAnalyticsForAllUsers getTime now db
               = (Inl e, snd (recalculateRows getTime now before db))
           \<and> cronCallback getTime now (db, logged)
               = (snd (recalculateRows getTime now before db),
                  logged @ [(''Analytics cron failed'', e)]))
      \<and> (\<forall>u\<in>set before. recomputedRow getTime now db u
            \<in> set (analytics_summaries (snd (recalculateAnalyticsForAllUsers getTime now db))))
      \<and> (\<forall>u. u \<notin> set before \<longrightarrow>
            filter (\<lambda>r. storedUserId r = u)
              (analytics_summaries (snd (recalculateAnalyticsForAllUsers getTime now db)))
            = filter (\<lambda>r. storedUserId r = u) (analytics_summaries db))"
      by (intro conjI)
  qed
next
  show "\<not> rejects db SelectUsers \<and> (\<forall>u\<in>set (users db). recomputeAnswered now db u) \<longrightarrow>
      fst (recalculateAnalyticsForAllUsers getTime now db) = Inr ()
      \<and> (\<forall>u\<in>set (users db). recomputedRow getTime now db u
            \<in> set (analytics_summaries (snd (recalculateAnalyticsForAllUsers getTime now db))))
      \<and> cronCallback getTime now (db, logged)
          = (snd (recalculateAnalyticsForAllUsers getTime now db), logged)"
  proof
    assume h: "\<not> rejects db SelectUsers \<and> (\<forall>u\<in>set (users db). recomputeAnswered now db u)"
    then have oks: "\<forall>u\<in>set (users db). recomputeAnswered now db u" by blast
    from h have all: "recalculateAnalyticsForAllUsers getTime now db
        = recalculateRows getTime now (users db) db"
      by (simp add: recalculateAnalyticsForAllUsers_def)
    have a: "fst (recalculateAnalyticsForAllUsers getTime now db) = Inr ()"
      unfolding all using rows_ok [OF oks] by blast
    have b: "\<forall>u\<in>set (users db). recomputedRow getTime now db u
            \<in> set (analytics_summaries (snd (recalculateAnalyticsForAllUsers getTime now db)))"
      unfolding all using rows_present [OF oks] by blast
    from a have c: "cronCallback getTime now (db, logged)
          = (snd (recalculateAnalyticsForAllUsers getTime now db), logged)"
      by (cases "recalculateAnalyticsForAllUsers getTime now db") (simp add: cronCallback_def)
    from a b c show "fst (recalculateAnalyticsForAllUsers getTime now db) = Inr ()
      \<and> (\<forall>u\<in>set (users db). recomputedRow getTime now db u
            \<in> set (analytics_summaries (snd (recalculateAnalyticsForAllUsers getTime now db))))
      \<and> cronCallback getTime now (db, logged)
          = (snd (recalculateAnalyticsForAllUsers getTime now db), logged)"
      by (intro conjI)
  qed
qed

text \<open>
  The isolation of a user's failure that the specification states for the batch does
  not hold: with three users, the trade read of the second rejected
  and every query of the third answered, one run of the scheduler's callback
  recomputes the first user only; the third user, who comes after the failing one, has
  no snapshot in the store afterwards, and the one error is logged by the callback.
\<close>

theorem batch_isolation_counterexample:
  "users failingDb = [''u1'', ''u2'', ''u3'']
   \<and> rejects failingDb (SelectTrades ''u2'')
   \<and> \<not> rejects failingDb (SelectTrades ''u3'')
   \<and> \<not> rejects failingDb (UpsertSummary ''u3'' DEFAULT_LABEL (dateOfInstant 1704070800000))
   \<and> map storedUserId
        (analytics_summaries (fst (cronCallback isoDateTime 1704070800000 (failingDb, []))))
       = [''u1'']
   \<and> ''u3'' \<notin> set (map storedUserId
        (analytics_summaries (fst (cronCallback isoDateTime 1704070800000 (failingDb, [])))))
   \<and> snd (cronCallback isoDateTime 1704070800000 (failingDb, []))
       = [(''Analytics cron failed'', QueryRejected (SelectTrades ''u2''))]"
proof -
  have u1: "recalculateAnalyticsForUser isoDateTime 1704070800000 failingDb ''u1''
      = (Inr (), failingDb\<lparr>analytics_summaries :=
           [recomputedRow isoDateTime 1704070800000 failingDb ''u1'']\<rparr>)"
    by (simp add: recalculateAnalyticsForUser_def calculateAnalyticsSnapshot_def listTrades_def
        upsertAnalyticsSnapshot_def Let_def failingDb_def)
  have u2: "recalculateAnalyticsForUser isoDateTime 1704070800000
        (failingDb\<lparr>analytics_summaries :=
           [recomputedRow isoDateTime 1704070800000 failingDb ''u1'']\<rparr>) ''u2''
      = (Inl (QueryRejected (SelectTrades ''u2'')),
         failingDb\<lparr>analytics_summaries :=
           [recomputedRow isoDateTime 1704070800000 failingDb ''u1'']\<rparr>)"
    by (simp add: recalculateAnalyticsForUser_def calculateAnalyticsSnapshot_def listTrades_def
        failingDb_def)
  have run: "cronCallback isoDateTime 1704070800000 (failingDb, [])
      = (failingDb\<lparr>analytics_summaries :=
           [recomputedRow isoDateTime 1704070800000 failingDb ''u1'']\<rparr>,
         [(''Analytics cron failed'', QueryRejected (SelectTrades ''u2''))])"
  proof -
    have "recalculateAnalyticsForAllUsers isoDateTime 1704070800000 failingDb
        = recalculateRows isoDateTime 1704070800000 [''u1'', ''u2'', ''u3''] failingDb"
      by (simp add: recalculateAnalyticsForAllUsers_def failingDb_def)
    also have "\<dots> = (Inl (QueryRejected (SelectTrades ''u2'')),
         failingDb\<lparr>analytics_summaries :=
           [recomputedRow isoDateTime 1704070800000 failingDb ''u1'']\<rparr>)"
      by (simp add: u1 u2)
    finally show ?thesis
      by (simp add: cronCallback_def)
  qed
  have facts: "users failingDb = [''u1'', ''u2'', ''u3'']"
    "rejects failingDb (SelectTrades ''u2'')"
    "\<not> rejects failingDb (SelectTrades ''u3'')"
    "\<not> rejects failingDb (UpsertSummary ''u3'' DEFAULT_LABEL (dateOfInstant 1704070800000))"
    by (simp_all add: failingDb_def)
  from facts show ?thesis
    by (simp add: run)
qed

theorem batch_stops_at_first_failure_witness:
  "\<not> rejects failingDb SelectUsers
   \<and> users failingDb = [''u1''] @ ''u2'' # [''u3'']
   \<and> recomputeAnswered 1704070800000 failingDb ''u1''
   \<and> \<not> recomputeAnswered 1704070800000 failingDb ''u2''
   \<and> isl (fst (recalculateAnalyticsForAllUsers isoDateTime 1704070800000 failingDb))
   \<and> recomputedRow isoDateTime 1704070800000 failingDb ''u1''
       \<in> set (analytics_summaries
               (snd (recalculateAnalyticsForAllUsers isoDateTime 1704070800000 failingDb)))
   \<and> filter (\<lambda>r. storedUserId r = ''u3'')
        (analytics_summaries
          (snd (recalculateAnalyticsForAllUsers isoDateTime 1704070800000 failingDb)))
       = []
   \<and> length (snd (cronCallback isoDateTime 1704070800000 (failingDb, []))) = 1"
proof -
  have h1: "\<not> rejects failingDb SelectUsers"
    and h2: "users failingDb = [''u1''] @ ''u2'' # [''u3'']"
    and h3: "recomputeAnswered 1704070800000 failingDb ''u1''"
    and h4: "\<not> recomputeAnswered 1704070800000 failingDb ''u2''"
    by (simp_all add: failingDb_def)
  have h3': "\<forall>u\<in>set [''u1'']. recomputeAnswered 1704070800000 failingDb u"
    using h3 by simp
  have hyp: "\<not> rejects failingDb SelectUsers \<and> users failingDb = [''u1''] @ ''u2'' # [''u3'']
    \<and> (\<forall>u\<in>set [''u1'']. recomputeAnswered 1704070800000 failingDb u)
    \<and> \<not> recomputeAnswered 1704070800000 failingDb ''u2''"
    using h1 h2 h3' h4 by (intro conjI)
  note T = batch_stops_at_first_failure [where db = failingDb and before = "[''u1'']"
      and failing = "''u2''" and rest = "[''u3'']" and now = 1704070800000
      and getTime = isoDateTime and logged = "[]", THEN conjunct1, rule_format, OF hyp]
  from T obtain e where
    e: "recalculateAnalyticsForAllUsers isoDateTime 1704070800000 failingDb
          = (Inl e, snd (recalculateRows isoDateTime 1704070800000 [''u1''] failingDb))"
    and c: "cronCallback isoDateTime 1704070800000 (failingDb, [])
          = (snd (recalculateRows isoDateTime 1704070800000 [''u1''] failingDb),
             [] @ [(''Analytics cron failed'', e)])"
    by blast
  from e have a: "isl (fst (recalculateAnalyticsForAllUsers isoDateTime 1704070800000 failingDb))"
    by simp
  from c have l: "length (snd (cronCallback isoDateTime 1704070800000 (failingDb, []))) = 1"
    by simp
  from T have "\<forall>u\<in>set [''u1'']. recomputedRow isoDateTime 1704070800000 failingDb u
      \<in> set (analytics_summaries
              (snd (recalculateAnalyticsForAllUsers isoDateTime 1704070800000 failingDb)))"
    by blast
  then have p: "recomputedRow isoDateTime 1704070800000 failingDb ''u1''
      \<in> set (analytics_summaries
              (snd (recalculateAnalyticsForAllUsers isoDateTime 1704070800000 failingDb)))"
    by simp
  from T have "\<forall>u. u \<notin> set [''u1''] \<longrightarrow>
      filter (\<lambda>r. storedUserId r = u)
        (analytics_summaries
          (snd (recalculateAnalyticsForAllUsers isoDateTime 1704070800000 failingDb)))
      = filter (\<lambda>r. storedUserId r = u) (analytics_summaries failingDb)"
    by blast
  then have "filter (\<lambda>r. storedUserId r = ''u3'')
        (analytics_summaries
          (snd (recalculateAnalyticsForAllUsers isoDateTime 1704070800000 failingDb)))
      = filter (\<lambda>r. storedUserId r = ''u3'') (analytics_summaries failingDb)"
    by simp
  then have u: "filter (\<lambda>r. storedUserId r = ''u3'')
        (analytics_summaries
          (snd (recalculateAnalyticsForAllUsers isoDateTime 1704070800000 failingDb)))
      = []"
    by (simp add: failingDb_def)
  from h1 h2 h3 h4 a p u l show ?thesis
    by blast
qed

end
